(* ===== verification/Prelude.thy ===== *)
theory Prelude
  imports Main "HOL-Library.Multiset"
begin

text \<open>
  Shared vocabulary of the development: machine widths and durations as the Go code uses
  them, the state-and-error shape of every effectful Go function (\<open>prog\<close>), a small
  program logic over it (\<open>hoare\<close>, partial correctness together with a guarantee on
  every state change), and generic lemmas on lists, options and maps that several
  components use.
\<close>

section \<open>Lemma collections\<close>

named_theorems prog_simps \<open>equations of the program combinators\<close>
named_theorems prog_rules \<open>introduction rules of the program logic\<close>

section \<open>Machine integers, instants and durations\<close>

text \<open>
  Go's \<open>int32\<close>, \<open>int64\<close> and \<open>time.Duration\<close> (nanoseconds in an \<open>int64\<close>) are kept
  as \<open>int\<close> with the wrap-around written at the operations that can overflow. An instant is
  the number of nanoseconds since Go's zero time, so \<open>IsZero\<close> is equality with 0.
\<close>

type_synonym int32 = int
type_synonym duration = int
type_synonym gotime = int

definition wrap :: "nat \<Rightarrow> int \<Rightarrow> int" where
  "wrap bits x = (x + 2 ^ (bits - 1)) mod 2 ^ bits - 2 ^ (bits - 1)"

abbreviation wrap32 :: "int \<Rightarrow> int" where "wrap32 \<equiv> wrap 32"
abbreviation wrap64 :: "int \<Rightarrow> int" where "wrap64 \<equiv> wrap 64"

definition in_int32 :: "int \<Rightarrow> bool" where
  "in_int32 x \<longleftrightarrow> - (2 ^ 31) \<le> x \<and> x < 2 ^ 31"

definition in_int64 :: "int \<Rightarrow> bool" where
  "in_int64 x \<longleftrightarrow> - (2 ^ 63) \<le> x \<and> x < 2 ^ 63"

lemma wrap32_id: "in_int32 x \<Longrightarrow> wrap32 x = x"
  by (simp add: wrap_def in_int32_def)

lemma wrap64_id: "in_int64 x \<Longrightarrow> wrap64 x = x"
  by (simp add: wrap_def in_int64_def)

lemma wrap32_range: "in_int32 (wrap32 x)"
  by (simp add: wrap_def in_int32_def)

lemma wrap64_range: "in_int64 (wrap64 x)"
  by (simp add: wrap_def in_int64_def)

definition Second :: duration where "Second = 1000000000"
definition Millisecond :: duration where "Millisecond = 1000000"

text \<open>\<open>t.Sub(u)\<close> saturates at the ends of \<open>int64\<close>.\<close>

definition time_sub :: "gotime \<Rightarrow> gotime \<Rightarrow> duration" where
  "time_sub t u = max (- (2 ^ 63)) (min (2 ^ 63 - 1) (t - u))"

lemma time_sub_range: "in_int64 (time_sub t u)"
  by (simp add: time_sub_def in_int64_def)

lemma time_sub_exact: "in_int64 (t - u) \<Longrightarrow> time_sub t u = t - u"
  by (simp add: time_sub_def in_int64_def)

section \<open>Programs: state passing with an error result\<close>

text \<open>
  A Go function that talks to the outside world and returns \<open>(value, error)\<close> is a function
  from the world to its result (\<open>Inl\<close> the error) and the new world. \<open>bnd\<close> is
  \<open>if err != nil { return err }\<close>, \<open>attempt\<close> hands the error to the caller as a value.
\<close>

type_synonym ('w, 'e, 'a) prog = "'w \<Rightarrow> ('e + 'a) \<times> 'w"

definition ret :: "'a \<Rightarrow> ('w, 'e, 'a) prog" where
  "ret x = (\<lambda>w. (Inr x, w))"

definition throw :: "'e \<Rightarrow> ('w, 'e, 'a) prog" where
  "throw e = (\<lambda>w. (Inl e, w))"

definition bnd :: "('w, 'e, 'a) prog \<Rightarrow> ('a \<Rightarrow> ('w, 'e, 'b) prog) \<Rightarrow> ('w, 'e, 'b) prog" where
  "bnd p f = (\<lambda>w. case p w of (Inl e, w') \<Rightarrow> (Inl e, w') | (Inr x, w') \<Rightarrow> f x w')"

definition attempt :: "('w, 'e, 'a) prog \<Rightarrow> ('w, 'e, 'e + 'a) prog" where
  "attempt p = (\<lambda>w. case p w of (r, w') \<Rightarrow> (Inr r, w'))"

definition mapErr :: "('e \<Rightarrow> 'e) \<Rightarrow> ('w, 'e, 'a) prog \<Rightarrow> ('w, 'e, 'a) prog" where
  "mapErr g p = (\<lambda>w. case p w of (Inl e, w') \<Rightarrow> (Inl (g e), w') | (Inr x, w') \<Rightarrow> (Inr x, w'))"

definition query :: "('w \<Rightarrow> 'e + 'a) \<Rightarrow> ('w, 'e, 'a) prog" where
  "query q = (\<lambda>w. (q w, w))"

definition asks :: "('w \<Rightarrow> 'a) \<Rightarrow> ('w, 'e, 'a) prog" where
  "asks q = (\<lambda>w. (Inr (q w), w))"

definition act :: "('w \<Rightarrow> 'w) \<Rightarrow> ('w, 'e, unit) prog" where
  "act f = (\<lambda>w. (Inr (), f w))"

text \<open>\<open>andFinally p f\<close> runs \<open>f\<close> after \<open>p\<close>, whether \<open>p\<close> returned an error or not.\<close>

definition andFinally :: "('w, 'e, 'a) prog \<Rightarrow> ('w \<Rightarrow> 'w) \<Rightarrow> ('w, 'e, 'a) prog" where
  "andFinally p f = (\<lambda>w. case p w of (r, w') \<Rightarrow> (r, f w'))"

lemma ret_app [simp, prog_simps]: "ret x w = (Inr x, w)"
  by (simp add: ret_def)

lemma throw_app [simp, prog_simps]: "throw e w = (Inl e, w)"
  by (simp add: throw_def)

lemma query_app [simp, prog_simps]: "query q w = (q w, w)"
  by (simp add: query_def)

lemma asks_app [simp, prog_simps]: "asks q w = (Inr (q w), w)"
  by (simp add: asks_def)

lemma act_app [simp, prog_simps]: "act f w = (Inr (), f w)"
  by (simp add: act_def)

lemma bnd_app [prog_simps]:
  "bnd p f w = (case p w of (Inl e, w') \<Rightarrow> (Inl e, w') | (Inr x, w') \<Rightarrow> f x w')"
  by (simp add: bnd_def)

lemma attempt_app [prog_simps]: "attempt p w = (case p w of (r, w') \<Rightarrow> (Inr r, w'))"
  by (simp add: attempt_def)

lemma mapErr_app [prog_simps]:
  "mapErr g p w = (case p w of (Inl e, w') \<Rightarrow> (Inl (g e), w') | (Inr x, w') \<Rightarrow> (Inr x, w'))"
  by (simp add: mapErr_def)

lemma andFinally_app [prog_simps]: "andFinally p f w = (case p w of (r, w') \<Rightarrow> (r, f w'))"
  by (simp add: andFinally_def)

lemma andFinally_sel [simp]:
  "fst (andFinally p f w) = fst (p w)" "snd (andFinally p f w) = f (snd (p w))"
  by (simp_all add: andFinally_app split: prod.splits)

lemma bnd_ret [simp]: "bnd (ret x) f = f x"
  by (simp add: bnd_def fun_eq_iff)

lemma bnd_throw [simp]: "bnd (throw e) f = throw e"
  by (simp add: bnd_def throw_def fun_eq_iff)

lemma bnd_asks_app [simp]: "bnd (asks q) f w = f (q w) w"
  by (simp add: bnd_app)

lemma bnd_act_app [simp]: "bnd (act g) f w = f () (g w)"
  by (simp add: bnd_app)

lemma bnd_query_app: "bnd (query q) f w = (case q w of Inl e \<Rightarrow> (Inl e, w) | Inr x \<Rightarrow> f x w)"
  by (simp add: bnd_app split: sum.splits)

lemma bnd_attempt_app: "bnd (attempt p) f w = f (fst (p w)) (snd (p w))"
  by (simp add: bnd_app attempt_app split: prod.splits)

lemma bnd_Inr: "p w = (Inr x, w') \<Longrightarrow> bnd p f w = f x w'"
  by (simp add: bnd_app)

lemma bnd_Inl: "p w = (Inl e, w') \<Longrightarrow> bnd p f w = (Inl e, w')"
  by (simp add: bnd_app)

lemma bnd_assoc: "bnd (bnd p f) g = bnd p (\<lambda>x. bnd (f x) g)"
  by (auto simp: bnd_def fun_eq_iff split: prod.splits sum.splits)

lemma bnd_eq_Inr_iff:
  "bnd p f w = (Inr y, w'') \<longleftrightarrow> (\<exists>x w'. p w = (Inr x, w') \<and> f x w' = (Inr y, w''))"
  by (auto simp: bnd_app split: prod.splits sum.splits)

section \<open>Program logic\<close>

text \<open>
  \<open>hoare P R p Q\<close>: from every world satisfying \<open>P\<close>, whatever \<open>p\<close> returns, it changes
  the world only by steps of \<open>R\<close>; and when it returns a value, \<open>Q\<close> holds of the value
  and the new world.
\<close>

definition hoare ::
    "('w \<Rightarrow> bool) \<Rightarrow> ('w \<Rightarrow> 'w \<Rightarrow> bool) \<Rightarrow> ('w, 'e, 'a) prog \<Rightarrow> ('a \<Rightarrow> 'w \<Rightarrow> bool) \<Rightarrow> bool" where
  "hoare P R p Q \<longleftrightarrow>
     (\<forall>w. P w \<longrightarrow> R\<^sup>*\<^sup>* w (snd (p w)) \<and> (\<forall>x. fst (p w) = Inr x \<longrightarrow> Q x (snd (p w))))"

lemma hoareI:
  assumes "\<And>w. P w \<Longrightarrow> R\<^sup>*\<^sup>* w (snd (p w))"
    and "\<And>w x. P w \<Longrightarrow> fst (p w) = Inr x \<Longrightarrow> Q x (snd (p w))"
  shows "hoare P R p Q"
  using assms by (auto simp: hoare_def)

lemma hoare_steps: "hoare P R p Q \<Longrightarrow> P w \<Longrightarrow> R\<^sup>*\<^sup>* w (snd (p w))"
  by (simp add: hoare_def)

lemma hoare_post: "hoare P R p Q \<Longrightarrow> P w \<Longrightarrow> p w = (Inr x, w') \<Longrightarrow> Q x w'"
  by (auto simp: hoare_def)

lemma hoare_conseq:
  "hoare P R p Q \<Longrightarrow> (\<And>w. P' w \<Longrightarrow> P w) \<Longrightarrow> (\<And>x w. Q x w \<Longrightarrow> Q' x w) \<Longrightarrow> hoare P' R p Q'"
  by (auto simp: hoare_def)

lemma hoare_weaken_post: "hoare P R p Q \<Longrightarrow> (\<And>x w. Q x w \<Longrightarrow> Q' x w) \<Longrightarrow> hoare P R p Q'"
  by (rule hoare_conseq)

lemma hoare_bnd [prog_rules]:
  assumes "hoare P R p Q" and "\<And>x. hoare (Q x) R (f x) S"
  shows "hoare P R (bnd p f) S"
proof (rule hoareI)
  fix w assume P: "P w"
  show "R\<^sup>*\<^sup>* w (snd (bnd p f w))"
  proof (cases "p w")
    case (Pair r w')
    with assms(1) P have step: "R\<^sup>*\<^sup>* w w'" by (auto simp: hoare_def)
    show ?thesis
    proof (cases r)
      case (Inl e)
      with Pair step show ?thesis by (simp add: bnd_app)
    next
      case (Inr x)
      with assms(1) P Pair have "Q x w'" by (auto simp: hoare_def)
      with assms(2) have "R\<^sup>*\<^sup>* w' (snd (f x w'))" by (auto simp: hoare_def)
      with Inr Pair step show ?thesis by (simp add: bnd_app)
    qed
  qed
next
  fix w y assume P: "P w" and ret: "fst (bnd p f w) = Inr y"
  then obtain x w' where px: "p w = (Inr x, w')" and fx: "fst (f x w') = Inr y"
    by (auto simp: bnd_app split: prod.splits sum.splits)
  from assms(1) P px have "Q x w'" by (auto simp: hoare_def)
  with assms(2) fx have "S y (snd (f x w'))" by (auto simp: hoare_def)
  with px show "S y (snd (bnd p f w))" by (simp add: bnd_app)
qed

lemma hoare_ret [prog_rules]: "(\<And>w. P w \<Longrightarrow> Q x w) \<Longrightarrow> hoare P R (ret x) Q"
  by (simp add: hoare_def)

lemma hoare_throw [prog_rules]: "hoare P R (throw e) Q"
  by (simp add: hoare_def)

lemma hoare_query [prog_rules]:
  "(\<And>w x. P w \<Longrightarrow> q w = Inr x \<Longrightarrow> Q x w) \<Longrightarrow> hoare P R (query q) Q"
  by (simp add: hoare_def)

lemma hoare_asks [prog_rules]: "(\<And>w. P w \<Longrightarrow> Q (q w) w) \<Longrightarrow> hoare P R (asks q) Q"
  by (simp add: hoare_def)

lemma hoare_mapErr [prog_rules]: "hoare P R p Q \<Longrightarrow> hoare P R (mapErr g p) Q"
  by (auto simp: hoare_def mapErr_app split: prod.splits sum.splits)

lemma hoare_attempt:
  assumes "hoare P R p Q" and "\<And>w w' e. P w \<Longrightarrow> R\<^sup>*\<^sup>* w w' \<Longrightarrow> E w'"
  shows "hoare P R (attempt p) (\<lambda>r w. case r of Inl e \<Rightarrow> E w | Inr x \<Rightarrow> Q x w)"
  using assms by (fastforce simp: hoare_def attempt_app split: prod.splits sum.splits)

lemma hoare_if [prog_rules]:
  "(b \<Longrightarrow> hoare P R p Q) \<Longrightarrow> (\<not> b \<Longrightarrow> hoare P R q Q) \<Longrightarrow> hoare P R (if b then p else q) Q"
  by simp

lemma hoare_case_sum [prog_rules]:
  "(\<And>e. r = Inl e \<Longrightarrow> hoare P R (f e) Q) \<Longrightarrow> (\<And>x. r = Inr x \<Longrightarrow> hoare P R (g x) Q) \<Longrightarrow>
   hoare P R (case r of Inl e \<Rightarrow> f e | Inr x \<Rightarrow> g x) Q"
  by (cases r) auto

lemma hoare_case_option [prog_rules]:
  "(r = None \<Longrightarrow> hoare P R p Q) \<Longrightarrow> (\<And>x. r = Some x \<Longrightarrow> hoare P R (g x) Q) \<Longrightarrow>
   hoare P R (case r of None \<Rightarrow> p | Some x \<Rightarrow> g x) Q"
  by (cases r) auto

text \<open>
  Rules for the shapes the handlers have: the precondition is kept, the continuation is
  proved for every value the read may have produced.
\<close>

lemma hoare_bnd_asks:
  assumes "\<And>w. P w \<Longrightarrow> hoare P R (k (f w)) Q"
  shows "hoare P R (bnd (asks f) k) Q"
  using assms by (auto simp: hoare_def)

lemma hoare_bnd_query:
  assumes "\<And>w x. P w \<Longrightarrow> q w = Inr x \<Longrightarrow> hoare P R (k x) Q"
  shows "hoare P R (bnd (query q) k) Q"
  using assms by (auto simp: hoare_def bnd_query_app split: sum.splits)

lemma hoare_act:
  assumes "\<And>w. R\<^sup>*\<^sup>* w (f w)" and "\<And>w w'. P w \<Longrightarrow> R\<^sup>*\<^sup>* w w' \<Longrightarrow> P w'"
  shows "hoare P R (act f) (\<lambda>_. P)"
  using assms by (auto simp: hoare_def)

lemma hoare_bnd_act:
  assumes "\<And>w. R\<^sup>*\<^sup>* w (f w)" and "\<And>w w'. P w \<Longrightarrow> R\<^sup>*\<^sup>* w w' \<Longrightarrow> P w'" and "hoare P R (k ()) Q"
  shows "hoare P R (bnd (act f) k) Q"
  by (rule hoare_bnd [OF hoare_act [OF assms(1,2)]]) (use assms(3) in simp_all)

lemma hoare_bnd_attempt:
  assumes "\<And>w. R\<^sup>*\<^sup>* w (snd (p w))" and "\<And>w w'. P w \<Longrightarrow> R\<^sup>*\<^sup>* w w' \<Longrightarrow> P w'"
    and "\<And>res. hoare P R (k res) Q"
  shows "hoare P R (bnd (attempt p) k) Q"
proof (rule hoareI)
  fix w assume "P w"
  then have P: "P (snd (p w))" using assms(1,2) by blast
  show "R\<^sup>*\<^sup>* w (snd (bnd (attempt p) k w))"
    using rtranclp_trans [OF assms(1) hoare_steps [OF assms(3) P]] by (simp add: bnd_attempt_app)
  fix x assume "fst (bnd (attempt p) k w) = Inr x"
  then show "Q x (snd (bnd (attempt p) k w))"
    using assms(3) P by (auto simp: bnd_attempt_app hoare_def)
qed

lemma hoare_andFinally:
  assumes "hoare P R p Q" and "\<And>w. R\<^sup>*\<^sup>* w (f w)"
  shows "hoare P R (andFinally p f) (\<lambda>_ _. True)"
  using assms by (auto simp: hoare_def intro: rtranclp_trans)

lemma hoare_pre_False [simp]: "hoare (\<lambda>_. False) R p Q"
  by (simp add: hoare_def)

end
