(* ===== verification/GoStd.thy ===== *)
theory GoStd
  imports Prelude
begin

text \<open>
  The parts of Go's standard library the sources rely on: decimal formatting and parsing
  (\<open>strconv\<close>, \<open>%d\<close>), \<open>time.ParseDuration\<close>, \<open>sort.SliceStable\<close>, error wrapping and
  \<open>errors.Is\<close>, and \<open>fmt.Sprintf\<close> messages. Strings are byte strings, as in Go.
\<close>

section \<open>Decimal numbers\<close>

definition digitChar :: "nat \<Rightarrow> char" where
  "digitChar n = char_of (48 + n)"

definition isDigit :: "char \<Rightarrow> bool" where
  "isDigit c \<longleftrightarrow> 48 \<le> (of_char c :: nat) \<and> (of_char c :: nat) \<le> 57"

definition digitVal :: "char \<Rightarrow> nat" where
  "digitVal c = of_char c - 48"

fun showNat :: "nat \<Rightarrow> string" where
  "showNat n = (if n < 10 then [digitChar n] else showNat (n div 10) @ [digitChar (n mod 10)])"

declare showNat.simps [simp del]

text \<open>\<open>%d\<close> and \<open>strconv.FormatInt(n, 10)\<close>.\<close>

definition showInt :: "int \<Rightarrow> string" where
  "showInt n = (if n < 0 then CHR ''-'' # showNat (nat (- n)) else showNat (nat n))"

definition digitsVal :: "string \<Rightarrow> nat" where
  "digitsVal ds = foldl (\<lambda>a c. a * 10 + digitVal c) 0 ds"

text \<open>\<open>strconv.ParseInt(s, 10, bits)\<close>: \<open>None\<close> is a syntax or range error.\<close>

definition parseInt :: "nat \<Rightarrow> string \<Rightarrow> int option" where
  "parseInt bits s =
     (case s of [] \<Rightarrow> None
      | c # cs \<Rightarrow>
        let neg = (c = CHR ''-'');
            ds = (if c = CHR ''+'' \<or> c = CHR ''-'' then cs else s);
            un = digitsVal ds
        in if ds = [] \<or> \<not> list_all isDigit ds then None
           else if \<not> neg \<and> 2 ^ (bits - 1) \<le> un then None
           else if neg \<and> 2 ^ (bits - 1) < un then None
           else Some (if neg then - int un else int un))"

lemma of_char_digitChar: "n < 10 \<Longrightarrow> (of_char (digitChar n) :: nat) = 48 + n"
  by (simp add: digitChar_def)

lemma isDigit_digitChar [simp]: "n < 10 \<Longrightarrow> isDigit (digitChar n)"
  by (simp add: isDigit_def of_char_digitChar)

lemma digitVal_digitChar [simp]: "n < 10 \<Longrightarrow> digitVal (digitChar n) = n"
  by (simp add: digitVal_def of_char_digitChar)

lemma showNat_ne [simp]: "showNat n \<noteq> []"
  by (subst showNat.simps) simp

lemma showNat_digits: "list_all isDigit (showNat n)"
proof (induction n rule: showNat.induct)
  case (1 n)
  show ?case
    by (cases "n < 10") (subst showNat.simps, simp add: "1")+
qed

lemma digitsVal_snoc: "digitsVal (ds @ [c]) = digitsVal ds * 10 + digitVal c"
  by (simp add: digitsVal_def)

lemma digitsVal_showNat: "digitsVal (showNat n) = n"
proof (induction n rule: showNat.induct)
  case (1 n)
  show ?case
  proof (cases "n < 10")
    case True
    then show ?thesis by (subst showNat.simps) (simp add: digitsVal_def)
  next
    case False
    then have "digitsVal (showNat n) = digitsVal (showNat (n div 10)) * 10 + n mod 10"
      by (subst showNat.simps) (simp add: digitsVal_snoc)
    also have "\<dots> = n" using False "1" by simp
    finally show ?thesis .
  qed
qed

lemma showNat_inj: "showNat m = showNat n \<longleftrightarrow> m = n"
  by (metis digitsVal_showNat)

lemma not_isDigit_sign [simp]: "\<not> isDigit CHR ''-''" "\<not> isDigit CHR ''+''" "\<not> isDigit CHR ''u''"
  by (simp_all add: isDigit_def)

lemma showNat_no_sign: "c \<in> set (showNat n) \<Longrightarrow> isDigit c"
  using showNat_digits [of n] by (simp add: list_all_iff)

lemma hd_showNat_sign: "hd (showNat n) \<noteq> CHR ''-''" "hd (showNat n) \<noteq> CHR ''+''"
  using showNat_no_sign [of "hd (showNat n)" n] by auto

text \<open>Printing then parsing a number of the given width gives the number back.\<close>

lemma parseInt_showInt:
  assumes "- (2 ^ (bits - 1)) \<le> n" and "n < 2 ^ (bits - 1)"
  shows "parseInt bits (showInt n) = Some n"
proof (cases "n < 0")
  case True
  have "digitsVal (showNat (nat (- n))) = nat (- n)" by (rule digitsVal_showNat)
  moreover have "nat (- n) \<le> 2 ^ (bits - 1)"
    using assms(1) by (simp add: nat_le_iff)
  ultimately show ?thesis
    using True showNat_digits by (simp add: showInt_def parseInt_def)
next
  case False
  obtain c cs where s: "showNat (nat n) = c # cs" by (cases "showNat (nat n)") auto
  then have c: "c \<noteq> CHR ''-''" "c \<noteq> CHR ''+''"
    using hd_showNat_sign [of "nat n"] by auto
  have v: "digitsVal (c # cs) = nat n" using digitsVal_showNat [of "nat n"] s by simp
  have lt: "nat n < 2 ^ (bits - 1)" using assms(2) False by (simp add: nat_less_iff)
  have d: "list_all isDigit (c # cs)" using showNat_digits [of "nat n"] s by simp
  show ?thesis
    using False s c v lt d by (simp add: showInt_def parseInt_def)
qed

lemma int_le_pow: "int a \<le> 2 ^ k \<longleftrightarrow> a \<le> 2 ^ k"
  by (metis of_nat_le_iff of_nat_numeral of_nat_power)

lemma int_less_pow: "int a < 2 ^ k \<longleftrightarrow> a < 2 ^ k"
  by (metis of_nat_less_iff of_nat_numeral of_nat_power)

lemma neg_pow_le: "- (2 ^ k) \<le> int a"
  by (rule order_trans [of _ 0]) simp_all

lemma neg_less_pow: "- int a < 2 ^ k"
  by (rule le_less_trans [of _ 0]) simp_all

lemma parseInt_range:
  "parseInt bits s = Some n \<Longrightarrow> - (2 ^ (bits - 1)) \<le> n \<and> n < 2 ^ (bits - 1)"
  by (auto simp: parseInt_def Let_def not_le not_less neg_pow_le neg_less_pow int_le_pow int_less_pow
      split: list.splits if_splits)

lemma showInt_inj: "showInt m = showInt n \<longleftrightarrow> m = n"
proof
  assume eq: "showInt m = showInt n"
  have ne: "CHR ''-'' # xs \<noteq> showNat k" for xs k
    using hd_showNat_sign [of k] by (metis list.sel(1))
  show "m = n"
    using eq by (auto simp: showInt_def showNat_inj ne ne [symmetric] split: if_splits)
qed simp

section \<open>time.ParseDuration\<close>

text \<open>
  \<open>leadingInt\<close> and \<open>leadingFraction\<close> as in the library: the digits of the fraction past
  the range of \<open>int64\<close> are consumed and dropped. The nanoseconds of a fraction are the exact
  rational rounded down.
\<close>

definition leadingInt :: "string \<Rightarrow> nat \<times> string" where
  "leadingInt s = (digitsVal (takeWhile isDigit s), dropWhile isDigit s)"

fun fractionDigits :: "nat \<Rightarrow> nat \<Rightarrow> string \<Rightarrow> nat \<times> nat" where
  "fractionDigits x scale [] = (x, scale)"
| "fractionDigits x scale (c # cs) =
     (if (2 ^ 63 - 1) div 10 < x then (x, scale)
      else let y = x * 10 + digitVal c in
           if 2 ^ 63 < y then (x, scale) else fractionDigits y (scale * 10) cs)"

definition unitNanos :: "string \<Rightarrow> nat option" where
  "unitNanos u =
     (if u = ''ns'' then Some 1
      else if u = ''us'' \<or> u = [char_of (194::nat), char_of (181::nat), CHR ''s'']
            \<or> u = [char_of (206::nat), char_of (188::nat), CHR ''s''] then Some 1000
      else if u = ''ms'' then Some 1000000
      else if u = ''s'' then Some 1000000000
      else if u = ''m'' then Some 60000000000
      else if u = ''h'' then Some 3600000000000
      else None)"

definition isUnitChar :: "char \<Rightarrow> bool" where
  "isUnitChar c \<longleftrightarrow> c \<noteq> CHR ''.'' \<and> \<not> isDigit c"

lemma parseDuration_shrinks:
  assumes "u = takeWhile isUnitChar s3" and "u \<noteq> []" and "length s3 \<le> length s"
  shows "length (dropWhile isUnitChar s3) < length s"
proof -
  have "length (takeWhile isUnitChar s3) + length (dropWhile isUnitChar s3) = length s3"
    by (metis length_append takeWhile_dropWhile_id)
  moreover have "0 < length (takeWhile isUnitChar s3)" using assms(1,2) by simp
  ultimately show ?thesis using assms(3) by linarith
qed

function parseDurationLoop :: "nat \<Rightarrow> string \<Rightarrow> nat option" where
  "parseDurationLoop d s =
     (if s = [] then Some d
      else if \<not> (hd s = CHR ''.'' \<or> isDigit (hd s)) then None
      else let (v, s1) = leadingInt s;
               pre = (s1 \<noteq> s);
               dot = (s1 \<noteq> [] \<and> hd s1 = CHR ''.'');
               s2 = (if dot then tl s1 else s1);
               fs = (if dot then takeWhile isDigit s2 else []);
               (f, scale) = fractionDigits 0 1 fs;
               s3 = (if dot then dropWhile isDigit s2 else s2);
               u = takeWhile isUnitChar s3;
               s4 = dropWhile isUnitChar s3
           in if 2 ^ 63 < v then None
              else if \<not> pre \<and> fs = [] then None
              else if u = [] then None
              else case unitNanos u of
                None \<Rightarrow> None
              | Some unit \<Rightarrow>
                  if 2 ^ 63 div unit < v then None
                  else let v' = v * unit + (if 0 < f then f * unit div scale else 0)
                       in if 2 ^ 63 < v' \<or> 2 ^ 63 < d + v' then None
                          else parseDurationLoop (d + v') s4)"
  by pat_completeness auto

termination
proof (relation "measure (\<lambda>(d, s). length s)", goal_cases)
  case 1
  show ?case by simp
next
  case (2 d s a v s1 pre dot s2 fs b f scale s3 u s4 unit v')
  have "length s1 \<le> length s"
    using 2(3,4) by (auto simp: leadingInt_def length_dropWhile_le)
  moreover have "length s2 \<le> length s1" using 2(7) by simp
  moreover have "length s3 \<le> length s2" using 2(11) by (simp add: length_dropWhile_le)
  ultimately have "length s3 \<le> length s" by simp
  with 2 show ?case
    using parseDuration_shrinks [of u s3 s] by simp
qed

declare parseDurationLoop.simps [simp del]

text \<open>\<open>None\<close> is the error result; \<open>Some d\<close> is \<open>d\<close> nanoseconds.\<close>

definition parseDuration :: "string \<Rightarrow> duration option" where
  "parseDuration s0 =
     (let neg = (s0 \<noteq> [] \<and> hd s0 = CHR ''-'');
          s = (if s0 \<noteq> [] \<and> (hd s0 = CHR ''-'' \<or> hd s0 = CHR ''+'') then tl s0 else s0)
      in if s = ''0'' then Some 0
         else if s = [] then None
         else case parseDurationLoop 0 s of
           None \<Rightarrow> None
         | Some d \<Rightarrow> if neg then Some (- int d)
                     else if 2 ^ 63 - 1 < d then None else Some (int d))"

section \<open>Errors\<close>

text \<open>
  The sentinel errors of the packages under \<open>src/\<close>, the API server's classified errors,
  and wrapping (\<open>fmt.Errorf("...: %w", err)\<close>).
\<close>

datatype apierr = NotFound | AlreadyExists | Conflict | ServerError string

datatype goerr =
    ErrApi apierr
  | ErrExhausted
  | ErrNodeNotFound
  | ErrPodNodeMismatch \<comment> \<open>\<open>podclient.ErrNodeMismatch\<close>\<close>
  | ErrNodeMismatch \<comment> \<open>\<open>workload.ErrNodeMismatch\<close>\<close>
  | ErrLeaseConflict
  | ErrServerClosed \<comment> \<open>\<open>http.ErrServerClosed\<close>\<close>
  | ErrNet string
  | Errorf string
  | Wrap string goerr

fun errorsIs :: "goerr \<Rightarrow> goerr \<Rightarrow> bool" where
  "errorsIs (Wrap c e) t = (Wrap c e = t \<or> errorsIs e t)"
| "errorsIs e t = (e = t)"

fun IsNotFound :: "goerr \<Rightarrow> bool" where
  "IsNotFound (ErrApi e) = (e = NotFound)"
| "IsNotFound (Wrap c e) = IsNotFound e"
| "IsNotFound _ = False"

fun IsAlreadyExists :: "goerr \<Rightarrow> bool" where
  "IsAlreadyExists (ErrApi e) = (e = AlreadyExists)"
| "IsAlreadyExists (Wrap c e) = IsAlreadyExists e"
| "IsAlreadyExists _ = False"

type_synonym ('w, 'a) go = "('w, goerr, 'a) prog"

abbreviation wrapErr :: "string \<Rightarrow> ('w, 'a) go \<Rightarrow> ('w, 'a) go" where
  "wrapErr ctx \<equiv> mapErr (Wrap ctx)"

section \<open>Messages\<close>

text \<open>
  Human-readable messages never steer the control flow; they are kept unrendered, as the
  format string and its arguments.
\<close>

datatype msg = Lit string | Sprintf string "fmtarg list"
and fmtarg = FStr string | FInt int | FDur duration | FErr goerr | FMsg msg

section \<open>sort.SliceStable\<close>

text \<open>
  For a strict weak order the result of a stable sort is unique; it is computed here by
  insertion, an element going in front of the later elements it ties with.
\<close>

fun insertStable :: "('a \<Rightarrow> 'a \<Rightarrow> bool) \<Rightarrow> 'a \<Rightarrow> 'a list \<Rightarrow> 'a list" where
  "insertStable lt x [] = [x]"
| "insertStable lt x (y # ys) = (if lt y x then y # insertStable lt x ys else x # y # ys)"

definition sliceStable :: "('a \<Rightarrow> 'a \<Rightarrow> bool) \<Rightarrow> 'a list \<Rightarrow> 'a list" where
  "sliceStable lt xs = foldr (insertStable lt) xs []"

lemma sliceStable_simps [simp]:
  "sliceStable lt [] = []"
  "sliceStable lt (x # xs) = insertStable lt x (sliceStable lt xs)"
  by (simp_all add: sliceStable_def)

lemma mset_insertStable [simp]: "mset (insertStable lt x xs) = add_mset x (mset xs)"
  by (induction xs) auto

lemma mset_sliceStable [simp]: "mset (sliceStable lt xs) = mset xs"
  by (induction xs) auto

lemma set_insertStable [simp]: "set (insertStable lt x xs) = insert x (set xs)"
  by (induction xs) auto

lemma set_sliceStable [simp]: "set (sliceStable lt xs) = set xs"
  by (induction xs) auto

lemma length_sliceStable [simp]: "length (sliceStable lt xs) = length xs"
  by (metis mset_sliceStable size_mset)

lemma distinct_sliceStable [simp]: "distinct (sliceStable lt xs) = distinct xs"
  by (metis mset_eq_imp_distinct_iff mset_sliceStable)

locale strict_weak_order =
  fixes lt :: "'a \<Rightarrow> 'a \<Rightarrow> bool"
  assumes asym: "lt x y \<Longrightarrow> \<not> lt y x"
    and neg_trans: "\<not> lt y x \<Longrightarrow> \<not> lt z y \<Longrightarrow> \<not> lt z x"
begin

lemma less_weak_trans: "lt y x \<Longrightarrow> \<not> lt z x \<Longrightarrow> \<not> lt z y"
  using asym neg_trans by blast

lemma insertStable_ordered:
  "sorted_wrt (\<lambda>a b. \<not> lt b a) xs \<Longrightarrow> sorted_wrt (\<lambda>a b. \<not> lt b a) (insertStable lt x xs)"
proof (induction xs)
  case (Cons y ys)
  show ?case
  proof (cases "lt y x")
    case True
    then have "\<not> lt x y" by (rule asym)
    with True Cons show ?thesis by simp
  next
    case False
    moreover have "\<not> lt z x" if "z \<in> set ys" for z
      using that False Cons.prems neg_trans [of y x z] by simp
    ultimately show ?thesis using Cons.prems by simp
  qed
qed simp

lemma sliceStable_ordered: "sorted_wrt (\<lambda>a b. \<not> lt b a) (sliceStable lt xs)"
  by (induction xs) (auto intro: insertStable_ordered)

text \<open>Elements that tie keep their order: filtering a tie class commutes with sorting.\<close>

lemma insertStable_tie:
  assumes "\<And>a b. P a \<Longrightarrow> P b \<Longrightarrow> \<not> lt a b"
  shows "filter P (insertStable lt x ys) = (if P x then x # filter P ys else filter P ys)"
proof (induction ys)
  case (Cons y ys)
  show ?case
    using assms [of y x] Cons by auto
qed simp

lemma sliceStable_stable:
  assumes "\<And>a b. P a \<Longrightarrow> P b \<Longrightarrow> \<not> lt a b"
  shows "filter P (sliceStable lt xs) = filter P xs"
  using assms by (induction xs) (auto simp: insertStable_tie)

end

end
