(* ===== verification/Names.thy ===== *)
theory Names
  imports GoStd
begin

text \<open>
  \<open>api/v1alpha1/names.go\<close>: the shared vocabulary (label and annotation keys, finalizer),
  the derived lease name that serves as the mutex of a (node, GPU) pair, and the parsing of
  the Deployment opt-in annotations. A Go \<open>map[string]string\<close> is a partial map; a nil map
  and an empty map read alike.
\<close>

section \<open>Vocabulary\<close>

type_synonym strmap = "string \<rightharpoonup> string"

definition Finalizer :: string where "Finalizer = ''poc.llm-d.ai/release-lease''"
definition StateLabelKey :: string where "StateLabelKey = ''gpu-lease.llm-d.ai/state''"

definition StateWarm :: string where "StateWarm = ''warm''"
definition StateActivating :: string where "StateActivating = ''activating''"
definition StateHot :: string where "StateHot = ''hot''"
definition StateReleasing :: string where "StateReleasing = ''releasing''"

lemmas state_defs = StateWarm_def StateActivating_def StateHot_def StateReleasing_def

definition AnnotationManaged :: string where
  "AnnotationManaged = ''gpu-lease.llm-d.ai/managed''"
definition AnnotationWarmReplicas :: string where
  "AnnotationWarmReplicas = ''gpu-lease.llm-d.ai/warm-replicas''"
definition AnnotationMinHotReplicas :: string where
  "AnnotationMinHotReplicas = ''gpu-lease.llm-d.ai/min-hot-replicas''"
definition AnnotationLocalQueue :: string where
  "AnnotationLocalQueue = ''gpu-lease.llm-d.ai/local-queue''"
definition AnnotationPodCapacityRPS :: string where
  "AnnotationPodCapacityRPS = ''gpu-lease.llm-d.ai/pod-capacity-rps''"
definition AnnotationActivationTimeout :: string where
  "AnnotationActivationTimeout = ''gpu-lease.llm-d.ai/activation-timeout''"
definition AnnotationAdmissionTimeout :: string where
  "AnnotationAdmissionTimeout = ''gpu-lease.llm-d.ai/admission-timeout''"

lemmas deployment_annotation_defs =
  AnnotationManaged_def AnnotationWarmReplicas_def AnnotationMinHotReplicas_def
  AnnotationLocalQueue_def AnnotationPodCapacityRPS_def AnnotationActivationTimeout_def
  AnnotationAdmissionTimeout_def

definition AnnotationLease :: string where
  "AnnotationLease = ''gpu-lease.llm-d.ai/lease''"
definition AnnotationGPUID :: string where
  "AnnotationGPUID = ''gpu-lease.llm-d.ai/gpu-id''"
definition AnnotationGPUModel :: string where
  "AnnotationGPUModel = ''gpu-lease.llm-d.ai/gpu-model''"
definition AnnotationPodDeletionCost :: string where
  "AnnotationPodDeletionCost = ''controller.kubernetes.io/pod-deletion-cost''"

lemmas pod_annotation_defs =
  AnnotationLease_def AnnotationGPUID_def AnnotationGPUModel_def AnnotationPodDeletionCost_def

definition PodDeletionCostHot :: string where "PodDeletionCostHot = ''100''"
definition PodDeletionCostWarm :: string where "PodDeletionCostWarm = ''-100''"

definition NodeLabelGPUCount :: string where "NodeLabelGPUCount = ''poc.llm-d.ai/gpu-count''"
definition NodeLabelGPUModel :: string where "NodeLabelGPUModel = ''poc.llm-d.ai/gpu-model''"
definition KueueResourceName :: string where "KueueResourceName = ''poc.llm-d.ai/gpu''"

definition DefaultWarmReplicas :: int32 where "DefaultWarmReplicas = 2"
definition DefaultMinHotReplicas :: int32 where "DefaultMinHotReplicas = 1"
definition DefaultPodCapacityRPS :: int32 where "DefaultPodCapacityRPS = 10"
definition DefaultActivationTimeout :: duration where "DefaultActivationTimeout = 120 * Second"
definition DefaultAdmissionTimeout :: duration where "DefaultAdmissionTimeout = 60 * Second"

lemmas settings_default_defs =
  DefaultWarmReplicas_def DefaultMinHotReplicas_def DefaultPodCapacityRPS_def
  DefaultActivationTimeout_def DefaultAdmissionTimeout_def Second_def

section \<open>Derived names\<close>

definition LeaseName :: "string \<Rightarrow> int32 \<Rightarrow> string" where
  "LeaseName node gpuID = node @ ''-gpu-'' @ showInt gpuID"

definition DefaultLocalQueueName :: "string \<Rightarrow> string" where
  "DefaultLocalQueueName deployment = deployment @ ''-gpu''"

section \<open>Deployment settings\<close>

record DeploymentSettings =
  WarmReplicas :: int32
  MinHotReplicas :: int32
  LocalQueueName :: string
  PodCapacityRPS :: int32
  ActivationTimeout :: duration
  AdmissionTimeout :: duration

text \<open>
  \<open>intSetting\<close> is the block the code repeats for every integer annotation: present, parses as
  a 32-bit decimal, and passes the lower-bound check, else the default; \<open>durSetting\<close> the one
  for timeouts.
\<close>

definition intSetting :: "strmap \<Rightarrow> string \<Rightarrow> int \<Rightarrow> int32 \<Rightarrow> int32" where
  "intSetting annotations key lo def =
     (case annotations key of
        None \<Rightarrow> def
      | Some v \<Rightarrow> (case parseInt 32 v of
            None \<Rightarrow> def
          | Some n \<Rightarrow> if lo \<le> n then n else def))"

definition durSetting :: "strmap \<Rightarrow> string \<Rightarrow> duration \<Rightarrow> duration" where
  "durSetting annotations key def =
     (case annotations key of
        None \<Rightarrow> def
      | Some v \<Rightarrow> (case parseDuration v of
            None \<Rightarrow> def
          | Some d \<Rightarrow> if 0 < d then d else def))"

definition ParseDeploymentSettings :: "strmap \<Rightarrow> string \<Rightarrow> DeploymentSettings" where
  "ParseDeploymentSettings annotations deploymentName =
     \<lparr> WarmReplicas = intSetting annotations AnnotationWarmReplicas 0 DefaultWarmReplicas,
       MinHotReplicas = intSetting annotations AnnotationMinHotReplicas 0 DefaultMinHotReplicas,
       LocalQueueName =
         (case annotations AnnotationLocalQueue of
            None \<Rightarrow> DefaultLocalQueueName deploymentName
          | Some v \<Rightarrow> if v \<noteq> '''' then v else DefaultLocalQueueName deploymentName),
       PodCapacityRPS = intSetting annotations AnnotationPodCapacityRPS 1 DefaultPodCapacityRPS,
       ActivationTimeout =
         durSetting annotations AnnotationActivationTimeout DefaultActivationTimeout,
       AdmissionTimeout =
         durSetting annotations AnnotationAdmissionTimeout DefaultAdmissionTimeout \<rparr>"

definition IsManaged :: "strmap \<Rightarrow> bool" where
  "IsManaged annotations \<longleftrightarrow> annotations AnnotationManaged = Some ''true''"

section \<open>The lease name is a key of the (node, GPU) pair\<close>

lemma showInt_no_u: "c \<in> set (showInt n) \<Longrightarrow> c \<noteq> CHR ''u''"
  by (auto simp: showInt_def split: if_splits dest: showNat_no_sign)

text \<open>
  Reading the name backwards up to the first \<open>u\<close> recovers the printed index, because a
  decimal number holds no \<open>u\<close>.
\<close>

lemma rev_LeaseName_split:
  "takeWhile (\<lambda>c. c \<noteq> CHR ''u'') (rev (LeaseName node i)) = rev (showInt i) @ ''-''"
  "dropWhile (\<lambda>c. c \<noteq> CHR ''u'') (rev (LeaseName node i)) = ''upg-'' @ rev node"
proof -
  have r: "rev (LeaseName node i) = (rev (showInt i) @ ''-'') @ ''upg-'' @ rev node"
    by (simp add: LeaseName_def)
  have nu: "\<And>c. c \<in> set (rev (showInt i) @ ''-'') \<Longrightarrow> c \<noteq> CHR ''u''"
    by (auto dest: showInt_no_u)
  show "takeWhile (\<lambda>c. c \<noteq> CHR ''u'') (rev (LeaseName node i)) = rev (showInt i) @ ''-''"
    unfolding r using nu by (subst takeWhile_append2) auto
  show "dropWhile (\<lambda>c. c \<noteq> CHR ''u'') (rev (LeaseName node i)) = ''upg-'' @ rev node"
    unfolding r using nu by (subst dropWhile_append2) auto
qed

lemma LeaseName_eq_iff: "LeaseName m i = LeaseName n j \<longleftrightarrow> m = n \<and> i = j"
proof
  assume eq: "LeaseName m i = LeaseName n j"
  have "rev (showInt i) @ ''-'' = rev (showInt j) @ ''-''"
    using rev_LeaseName_split(1) [of m i] rev_LeaseName_split(1) [of n j] eq by simp
  then have i: "i = j" by (simp add: showInt_inj)
  have "''upg-'' @ rev m = ''upg-'' @ rev n"
    using rev_LeaseName_split(2) [of m i] rev_LeaseName_split(2) [of n j] eq by simp
  with i show "m = n \<and> i = j" by simp
qed simp

section \<open>Settings are always within bounds\<close>

definition settings_ok :: "DeploymentSettings \<Rightarrow> bool" where
  "settings_ok s \<longleftrightarrow>
     0 \<le> WarmReplicas s \<and> in_int32 (WarmReplicas s) \<and>
     0 \<le> MinHotReplicas s \<and> in_int32 (MinHotReplicas s) \<and>
     1 \<le> PodCapacityRPS s \<and> in_int32 (PodCapacityRPS s) \<and>
     0 < ActivationTimeout s \<and> in_int64 (ActivationTimeout s) \<and>
     0 < AdmissionTimeout s \<and> in_int64 (AdmissionTimeout s) \<and>
     LocalQueueName s \<noteq> ''''"

lemma intSetting_range:
  "lo \<le> d \<Longrightarrow> in_int32 d \<Longrightarrow> lo \<le> intSetting a k lo d \<and> in_int32 (intSetting a k lo d)"
  by (auto simp: intSetting_def in_int32_def dest: parseInt_range split: option.splits)

lemma parseDuration_upper: "parseDuration s = Some d \<Longrightarrow> d < 2 ^ 63"
  by (auto simp: parseDuration_def Let_def split: if_splits option.splits)

lemma durSetting_range:
  "0 < d \<Longrightarrow> in_int64 d \<Longrightarrow> 0 < durSetting a k d \<and> in_int64 (durSetting a k d)"
  by (auto simp: durSetting_def in_int64_def dest: parseDuration_upper split: option.splits)

lemma intSetting_print:
  "a k = Some (showInt n) \<Longrightarrow> in_int32 n \<Longrightarrow> lo \<le> n \<Longrightarrow> intSetting a k lo d = n"
  by (simp add: intSetting_def in_int32_def parseInt_showInt)

end
