(* ===== verification/Types.thy ===== *)
theory Types
  imports Names
begin

text \<open>
  The objects the controller reads and writes: \<open>api/v1alpha1/gpulease_types.go\<close> (GPULease and
  its vocabulary), \<open>internal/kueue/v1beta2\<close> (Workload, ResourceFlavor), and the fields of the
  Kubernetes objects (ObjectMeta, Condition, Pod, Node, Deployment) that the sources use.
  Record fields carry a prefix naming their Go type.
\<close>

section \<open>Kubernetes metadata\<close>

record ObjectMeta =
  om_Name :: string
  om_Namespace :: string
  om_UID :: string
  om_ResourceVersion :: nat
  om_Generation :: int
  om_CreationTimestamp :: gotime
  om_DeletionTimestamp :: "gotime option"
  om_Finalizers :: "string list"
  om_Labels :: strmap
  om_Annotations :: strmap

text \<open>An object literal that sets only name and namespace, all other fields zero.\<close>

definition newMeta :: "string \<Rightarrow> string \<Rightarrow> ObjectMeta" where
  "newMeta ns n =
     \<lparr> om_Name = n, om_Namespace = ns, om_UID = '''', om_ResourceVersion = 0, om_Generation = 0,
       om_CreationTimestamp = 0, om_DeletionTimestamp = None, om_Finalizers = [],
       om_Labels = Map.empty, om_Annotations = Map.empty \<rparr>"

definition ConditionTrue :: string where "ConditionTrue = ''True''"
definition ConditionFalse :: string where "ConditionFalse = ''False''"

record Condition =
  cond_Type :: string
  cond_Status :: string
  cond_ObservedGeneration :: int
  cond_LastTransitionTime :: gotime
  cond_Reason :: string
  cond_Message :: msg

section \<open>GPULease\<close>

text \<open>\<open>GPULeasePhase\<close> is a string type; \<open>PhaseUnset\<close> is its zero value \<open>""\<close>.\<close>

datatype GPULeasePhase =
    PhaseUnset
  | PhasePending
  | PhaseAdmitted
  | PhaseActivating
  | PhaseBound
  | PhaseFailed
  | PhaseReleasing
  | PhaseUnknown string

definition ConditionQuotaReserved :: string where "ConditionQuotaReserved = ''QuotaReserved''"
definition ConditionPodActivated :: string where "ConditionPodActivated = ''PodActivated''"
definition ConditionReady :: string where "ConditionReady = ''Ready''"

lemmas condition_type_defs =
  ConditionQuotaReserved_def ConditionPodActivated_def ConditionReady_def

definition ReasonQuotaExhaustedOnNode :: string where
  "ReasonQuotaExhaustedOnNode = ''QuotaExhaustedOnNode''"
definition ReasonNoFreeGPUOnAnyPodNode :: string where
  "ReasonNoFreeGPUOnAnyPodNode = ''NoFreeGPUOnAnyPodNode''"
definition ReasonPodUnreachable :: string where "ReasonPodUnreachable = ''PodUnreachable''"
definition ReasonActivationTimeout :: string where
  "ReasonActivationTimeout = ''ActivationTimeout''"
definition ReasonPodGone :: string where "ReasonPodGone = ''PodGone''"
definition ReasonNodeMismatch :: string where "ReasonNodeMismatch = ''NodeMismatch''"
definition ReasonQueueMisconfigured :: string where
  "ReasonQueueMisconfigured = ''QueueMisconfigured''"

lemmas reason_defs =
  ReasonQuotaExhaustedOnNode_def ReasonNoFreeGPUOnAnyPodNode_def ReasonPodUnreachable_def
  ReasonActivationTimeout_def ReasonPodGone_def ReasonNodeMismatch_def ReasonQueueMisconfigured_def

definition DefaultFailedLeaseRetention :: duration where
  "DefaultFailedLeaseRetention = 60 * Second"

record ObjectRef =
  ref_Namespace :: string
  ref_Name :: string
  ref_UID :: string

record GPULeaseSpec =
  ls_NodeName :: string
  ls_GPUID :: int32
  ls_GPUModel :: string
  ls_ClaimRef :: ObjectRef
  ls_DeploymentRef :: ObjectRef
  ls_LocalQueueName :: string

record GPULeaseStatus =
  lt_Phase :: GPULeasePhase
  lt_WorkloadName :: string
  lt_Message :: msg
  lt_AdmittedAt :: "gotime option"
  lt_BoundAt :: "gotime option"
  lt_Conditions :: "Condition list"

definition emptyStatus :: GPULeaseStatus where
  "emptyStatus = \<lparr> lt_Phase = PhaseUnset, lt_WorkloadName = '''', lt_Message = Lit '''',
     lt_AdmittedAt = None, lt_BoundAt = None, lt_Conditions = [] \<rparr>"

record GPULease =
  l_Meta :: ObjectMeta
  l_Spec :: GPULeaseSpec
  l_Status :: GPULeaseStatus

abbreviation leaseName :: "GPULease \<Rightarrow> string" where "leaseName l \<equiv> om_Name (l_Meta l)"
abbreviation leasePhase :: "GPULease \<Rightarrow> GPULeasePhase" where "leasePhase l \<equiv> lt_Phase (l_Status l)"
abbreviation leaseVersion :: "GPULease \<Rightarrow> nat" where
  "leaseVersion l \<equiv> om_ResourceVersion (l_Meta l)"
abbreviation leaseDeleting :: "GPULease \<Rightarrow> bool" where
  "leaseDeleting l \<equiv> om_DeletionTimestamp (l_Meta l) \<noteq> None"
abbreviation leaseFinalizers :: "GPULease \<Rightarrow> string list" where
  "leaseFinalizers l \<equiv> om_Finalizers (l_Meta l)"
abbreviation leaseNode :: "GPULease \<Rightarrow> string" where "leaseNode l \<equiv> ls_NodeName (l_Spec l)"
abbreviation leaseGPU :: "GPULease \<Rightarrow> int32" where "leaseGPU l \<equiv> ls_GPUID (l_Spec l)"
abbreviation claimOf :: "GPULease \<Rightarrow> ObjectRef" where "claimOf l \<equiv> ls_ClaimRef (l_Spec l)"
abbreviation deploymentOf :: "GPULease \<Rightarrow> ObjectRef" where
  "deploymentOf l \<equiv> ls_DeploymentRef (l_Spec l)"

section \<open>Kueue's Workload and ResourceFlavor\<close>

definition WlConditionAdmitted :: string where "WlConditionAdmitted = ''Admitted''"
definition WlConditionQuotaReserved :: string where "WlConditionQuotaReserved = ''QuotaReserved''"
definition PodSetName :: string where "PodSetName = ''main''"

lemmas workload_condition_defs = WlConditionAdmitted_def WlConditionQuotaReserved_def

record Container =
  ctr_Name :: string
  ctr_Image :: string
  ctr_Requests :: "string \<rightharpoonup> int"

record PodTemplateSpec =
  pt_RestartPolicy :: string
  pt_NodeSelector :: strmap
  pt_Containers :: "Container list"

record PodSet =
  ps_Name :: string
  ps_Count :: int32
  ps_Template :: PodTemplateSpec

record WorkloadSpec =
  ws_QueueName :: string
  ws_PodSets :: "PodSet list"
  ws_PriorityClassName :: string

record PodSetAssignment =
  pa_Name :: string
  pa_Flavors :: strmap

record Admission =
  adm_ClusterQueue :: string
  adm_PodSetAssignments :: "PodSetAssignment list"

record WorkloadStatus =
  wt_Conditions :: "Condition list"
  wt_Admission :: "Admission option"

record Workload =
  wl_Meta :: ObjectMeta
  wl_Spec :: WorkloadSpec
  wl_Status :: WorkloadStatus

record ResourceFlavor =
  rf_Name :: string
  rf_NodeLabels :: strmap

section \<open>Pods, nodes, deployments\<close>

definition PodReady :: string where "PodReady = ''Ready''"
definition PodRunning :: string where "PodRunning = ''Running''"
definition LabelHostname :: string where "LabelHostname = ''kubernetes.io/hostname''"

record PodCondition =
  pc_Type :: string
  pc_Status :: string

record Pod =
  p_Meta :: ObjectMeta
  p_NodeName :: string
  p_Phase :: string
  p_Conditions :: "PodCondition list"
  p_PodIP :: string

abbreviation podName :: "Pod \<Rightarrow> string" where "podName p \<equiv> om_Name (p_Meta p)"
abbreviation podNamespace :: "Pod \<Rightarrow> string" where "podNamespace p \<equiv> om_Namespace (p_Meta p)"
abbreviation podLabels :: "Pod \<Rightarrow> strmap" where "podLabels p \<equiv> om_Labels (p_Meta p)"
abbreviation podAnnotations :: "Pod \<Rightarrow> strmap" where "podAnnotations p \<equiv> om_Annotations (p_Meta p)"

record Node =
  n_Name :: string
  n_Labels :: strmap

text \<open>A label selector is opaque to the sources; they only hand it to the library.\<close>

record LabelSelector =
  lsel_MatchLabels :: "(string \<times> string) list"
  lsel_MatchExpressions :: "string list"

record Deployment =
  d_Meta :: ObjectMeta
  d_Selector :: "LabelSelector option"

abbreviation depName :: "Deployment \<Rightarrow> string" where "depName d \<equiv> om_Name (d_Meta d)"
abbreviation depNamespace :: "Deployment \<Rightarrow> string" where "depNamespace d \<equiv> om_Namespace (d_Meta d)"
abbreviation depAnnotations :: "Deployment \<Rightarrow> strmap" where
  "depAnnotations d \<equiv> om_Annotations (d_Meta d)"

end
