(* ===== verification/Env.thy ===== *)
theory Env
  imports Types
begin

text \<open>
  The interfaces through which the controller reaches code that is not part of the
  repository: the controller-runtime client, the event recorder, the wall clock, Prometheus,
  and the helper functions of apimachinery and controller-runtime. Each is a record of
  functions over an arbitrary world \<open>'w\<close>; the operations of the model take such records as
  arguments and nothing is assumed of them here. Reads are functions of the world (a cached
  client may answer with stale data), writes are programs.
\<close>

section \<open>controller-runtime's client\<close>

record Selector =
  sel_Matches :: "strmap \<Rightarrow> bool"
  sel_Empty :: bool

record 'w Client =
  getLease :: "string \<Rightarrow> 'w \<Rightarrow> goerr + GPULease"
  listLeases :: "'w \<Rightarrow> goerr + GPULease list"
  createLease :: "GPULease \<Rightarrow> ('w, GPULease) go"
  updateLease :: "GPULease \<Rightarrow> ('w, GPULease) go"
  updateLeaseStatus :: "GPULease \<Rightarrow> ('w, GPULease) go"
  deleteLease :: "GPULease \<Rightarrow> ('w, unit) go"
  getWorkload :: "string \<Rightarrow> string \<Rightarrow> 'w \<Rightarrow> goerr + Workload"
  createWorkloadObj :: "Workload \<Rightarrow> ('w, Workload) go"
  deleteWorkloadObj :: "string \<Rightarrow> string \<Rightarrow> ('w, unit) go"
  getPod :: "string \<Rightarrow> string \<Rightarrow> 'w \<Rightarrow> goerr + Pod"
  listPods :: "string \<Rightarrow> Selector \<Rightarrow> 'w \<Rightarrow> goerr + Pod list"
  patchPod :: "Pod \<Rightarrow> Pod \<Rightarrow> ('w, Pod) go" \<comment> \<open>original, modified: \<open>Patch(obj, MergeFrom(orig))\<close>\<close>
  getDeployment :: "string \<Rightarrow> string \<Rightarrow> 'w \<Rightarrow> goerr + Deployment"
  listDeployments :: "string \<Rightarrow> 'w \<Rightarrow> goerr + Deployment list"
  getNode :: "string \<Rightarrow> 'w \<Rightarrow> goerr + Node"
  listNodes :: "'w \<Rightarrow> goerr + Node list"
  listFlavors :: "'w \<Rightarrow> goerr + ResourceFlavor list"

section \<open>Events and metrics\<close>

definition EventTypeNormal :: string where "EventTypeNormal = ''Normal''"
definition EventTypeWarning :: string where "EventTypeWarning = ''Warning''"

datatype EventObject = OnLease GPULease | OnDeployment Deployment

text \<open>\<open>Recorder.Eventf(object, eventtype, reason, message)\<close>.\<close>

type_synonym 'w Recorder = "EventObject \<Rightarrow> string \<Rightarrow> string \<Rightarrow> msg \<Rightarrow> 'w \<Rightarrow> 'w"

text \<open>The operations on the metric vectors of \<open>internal/controller/metrics.go\<close>.\<close>

datatype MetricOp =
    PoolHotPods string string int
  | PoolWarmPods string string int
  | PoolWarmDesired string string int
  | LeasesActive string int
  | NodeGPUsFree string int
  | LeaseAcquireFailuresTotal string string
  | PromotionsTotal
  | DemotionsTotal

section \<open>Library helpers\<close>

record K8sLib =
  FindStatusCondition :: "Condition list \<Rightarrow> string \<Rightarrow> Condition option"
  SetStatusCondition :: "gotime \<Rightarrow> Condition list \<Rightarrow> Condition \<Rightarrow> Condition list"
  ContainsFinalizer :: "GPULease \<Rightarrow> string \<Rightarrow> bool"
  AddFinalizer :: "GPULease \<Rightarrow> string \<Rightarrow> GPULease"
  RemoveFinalizer :: "GPULease \<Rightarrow> string \<Rightarrow> GPULease"
  SetControllerReference :: "GPULease \<Rightarrow> Workload \<Rightarrow> goerr + Workload"
  SemanticDeepEqual :: "WorkloadSpec \<Rightarrow> WorkloadSpec \<Rightarrow> bool"
  LabelSelectorAsSelector :: "LabelSelector \<Rightarrow> goerr + Selector"

record 'w Runtime =
  rt_Lib :: K8sLib
  rt_Now :: "'w \<Rightarrow> gotime" \<comment> \<open>\<open>time.Now\<close>\<close>
  rt_Metric :: "MetricOp \<Rightarrow> 'w \<Rightarrow> 'w"

section \<open>Reconcile results\<close>

record Result =
  Requeue :: bool
  RequeueAfter :: duration

definition resultDone :: Result where "resultDone = \<lparr> Requeue = False, RequeueAfter = 0 \<rparr>"
definition resultRequeue :: Result where "resultRequeue = \<lparr> Requeue = True, RequeueAfter = 0 \<rparr>"
definition resultAfter :: "duration \<Rightarrow> Result" where
  "resultAfter d = \<lparr> Requeue = False, RequeueAfter = d \<rparr>"

end
