(* ===== verification/Inventory.thy ===== *)
theory Inventory
  imports Env "HOL-Library.AList"
begin

text \<open>
  \<open>internal/controller/inventory/inventory.go\<close>: GPU capacity, used and free indices of a node,
  derived from node labels and the GPULeases that exist. The Go interface \<open>Inventory\<close> is a
  record of its methods; its documented contract is the locale \<open>gpu_inventory\<close>, which the
  client-backed implementation interprets.
\<close>

section \<open>Operations\<close>

record 'w Inventory =
  inv_NodeCapacity :: "string \<Rightarrow> 'w \<Rightarrow> goerr + (int32 \<times> string)"
  inv_FreeGPUIDs :: "string \<Rightarrow> 'w \<Rightarrow> goerr + int32 list"
  inv_AllocateID :: "string \<Rightarrow> 'w \<Rightarrow> goerr + int32"
  inv_NodeFreeCounts :: "'w \<Rightarrow> goerr + (string \<times> int32) list"

text \<open>Reading a Go \<open>map[string]int32\<close>: an absent key reads as 0.\<close>

definition mapGet :: "(string \<times> int) list \<Rightarrow> string \<Rightarrow> int" where
  "mapGet m k = (case map_of m k of None \<Rightarrow> 0 | Some v \<Rightarrow> v)"

text \<open>\<open>for id := range count\<close>.\<close>

definition idRange :: "int32 \<Rightarrow> int32 list" where
  "idRange cnt = map int [0..<nat cnt]"

definition NodeCapacity :: "'w Client \<Rightarrow> string \<Rightarrow> 'w \<Rightarrow> goerr + (int32 \<times> string)" where
  "NodeCapacity c node w =
     (case getNode c node w of
        Inl err \<Rightarrow> Inl (Wrap ''inventory: node not found'' ErrNodeNotFound)
      | Inr n \<Rightarrow>
        (case n_Labels n NodeLabelGPUCount of
           None \<Rightarrow> Inl ErrNodeNotFound
         | Some countStr \<Rightarrow>
           (case parseInt 32 countStr of
              None \<Rightarrow> Inl (Errorf ''inventory: malformed gpu-count label'')
            | Some cnt \<Rightarrow>
                if cnt < 0 then Inl (Errorf ''inventory: malformed gpu-count label'')
                else Inr (cnt, case n_Labels n NodeLabelGPUModel of None \<Rightarrow> '''' | Some m \<Rightarrow> m))))"

definition usedGPUIDs :: "'w Client \<Rightarrow> string \<Rightarrow> 'w \<Rightarrow> goerr + (int32 \<Rightarrow> bool)" where
  "usedGPUIDs c node w =
     (case listLeases c w of
        Inl e \<Rightarrow> Inl (Wrap ''inventory: list GPULeases'' e)
      | Inr items \<Rightarrow>
          Inr (foldl (\<lambda>used l. if leaseNode l = node then used(leaseGPU l := True) else used)
                 (\<lambda>_. False) items))"

definition FreeGPUIDs :: "'w Client \<Rightarrow> string \<Rightarrow> 'w \<Rightarrow> goerr + int32 list" where
  "FreeGPUIDs c node w =
     (case NodeCapacity c node w of
        Inl e \<Rightarrow> Inl e
      | Inr (cnt, _) \<Rightarrow>
        (case usedGPUIDs c node w of
           Inl e \<Rightarrow> Inl e
         | Inr used \<Rightarrow> Inr (filter (\<lambda>i. \<not> used i) (idRange cnt))))"

definition AllocateID :: "'w Client \<Rightarrow> string \<Rightarrow> 'w \<Rightarrow> goerr + int32" where
  "AllocateID c node w =
     (case FreeGPUIDs c node w of
        Inl e \<Rightarrow> Inl e
      | Inr [] \<Rightarrow> Inl ErrExhausted
      | Inr (i # _) \<Rightarrow> Inr i)"

definition usedByNode :: "GPULease list \<Rightarrow> string \<Rightarrow> int32 \<Rightarrow> bool" where
  "usedByNode items =
     foldl (\<lambda>m l. m(leaseNode l := (m (leaseNode l))(leaseGPU l := True))) (\<lambda>_ _. False) items"

definition nodeFreeCount :: "(string \<Rightarrow> int32 \<Rightarrow> bool) \<Rightarrow> (string \<times> int32) list \<Rightarrow> Node \<Rightarrow> (string \<times> int32) list"
  where
  "nodeFreeCount used out n =
     (case n_Labels n NodeLabelGPUCount of
        None \<Rightarrow> out
      | Some countStr \<Rightarrow>
        (case parseInt 32 countStr of
           None \<Rightarrow> out
         | Some cnt \<Rightarrow>
             if cnt < 0 then out
             else let free = foldl (\<lambda>free i. if \<not> used (n_Name n) i then free + 1 else free) 0
                               (idRange cnt)
                  in AList.update (n_Name n) free out))"

definition NodeFreeCounts :: "'w Client \<Rightarrow> 'w \<Rightarrow> goerr + (string \<times> int32) list" where
  "NodeFreeCounts c w =
     (case listNodes c w of
        Inl e \<Rightarrow> Inl (Wrap ''inventory: list nodes'' e)
      | Inr nodes \<Rightarrow>
        (case listLeases c w of
           Inl e \<Rightarrow> Inl (Wrap ''inventory: list GPULeases'' e)
         | Inr leases \<Rightarrow> Inr (foldl (nodeFreeCount (usedByNode leases)) [] nodes)))"

definition New :: "'w Client \<Rightarrow> 'w Inventory" where
  "New c = \<lparr> inv_NodeCapacity = NodeCapacity c, inv_FreeGPUIDs = FreeGPUIDs c,
             inv_AllocateID = AllocateID c, inv_NodeFreeCounts = NodeFreeCounts c \<rparr>"

lemma New_sel [simp]:
  "inv_NodeCapacity (New c) = NodeCapacity c" "inv_FreeGPUIDs (New c) = FreeGPUIDs c"
  "inv_AllocateID (New c) = AllocateID c" "inv_NodeFreeCounts (New c) = NodeFreeCounts c"
  by (simp_all add: New_def)

section \<open>The contract of the interface\<close>

text \<open>
  \<open>held w node\<close> is the set of indices of the node that some GPULease holds. The laws are the
  doc comments of the Go interface.
\<close>

locale gpu_inventory =
  fixes I :: "'w Inventory" and held :: "'w \<Rightarrow> string \<Rightarrow> int set"
  assumes capacity_nonneg: "inv_NodeCapacity I n w = Inr (k, m) \<Longrightarrow> 0 \<le> k"
    and free_ascending: "inv_FreeGPUIDs I n w = Inr ids \<Longrightarrow> sorted_wrt (<) ids"
    and free_set: "inv_FreeGPUIDs I n w = Inr ids \<Longrightarrow>
      \<exists>k m. inv_NodeCapacity I n w = Inr (k, m) \<and> set ids = {0..<k} - held w n"
    and allocate: "inv_AllocateID I n w =
      (case inv_FreeGPUIDs I n w of Inl e \<Rightarrow> Inl e | Inr [] \<Rightarrow> Inl ErrExhausted | Inr (i # _) \<Rightarrow> Inr i)"
begin

lemma allocate_fresh:
  assumes "inv_AllocateID I n w = Inr i"
  shows "i \<notin> held w n" and "0 \<le> i"
    and "\<And>j. 0 \<le> j \<Longrightarrow> j < i \<Longrightarrow> j \<in> held w n"
proof -
  obtain ids where ids: "inv_FreeGPUIDs I n w = Inr (i # ids)"
    using assms by (auto simp: allocate split: sum.splits list.splits)
  obtain k where k: "set (i # ids) = {0..<k} - held w n"
    using free_set [OF ids] by blast
  then show "i \<notin> held w n" and "0 \<le> i" by auto
  fix j assume j: "0 \<le> j" "j < i"
  have "j \<notin> set (i # ids)"
    using free_ascending [OF ids] j(2) by auto
  moreover have "i < k" using k by (metis DiffD1 atLeastLessThan_iff list.set_intros(1))
  ultimately show "j \<in> held w n" using k j by auto
qed

lemma allocate_exhausted:
  assumes "inv_FreeGPUIDs I n w = Inr ids"
  shows "inv_AllocateID I n w = Inl ErrExhausted \<longleftrightarrow>
    (\<forall>k m. inv_NodeCapacity I n w = Inr (k, m) \<longrightarrow> {0..<k} \<subseteq> held w n)"
  using assms free_set [OF assms] by (cases ids) (auto simp: allocate)

lemma free_length_bound:
  assumes "inv_FreeGPUIDs I n w = Inr ids" and "inv_NodeCapacity I n w = Inr (k, m)"
  shows "int (length ids) \<le> k"
proof -
  have "distinct ids" using free_ascending [OF assms(1)]
    by (simp add: strict_sorted_iff)
  then have "length ids = card (set ids)" by (simp add: distinct_card)
  also have "\<dots> \<le> card {0..<k}"
    using free_set [OF assms(1)] assms(2) by (intro card_mono) auto
  finally show ?thesis using capacity_nonneg [OF assms(2)] by simp
qed

end

section \<open>The client-backed inventory meets it\<close>

definition heldIDs :: "'w Client \<Rightarrow> 'w \<Rightarrow> string \<Rightarrow> int set" where
  "heldIDs c w node =
     (case listLeases c w of Inl _ \<Rightarrow> {} | Inr ls \<Rightarrow> leaseGPU ` {l \<in> set ls. leaseNode l = node})"

lemma foldl_used:
  "foldl (\<lambda>used l. if leaseNode l = node then used(leaseGPU l := True) else used) u ls i \<longleftrightarrow>
   u i \<or> (\<exists>l \<in> set ls. leaseNode l = node \<and> leaseGPU l = i)"
  by (induction ls arbitrary: u) auto

lemma usedByNode_iff:
  "usedByNode ls n i \<longleftrightarrow> (\<exists>l \<in> set ls. leaseNode l = n \<and> leaseGPU l = i)"
proof -
  have "foldl (\<lambda>m l. m(leaseNode l := (m (leaseNode l))(leaseGPU l := True))) u ls n i \<longleftrightarrow>
      u n i \<or> (\<exists>l \<in> set ls. leaseNode l = n \<and> leaseGPU l = i)" for u
    by (induction ls arbitrary: u) auto
  then show ?thesis by (simp add: usedByNode_def)
qed

lemma idRange_sorted: "sorted_wrt (<) (idRange k)"
  by (simp add: idRange_def sorted_wrt_map sorted_wrt_upt)

lemma set_idRange [simp]: "set (idRange k) = {0..<k}"
proof -
  have "x \<in> int ` {0..<nat k}" if "0 \<le> x" "x < k" for x
    using that by (intro image_eqI [of _ _ "nat x"]) auto
  then show ?thesis by (auto simp: idRange_def)
qed

lemma length_idRange [simp]: "length (idRange k) = nat k"
  by (simp add: idRange_def)

lemma FreeGPUIDs_Inr:
  "FreeGPUIDs c n w = Inr ids \<longleftrightarrow>
   (\<exists>k m ls. NodeCapacity c n w = Inr (k, m) \<and> listLeases c w = Inr ls \<and>
      ids = filter (\<lambda>i. i \<notin> heldIDs c w n) (idRange k))"
  by (auto simp: FreeGPUIDs_def usedGPUIDs_def foldl_used heldIDs_def image_iff
      split: sum.splits intro!: filter_cong)

interpretation ci: gpu_inventory "New c" "heldIDs c" for c
proof
  fix n w k m
  assume "inv_NodeCapacity (New c) n w = Inr (k, m)"
  then show "0 \<le> k"
    by (auto simp: NodeCapacity_def split: sum.splits option.splits if_splits)
next
  fix n w ids
  assume "inv_FreeGPUIDs (New c) n w = Inr ids"
  then show "sorted_wrt (<) ids"
    by (auto simp: FreeGPUIDs_Inr intro: sorted_wrt_filter idRange_sorted)
next
  fix n w ids
  assume "inv_FreeGPUIDs (New c) n w = Inr ids"
  then show "\<exists>k m. inv_NodeCapacity (New c) n w = Inr (k, m) \<and> set ids = {0..<k} - heldIDs c w n"
    by (auto simp: FreeGPUIDs_Inr)
next
  show "inv_AllocateID (New c) n w =
      (case inv_FreeGPUIDs (New c) n w of
         Inl e \<Rightarrow> Inl e | Inr [] \<Rightarrow> Inl ErrExhausted | Inr (i # _) \<Rightarrow> Inr i)" for n w
    by (simp add: AllocateID_def split: sum.splits list.splits)
qed

section \<open>The per-node counts agree with the free indices\<close>

lemma count_free:
  "foldl (\<lambda>free i. if \<not> u i then free + 1 else free) (a :: int) xs =
   a + int (length (filter (\<lambda>i. \<not> u i) xs))"
  by (induction xs arbitrary: a) auto

lemma nodeFreeCount_own:
  assumes "n_Labels nd NodeLabelGPUCount = Some s" and "parseInt 32 s = Some k" and "0 \<le> k"
  shows "map_of (nodeFreeCount u [] nd) (n_Name nd) =
    Some (int (length (filter (\<lambda>i. \<not> u (n_Name nd) i) (idRange k))))"
proof -
  have "nodeFreeCount u [] nd =
      [(n_Name nd, foldl (\<lambda>free i. if \<not> u (n_Name nd) i then free + 1 else free) 0 (idRange k))]"
    unfolding nodeFreeCount_def assms(1,2) option.case Let_def using assms(3) by simp
  then show ?thesis by (simp only: count_free map_of.simps) simp
qed

lemma NodeCapacity_Inr:
  "NodeCapacity c n w = Inr (k, m) \<longleftrightarrow>
   (\<exists>nd s. getNode c n w = Inr nd \<and> n_Labels nd NodeLabelGPUCount = Some s \<and>
      parseInt 32 s = Some k \<and> 0 \<le> k \<and>
      m = (case n_Labels nd NodeLabelGPUModel of None \<Rightarrow> '''' | Some m \<Rightarrow> m))"
  by (auto simp: NodeCapacity_def not_less split: sum.splits option.splits if_splits)

lemma nodeFreeCount_other: "n_Name nd \<noteq> n \<Longrightarrow> map_of (nodeFreeCount u out nd) n = map_of out n"
  by (auto simp: nodeFreeCount_def Let_def update_conv' split: option.splits)

lemma foldl_nodeFreeCount_other:
  "n \<notin> n_Name ` set nodes \<Longrightarrow> map_of (foldl (nodeFreeCount u) out nodes) n = map_of out n"
  by (induction nodes arbitrary: out) (auto simp: nodeFreeCount_other)

lemma nodeFreeCount_fresh:
  "map_of out (n_Name nd) = None \<Longrightarrow>
   map_of (nodeFreeCount u out nd) (n_Name nd) = map_of (nodeFreeCount u [] nd) (n_Name nd)"
  by (auto simp: nodeFreeCount_def Let_def update_conv' split: option.splits)

lemma foldl_nodeFreeCount_at:
  "distinct (map n_Name nodes) \<Longrightarrow> nd \<in> set nodes \<Longrightarrow> map_of out (n_Name nd) = None \<Longrightarrow>
   map_of (foldl (nodeFreeCount u) out nodes) (n_Name nd) = map_of (nodeFreeCount u [] nd) (n_Name nd)"
proof (induction nodes arbitrary: out)
  case (Cons x nodes)
  show ?case
  proof (cases "nd = x")
    case True
    with Cons.prems have "n_Name nd \<notin> n_Name ` set nodes" by auto
    with True Cons.prems show ?thesis
      using nodeFreeCount_fresh [of out nd u] by (simp add: foldl_nodeFreeCount_other)
  next
    case False
    with Cons.prems have "nd \<in> set nodes" and "n_Name x \<noteq> n_Name nd" by auto
    with Cons show ?thesis by (simp add: nodeFreeCount_other)
  qed
qed simp

text \<open>
  What a client whose \<open>Get\<close> and \<open>List\<close> of nodes answer from the same contents guarantees:
  the list holds every node once, and getting a name finds the listed node of that name.
\<close>

definition nodeReadsAgree :: "'w Client \<Rightarrow> 'w \<Rightarrow> bool" where
  "nodeReadsAgree c w \<longleftrightarrow>
     (\<forall>nodes. listNodes c w = Inr nodes \<longrightarrow>
        distinct (map n_Name nodes) \<and>
        (\<forall>n nd. getNode c n w = Inr nd \<longleftrightarrow> nd \<in> set nodes \<and> n_Name nd = n))"

lemma NodeFreeCounts_lookup:
  assumes agree: "nodeReadsAgree c w" and counts: "NodeFreeCounts c w = Inr m"
    and free: "FreeGPUIDs c n w = Inr ids"
  shows "map_of m n = Some (int (length ids))"
proof -
  obtain nodes ls where nodes: "listNodes c w = Inr nodes" and ls: "listLeases c w = Inr ls"
    and m: "m = foldl (nodeFreeCount (usedByNode ls)) [] nodes"
    using counts by (auto simp: NodeFreeCounts_def split: sum.splits)
  obtain k md where cap: "NodeCapacity c n w = Inr (k, md)"
    and ids: "ids = filter (\<lambda>i. i \<notin> heldIDs c w n) (idRange k)"
    using free by (auto simp: FreeGPUIDs_Inr)
  obtain nd s where nd: "getNode c n w = Inr nd" "n_Labels nd NodeLabelGPUCount = Some s"
      "parseInt 32 s = Some k" "0 \<le> k"
    using cap by (auto simp: NodeCapacity_Inr)
  have dist: "distinct (map n_Name nodes)" and mem: "nd \<in> set nodes" and name: "n_Name nd = n"
    using agree nodes nd(1) by (auto simp: nodeReadsAgree_def)
  have held: "heldIDs c w n = {i. usedByNode ls n i}"
    by (auto simp: heldIDs_def ls usedByNode_iff)
  have "map_of m (n_Name nd) = map_of (nodeFreeCount (usedByNode ls) [] nd) (n_Name nd)"
    unfolding m using dist mem by (rule foldl_nodeFreeCount_at) simp
  also have "\<dots> = Some (int (length (filter (\<lambda>i. \<not> usedByNode ls (n_Name nd) i) (idRange k))))"
    using nd(2,3,4) by (rule nodeFreeCount_own)
  finally show ?thesis by (simp add: name ids held)
qed

end
