(* ===== verification/Pods.thy ===== *)
theory Pods
  imports Inventory
begin

text \<open>
  \<open>internal/controller/pods.go\<close>: resolving and classifying a Deployment's pods, the target
  number of hot pods, the promotion and demotion orders, the state-label patches, and the
  rule that decides when a lease's claim is no longer valid.
\<close>

section \<open>Operations\<close>

definition deploymentSelector :: "K8sLib \<Rightarrow> Deployment \<Rightarrow> goerr + Selector" where
  "deploymentSelector lib dep =
     (case d_Selector dep of
        None \<Rightarrow> Inl (Errorf ''deployment has no spec.selector'')
      | Some s \<Rightarrow>
        (case LabelSelectorAsSelector lib s of
           Inl e \<Rightarrow> Inl (Wrap ''invalid spec.selector'' e)
         | Inr sel \<Rightarrow> Inr sel))"

definition listDeploymentPods ::
    "K8sLib \<Rightarrow> 'w Client \<Rightarrow> Deployment \<Rightarrow> 'w \<Rightarrow> goerr + Pod list" where
  "listDeploymentPods lib c dep w =
     (case deploymentSelector lib dep of
        Inl e \<Rightarrow> Inl e
      | Inr sel \<Rightarrow>
        (case listPods c (depNamespace dep) sel w of
           Inl e \<Rightarrow> Inl (Wrap ''list pods for deployment'' e)
         | Inr items \<Rightarrow> Inr items))"

fun firstReady :: "PodCondition list \<Rightarrow> bool" where
  "firstReady [] = False"
| "firstReady (c # cs) = (if pc_Type c = PodReady then pc_Status c = ConditionTrue else firstReady cs)"

definition isPodReady :: "Pod \<Rightarrow> bool" where
  "isPodReady pod = firstReady (p_Conditions pod)"

definition isPodConsidered :: "Pod \<Rightarrow> bool" where
  "isPodConsidered pod =
     (if om_DeletionTimestamp (p_Meta pod) \<noteq> None then False
      else if p_NodeName pod = '''' then False
      else if p_Phase pod \<noteq> PodRunning then False
      else isPodReady pod)"

definition podState :: "Pod \<Rightarrow> string" where
  "podState pod =
     (case podLabels pod StateLabelKey of
        None \<Rightarrow> StateWarm
      | Some s \<Rightarrow> if s \<noteq> '''' then s else StateWarm)"

definition isHeld :: "string \<Rightarrow> bool" where
  "isHeld state \<longleftrightarrow> state = StateHot \<or> state = StateActivating"

definition targetHot :: "int \<Rightarrow> int32 \<Rightarrow> int32 \<Rightarrow> int" where
  "targetHot readyCount desiredWarm minHot =
     (let t = readyCount - desiredWarm;
          t = (if t < minHot then minHot else t);
          t = (if t > readyCount then readyCount else t)
      in t)"

abbreviation podCreated :: "Pod \<Rightarrow> gotime" where
  "podCreated p \<equiv> om_CreationTimestamp (p_Meta p)"

definition promotionLess :: "(string \<times> int32) list \<Rightarrow> Pod \<Rightarrow> Pod \<Rightarrow> bool" where
  "promotionLess freeByNode a b =
     (let fi = mapGet freeByNode (p_NodeName a); fj = mapGet freeByNode (p_NodeName b)
      in if fi \<noteq> fj then fi > fj else podCreated a < podCreated b)"

definition sortPromotionCandidates :: "Pod list \<Rightarrow> (string \<times> int32) list \<Rightarrow> Pod list" where
  "sortPromotionCandidates pods freeByNode =
     sliceStable (promotionLess freeByNode)
       (filter (\<lambda>p. mapGet freeByNode (p_NodeName p) > 0) pods)"

definition demotionLess :: "Pod \<Rightarrow> Pod \<Rightarrow> bool" where
  "demotionLess a b \<longleftrightarrow> podCreated b < podCreated a"

definition sortDemotionCandidates :: "Pod list \<Rightarrow> Pod list" where
  "sortDemotionCandidates pods = sliceStable demotionLess pods"

definition setLabel :: "string \<Rightarrow> string \<Rightarrow> Pod \<Rightarrow> Pod" where
  "setLabel k v p = p\<lparr>p_Meta := (p_Meta p)\<lparr>om_Labels := (podLabels p)(k \<mapsto> v)\<rparr>\<rparr>"

definition setAnnotation :: "string \<Rightarrow> string \<Rightarrow> Pod \<Rightarrow> Pod" where
  "setAnnotation k v p = p\<lparr>p_Meta := (p_Meta p)\<lparr>om_Annotations := (podAnnotations p)(k \<mapsto> v)\<rparr>\<rparr>"

definition delAnnotation :: "string \<Rightarrow> Pod \<Rightarrow> Pod" where
  "delAnnotation k p = p\<lparr>p_Meta := (p_Meta p)\<lparr>om_Annotations := (podAnnotations p)(k := None)\<rparr>\<rparr>"

lemmas pod_update_defs = setLabel_def setAnnotation_def delAnnotation_def

definition patchPodStateLabel :: "'w Client \<Rightarrow> Pod \<Rightarrow> string \<Rightarrow> ('w, Pod) go" where
  "patchPodStateLabel c pod state =
     wrapErr ''patch pod state'' (patchPod c pod (setLabel StateLabelKey state pod))"

definition initializePodWarmState :: "'w Client \<Rightarrow> Pod \<Rightarrow> ('w, Pod) go" where
  "initializePodWarmState c pod =
     wrapErr ''initialize pod warm state''
       (patchPod c pod
          (setAnnotation AnnotationPodDeletionCost PodDeletionCostWarm
             (setLabel StateLabelKey StateWarm pod)))"

text \<open>The empty string stands for "the claim is still valid", as in the code.\<close>

definition leaseOrphanReason :: "Pod option \<Rightarrow> GPULease \<Rightarrow> Selector option \<Rightarrow> string" where
  "leaseOrphanReason pod lease sel =
     (case pod of
        None \<Rightarrow> ReasonPodGone
      | Some p \<Rightarrow>
          if ref_UID (claimOf lease) \<noteq> '''' \<and> om_UID (p_Meta p) \<noteq> ref_UID (claimOf lease)
          then ReasonPodGone
          else if om_DeletionTimestamp (p_Meta p) \<noteq> None \<or> \<not> isPodReady p then ReasonPodGone
          else if (case sel of None \<Rightarrow> False | Some s \<Rightarrow> \<not> sel_Matches s (podLabels p))
          then ReasonPodGone
          else if p_NodeName p \<noteq> leaseNode lease then ReasonNodeMismatch
          else '''')"

section \<open>The target is a clamp\<close>

lemma targetHot_eq: "targetHot r d m = min r (max (r - d) m)"
  by (auto simp: targetHot_def Let_def)

section \<open>Candidate orders\<close>

interpretation promo: strict_weak_order "promotionLess f" for f
  by unfold_locales (auto simp: promotionLess_def Let_def split: if_splits)

interpretation demo: strict_weak_order demotionLess
  by unfold_locales (auto simp: demotionLess_def)

lemma sortPromotion_set [simp]:
  "set (sortPromotionCandidates pods f) = {p \<in> set pods. mapGet f (p_NodeName p) > 0}"
  by (simp add: sortPromotionCandidates_def)

lemma sortPromotion_mset:
  "mset (sortPromotionCandidates pods f) = mset (filter (\<lambda>p. mapGet f (p_NodeName p) > 0) pods)"
  by (simp add: sortPromotionCandidates_def)

lemma sortDemotion_mset [simp]: "mset (sortDemotionCandidates pods) = mset pods"
  by (simp add: sortDemotionCandidates_def)

lemma sortDemotion_set [simp]: "set (sortDemotionCandidates pods) = set pods"
  by (simp add: sortDemotionCandidates_def)

lemma sortDemotion_length [simp]: "length (sortDemotionCandidates pods) = length pods"
  by (simp add: sortDemotionCandidates_def)

section \<open>Claims\<close>

definition claimValid :: "Pod option \<Rightarrow> GPULease \<Rightarrow> Selector option \<Rightarrow> bool" where
  "claimValid pod lease sel \<longleftrightarrow>
     (\<exists>p. pod = Some p \<and>
        (ref_UID (claimOf lease) = '''' \<or> om_UID (p_Meta p) = ref_UID (claimOf lease)) \<and>
        om_DeletionTimestamp (p_Meta p) = None \<and> isPodReady p \<and>
        (\<forall>s. sel = Some s \<longrightarrow> sel_Matches s (podLabels p)) \<and>
        p_NodeName p = leaseNode lease)"

lemma leaseOrphanReason_valid: "leaseOrphanReason pod lease sel = '''' \<longleftrightarrow> claimValid pod lease sel"
  by (auto simp: leaseOrphanReason_def claimValid_def reason_defs split: option.splits)

lemma leaseOrphanReason_cases:
  "leaseOrphanReason pod lease sel \<in> {'''', ReasonPodGone, ReasonNodeMismatch}"
  by (auto simp: leaseOrphanReason_def split: option.splits)

lemma isPodConsidered_iff:
  "isPodConsidered p \<longleftrightarrow> om_DeletionTimestamp (p_Meta p) = None \<and> p_NodeName p \<noteq> '''' \<and>
     p_Phase p = PodRunning \<and> isPodReady p"
  by (simp add: isPodConsidered_def)

lemma podState_setLabel [simp]:
  "s \<noteq> '''' \<Longrightarrow> podState (setLabel StateLabelKey s p) = s"
  by (simp add: podState_def setLabel_def)

end
