(* ===== verification/KueueHelpers.thy ===== *)
theory KueueHelpers
  imports Env
begin

text \<open>
  \<open>internal/controller/kueue.go\<close>: building the standalone Workload that holds one GPU of quota
  for a lease, and reading Kueue's verdict back from its status.
\<close>

section \<open>Operations\<close>

definition placeholderContainerImage :: string where
  "placeholderContainerImage = ''registry.k8s.io/pause:3.9''"
definition placeholderContainerName :: string where "placeholderContainerName = ''main''"
definition kueueReasonInadmissible :: string where "kueueReasonInadmissible = ''Inadmissible''"

definition workloadName :: "GPULease \<Rightarrow> string" where
  "workloadName lease = leaseName lease"

definition buildWorkload :: "GPULease \<Rightarrow> Workload" where
  "buildWorkload lease =
     \<lparr> wl_Meta = newMeta (ref_Namespace (claimOf lease)) (workloadName lease),
       wl_Spec =
         \<lparr> ws_QueueName = ls_LocalQueueName (l_Spec lease),
           ws_PodSets =
             [\<lparr> ps_Name = PodSetName,
                ps_Count = 1,
                ps_Template =
                  \<lparr> pt_RestartPolicy = ''Never'',
                    pt_NodeSelector = [LabelHostname \<mapsto> leaseNode lease],
                    pt_Containers =
                      [\<lparr> ctr_Name = placeholderContainerName,
                         ctr_Image = placeholderContainerImage,
                         ctr_Requests = [KueueResourceName \<mapsto> 1] \<rparr>] \<rparr> \<rparr>],
           ws_PriorityClassName = '''' \<rparr>,
       wl_Status = \<lparr> wt_Conditions = [], wt_Admission = None \<rparr> \<rparr>"

definition workloadMatchesSpec :: "K8sLib \<Rightarrow> Workload \<Rightarrow> Workload \<Rightarrow> bool" where
  "workloadMatchesSpec lib existing want = SemanticDeepEqual lib (wl_Spec existing) (wl_Spec want)"

definition wlCondition :: "K8sLib \<Rightarrow> Workload \<Rightarrow> string \<Rightarrow> Condition option" where
  "wlCondition lib wl ty = FindStatusCondition lib (wt_Conditions (wl_Status wl)) ty"

definition isWorkloadAdmitted :: "K8sLib \<Rightarrow> Workload \<Rightarrow> bool" where
  "isWorkloadAdmitted lib wl =
     (case wlCondition lib wl WlConditionAdmitted of
        None \<Rightarrow> False
      | Some c \<Rightarrow> cond_Status c = ConditionTrue)"

definition workloadInadmissible :: "K8sLib \<Rightarrow> Workload \<Rightarrow> bool \<times> msg" where
  "workloadInadmissible lib wl =
     (case wlCondition lib wl WlConditionQuotaReserved of
        None \<Rightarrow> (False, Lit '''')
      | Some c \<Rightarrow>
          if cond_Status c = ConditionFalse \<and> cond_Reason c = kueueReasonInadmissible
          then (True, cond_Message c) else (False, Lit ''''))"

definition quotaReservedMessage :: "K8sLib \<Rightarrow> Workload \<Rightarrow> msg" where
  "quotaReservedMessage lib wl =
     (case wlCondition lib wl WlConditionQuotaReserved of
        Some c \<Rightarrow> cond_Message c
      | None \<Rightarrow> Lit ''Workload not yet observed by Kueue'')"

definition admissionAnchor :: "K8sLib \<Rightarrow> Workload \<Rightarrow> gotime" where
  "admissionAnchor lib wl =
     (case wlCondition lib wl WlConditionQuotaReserved of
        Some c \<Rightarrow> cond_LastTransitionTime c
      | None \<Rightarrow> om_CreationTimestamp (wl_Meta wl))"

text \<open>The Go function returns the zero string with \<open>ok = false\<close>.\<close>

definition assignedFlavor :: "Workload \<Rightarrow> string \<times> bool" where
  "assignedFlavor wl =
     (case wt_Admission (wl_Status wl) of
        None \<Rightarrow> ('''', False)
      | Some a \<Rightarrow>
        (case adm_PodSetAssignments a of
           [] \<Rightarrow> ('''', False)
         | pa # _ \<Rightarrow>
           (case pa_Flavors pa KueueResourceName of
              None \<Rightarrow> ('''', False)
            | Some f \<Rightarrow> (f, True))))"

fun findFlavorForNode :: "ResourceFlavor list \<Rightarrow> string \<Rightarrow> string option" where
  "findFlavorForNode [] node = None"
| "findFlavorForNode (rf # rfs) node =
     (if (case rf_NodeLabels rf LabelHostname of None \<Rightarrow> '''' | Some h \<Rightarrow> h) = node
      then Some (rf_Name rf) else findFlavorForNode rfs node)"

definition expectedFlavorForNode :: "'w Client \<Rightarrow> string \<Rightarrow> 'w \<Rightarrow> goerr + string" where
  "expectedFlavorForNode c node w =
     (case listFlavors c w of
        Inl e \<Rightarrow> Inl (Wrap ''list ResourceFlavors'' e)
      | Inr items \<Rightarrow>
        (case findFlavorForNode items node of
           Some f \<Rightarrow> Inr f
         | None \<Rightarrow> Inl (Errorf ''no ResourceFlavor selects node'')))"

section \<open>The Workload asks for one GPU of the lease's node\<close>

text \<open>What the GPU demand of a Workload is, per node it may be placed on.\<close>

definition podSetDemand :: "PodSet \<Rightarrow> int" where
  "podSetDemand ps =
     ps_Count ps *
     sum_list (map (\<lambda>c. case ctr_Requests c KueueResourceName of None \<Rightarrow> 0 | Some q \<Rightarrow> q)
                 (pt_Containers (ps_Template ps)))"

definition workloadDemand :: "Workload \<Rightarrow> int" where
  "workloadDemand wl = sum_list (map podSetDemand (ws_PodSets (wl_Spec wl)))"

definition pinnedTo :: "Workload \<Rightarrow> string \<Rightarrow> bool" where
  "pinnedTo wl node \<longleftrightarrow>
     (\<forall>ps \<in> set (ws_PodSets (wl_Spec wl)). pt_NodeSelector (ps_Template ps) LabelHostname = Some node)"

lemma buildWorkload_demand: "workloadDemand (buildWorkload l) = 1"
  by (simp add: workloadDemand_def podSetDemand_def buildWorkload_def)

lemma buildWorkload_pinned: "pinnedTo (buildWorkload l) (leaseNode l)"
  by (simp add: pinnedTo_def buildWorkload_def)

lemma buildWorkload_spec_eq:
  "wl_Spec (buildWorkload l) = wl_Spec (buildWorkload l') \<longleftrightarrow>
   ls_LocalQueueName (l_Spec l) = ls_LocalQueueName (l_Spec l') \<and> leaseNode l = leaseNode l'"
  by (auto simp: buildWorkload_def fun_eq_iff)

lemma buildWorkload_meta [simp]:
  "om_Name (wl_Meta (buildWorkload l)) = leaseName l"
  "om_Namespace (wl_Meta (buildWorkload l)) = ref_Namespace (claimOf l)"
  by (simp_all add: buildWorkload_def newMeta_def workloadName_def)

end
