(* ===== verification/Podclient.thy ===== *)
theory Podclient
  imports Types
begin

text \<open>
  \<open>internal/controller/podclient/podclient.go\<close>: the interface \<open>Client\<close> through which the
  GPULease reconciler drives a pod's lease API, its HTTP implementation over an arbitrary
  transport, and the in-memory \<open>FakeClient\<close>. The wire carries the two JSON documents of the
  protocol as values; \<open>Text\<close> is a body that is not a JSON object.
\<close>

section \<open>Interface\<close>

definition DefaultPort :: int where "DefaultPort = 8000"
definition DefaultTimeout :: duration where "DefaultTimeout = 5 * Second"

record ActivateRequest =
  ar_LeaseName :: string
  ar_Node :: string
  ar_GPUID :: int32
  ar_GPUModel :: string

record StateResponse =
  sr_State :: string
  sr_LeaseName :: string
  sr_Node :: string
  sr_GPUID :: int32

definition PcStateWarm :: string where "PcStateWarm = ''warm''"
definition PcStateActivating :: string where "PcStateActivating = ''activating''"
definition PcStateHot :: string where "PcStateHot = ''hot''"

lemmas pc_state_defs = PcStateWarm_def PcStateActivating_def PcStateHot_def

record 'w PodClient =
  cl_Activate :: "string \<Rightarrow> ActivateRequest \<Rightarrow> ('w, unit) go"
  cl_Release :: "string \<Rightarrow> ('w, unit) go"
  cl_State :: "string \<Rightarrow> ('w, StateResponse) go"

section \<open>HTTP\<close>

datatype HttpBody = NoBody | JsonActivate ActivateRequest | JsonState StateResponse | Text msg

record HttpRequest =
  hq_Method :: string
  hq_URL :: string
  hq_Body :: HttpBody

record HttpResponse =
  hs_StatusCode :: int
  hs_Body :: HttpBody

type_synonym 'w Transport = "HttpRequest \<Rightarrow> ('w, HttpResponse) go"

definition StatusOK :: int where "StatusOK = 200"
definition StatusAccepted :: int where "StatusAccepted = 202"
definition StatusNoContent :: int where "StatusNoContent = 204"
definition StatusBadRequest :: int where "StatusBadRequest = 400"
definition StatusConflict :: int where "StatusConflict = 409"
definition StatusInternalServerError :: int where "StatusInternalServerError = 500"
definition StatusServiceUnavailable :: int where "StatusServiceUnavailable = 503"

lemmas status_code_defs = StatusOK_def StatusAccepted_def StatusNoContent_def StatusBadRequest_def
  StatusConflict_def StatusInternalServerError_def StatusServiceUnavailable_def

text \<open>
  \<open>encoding/json\<close> fills the fields of the target that the document has and leaves the others
  zero; anything that is not an object is an error.
\<close>

fun decodeState :: "HttpBody \<Rightarrow> StateResponse option" where
  "decodeState (JsonState s) = Some s"
| "decodeState (JsonActivate a) =
     Some \<lparr> sr_State = '''', sr_LeaseName = ar_LeaseName a, sr_Node = ar_Node a, sr_GPUID = ar_GPUID a \<rparr>"
| "decodeState _ = None"

fun decodeActivate :: "HttpBody \<Rightarrow> ActivateRequest option" where
  "decodeActivate (JsonActivate a) = Some a"
| "decodeActivate (JsonState s) =
     Some \<lparr> ar_LeaseName = sr_LeaseName s, ar_Node = sr_Node s, ar_GPUID = sr_GPUID s, ar_GPUModel = '''' \<rparr>"
| "decodeActivate _ = None"

section \<open>HTTPClient\<close>

text \<open>
  \<open>hc_Do\<close> is the underlying \<open>http.Client\<close>'s \<open>Do\<close> (\<open>None\<close> for a nil client), \<open>hc_DefaultDo\<close>
  the freshly built default client's, and \<open>hc_ValidURL\<close> says which URLs
  \<open>http.NewRequestWithContext\<close> accepts.
\<close>

record 'w HTTPClient =
  hc_Do :: "'w Transport option"
  hc_Port :: int
  hc_DefaultDo :: "'w Transport"
  hc_ValidURL :: "string \<Rightarrow> bool"

text \<open>\<open>mkDo timeout\<close> is the \<open>Do\<close> of an \<open>http.Client\<close> with that timeout.\<close>

definition NewHTTPClient :: "(duration \<Rightarrow> 'w Transport) \<Rightarrow> (string \<Rightarrow> bool) \<Rightarrow> 'w HTTPClient" where
  "NewHTTPClient mkDo valid =
     \<lparr> hc_Do = Some (mkDo DefaultTimeout), hc_Port = DefaultPort, hc_DefaultDo = mkDo DefaultTimeout, hc_ValidURL = valid \<rparr>"

definition hcClient :: "'w HTTPClient \<Rightarrow> 'w Transport" where
  "hcClient c = (case hc_Do c of Some d \<Rightarrow> d | None \<Rightarrow> hc_DefaultDo c)"

definition hcPort :: "'w HTTPClient \<Rightarrow> int" where
  "hcPort c = (if hc_Port c \<noteq> 0 then hc_Port c else DefaultPort)"

definition baseURL :: "'w HTTPClient \<Rightarrow> string \<Rightarrow> string" where
  "baseURL c podIP = ''http://'' @ podIP @ '':'' @ showInt (hcPort c)"

definition newRequest :: "'w HTTPClient \<Rightarrow> string \<Rightarrow> string \<Rightarrow> HttpBody \<Rightarrow> ('w, HttpRequest) go" where
  "newRequest c m url body =
     (if hc_ValidURL c url then ret \<lparr> hq_Method = m, hq_URL = url, hq_Body = body \<rparr>
      else throw (Errorf ''build request''))"

definition hcActivate :: "'w HTTPClient \<Rightarrow> string \<Rightarrow> ActivateRequest \<Rightarrow> ('w, unit) go" where
  "hcActivate c podIP req =
     bnd (wrapErr ''podclient: build POST /lease request''
            (newRequest c ''POST'' (baseURL c podIP @ ''/lease'') (JsonActivate req)))
      (\<lambda>httpReq. bnd (wrapErr ''podclient: POST /lease'' (hcClient c httpReq))
      (\<lambda>resp.
         if hs_StatusCode resp = StatusAccepted \<or> hs_StatusCode resp = StatusOK then ret ()
         else if hs_StatusCode resp = StatusConflict then throw ErrPodNodeMismatch
         else throw (Errorf ''podclient: POST /lease: unexpected status'')))"

definition hcRelease :: "'w HTTPClient \<Rightarrow> string \<Rightarrow> ('w, unit) go" where
  "hcRelease c podIP =
     bnd (wrapErr ''podclient: build DELETE /lease request''
            (newRequest c ''DELETE'' (baseURL c podIP @ ''/lease'') NoBody))
      (\<lambda>httpReq. bnd (wrapErr ''podclient: DELETE /lease'' (hcClient c httpReq))
      (\<lambda>resp.
         if hs_StatusCode resp < 200 \<or> hs_StatusCode resp \<ge> 300
         then throw (Errorf ''podclient: DELETE /lease: unexpected status'')
         else ret ()))"

definition hcState :: "'w HTTPClient \<Rightarrow> string \<Rightarrow> ('w, StateResponse) go" where
  "hcState c podIP =
     bnd (wrapErr ''podclient: build GET /state request''
            (newRequest c ''GET'' (baseURL c podIP @ ''/state'') NoBody))
      (\<lambda>httpReq. bnd (wrapErr ''podclient: GET /state'' (hcClient c httpReq))
      (\<lambda>resp.
         if hs_StatusCode resp \<noteq> StatusOK
         then throw (Errorf ''podclient: GET /state: unexpected status'')
         else case decodeState (hs_Body resp) of
                None \<Rightarrow> throw (Errorf ''podclient: decode /state response'')
              | Some out \<Rightarrow> ret out))"

definition httpPodClient :: "'w HTTPClient \<Rightarrow> 'w PodClient" where
  "httpPodClient c =
     \<lparr> cl_Activate = hcActivate c, cl_Release = hcRelease c, cl_State = hcState c \<rparr>"

section \<open>FakeClient\<close>

record FakeClient =
  fk_pods :: "string \<rightharpoonup> string"
  fk_ActivateErr :: "string \<rightharpoonup> goerr"
  fk_ReleaseErr :: "string \<rightharpoonup> goerr"
  fk_StateErr :: "string \<rightharpoonup> goerr"
  fk_ActivateCalls :: "(string \<times> ActivateRequest) list"
  fk_ReleaseCalls :: "string list"

definition NewFakeClient :: FakeClient where
  "NewFakeClient = \<lparr> fk_pods = Map.empty, fk_ActivateErr = Map.empty, fk_ReleaseErr = Map.empty,
     fk_StateErr = Map.empty, fk_ActivateCalls = [], fk_ReleaseCalls = [] \<rparr>"

definition fkSetState :: "string \<Rightarrow> string \<Rightarrow> FakeClient \<Rightarrow> FakeClient" where
  "fkSetState podIP state f = f\<lparr>fk_pods := (fk_pods f)(podIP \<mapsto> state)\<rparr>"

definition fkActivate :: "string \<Rightarrow> ActivateRequest \<Rightarrow> (FakeClient, unit) go" where
  "fkActivate podIP req f =
     (let f = f\<lparr>fk_ActivateCalls := fk_ActivateCalls f @ [(podIP, req)]\<rparr>
      in case fk_ActivateErr f podIP of
           Some err \<Rightarrow> (Inl err, f)
         | None \<Rightarrow> (Inr (), f\<lparr>fk_pods := (fk_pods f)(podIP \<mapsto> PcStateHot)\<rparr>))"

definition fkRelease :: "string \<Rightarrow> (FakeClient, unit) go" where
  "fkRelease podIP f =
     (let f = f\<lparr>fk_ReleaseCalls := fk_ReleaseCalls f @ [podIP]\<rparr>
      in case fk_ReleaseErr f podIP of
           Some err \<Rightarrow> (Inl err, f)
         | None \<Rightarrow> (Inr (), f\<lparr>fk_pods := (fk_pods f)(podIP \<mapsto> PcStateWarm)\<rparr>))"

definition fkStateOf :: "FakeClient \<Rightarrow> string \<Rightarrow> string" where
  "fkStateOf f podIP =
     (let state = (case fk_pods f podIP of None \<Rightarrow> '''' | Some s \<Rightarrow> s)
      in if state = '''' then PcStateWarm else state)"

definition fkState :: "string \<Rightarrow> (FakeClient, StateResponse) go" where
  "fkState podIP f =
     (case fk_StateErr f podIP of
        Some err \<Rightarrow> (Inl err, f)
      | None \<Rightarrow>
          (Inr \<lparr> sr_State = fkStateOf f podIP, sr_LeaseName = '''', sr_Node = '''', sr_GPUID = 0 \<rparr>, f))"

definition fakePodClient :: "FakeClient PodClient" where
  "fakePodClient = \<lparr> cl_Activate = fkActivate, cl_Release = fkRelease, cl_State = fkState \<rparr>"

section \<open>The contract of the interface\<close>

text \<open>
  What the reconciler may rely on, whichever implementation it is given: \<open>lifecycle w ip\<close> is
  the lifecycle position of the pod at \<open>ip\<close>. An accepted activation leaves the pod on its way
  to hot or hot; a release leaves it neither; \<open>State\<close> reports the position; a call to another pod
  changes nothing. A call that returned an error changed nothing, or it took effect all the same
  (the answer came too late or was lost).
\<close>

locale lease_endpoint =
  fixes C :: "'w PodClient" and lifecycle :: "'w \<Rightarrow> string \<Rightarrow> string"
  assumes activate_ok: "cl_Activate C ip req w = (Inr (), w') \<Longrightarrow>
      lifecycle w' ip \<in> {PcStateActivating, PcStateHot}"
    and activate_err: "cl_Activate C ip req w = (Inl e, w') \<Longrightarrow>
      lifecycle w' ip = lifecycle w ip \<or> lifecycle w' ip \<in> {PcStateActivating, PcStateHot}"
    and activate_frame: "cl_Activate C ip req w = (r, w') \<Longrightarrow> ip' \<noteq> ip \<Longrightarrow>
      lifecycle w' ip' = lifecycle w ip'"
    and release_ok: "cl_Release C ip w = (Inr (), w') \<Longrightarrow>
      lifecycle w' ip \<notin> {PcStateActivating, PcStateHot}"
    and release_err: "cl_Release C ip w = (Inl e, w') \<Longrightarrow>
      lifecycle w' ip = lifecycle w ip \<or> lifecycle w' ip \<notin> {PcStateActivating, PcStateHot}"
    and release_frame: "cl_Release C ip w = (r, w') \<Longrightarrow> ip' \<noteq> ip \<Longrightarrow>
      lifecycle w' ip' = lifecycle w ip'"
    and state_reports: "cl_State C ip w = (Inr s, w') \<Longrightarrow> sr_State s = lifecycle w ip"
    and state_reads: "cl_State C ip w = (rs, w') \<Longrightarrow> lifecycle w' = lifecycle w"
begin

lemma release_then_not_hot:
  assumes "cl_Release C ip w = (Inr (), w')" and "cl_State C ip w' = (Inr s, w'')"
  shows "sr_State s \<noteq> PcStateHot"
  using release_ok [OF assms(1)] state_reports [OF assms(2)] by auto

lemma activate_elsewhere_not_hot:
  assumes "cl_Activate C ip req w = (r, w')" and "ip' \<noteq> ip" and "cl_State C ip' w' = (Inr s, w'')"
    and "lifecycle w ip' \<noteq> PcStateHot"
  shows "sr_State s \<noteq> PcStateHot"
  using activate_frame [OF assms(1,2)] state_reports [OF assms(3)] assms(4) by simp

end

lemmas fake_defs = fakePodClient_def fkActivate_def fkRelease_def fkState_def fkStateOf_def Let_def

interpretation fake: lease_endpoint fakePodClient fkStateOf
  by unfold_locales
    (auto simp: fake_defs pc_state_defs fun_eq_iff split: option.splits if_splits)

end
