(* ===== verification/LeaseReconciler.thy ===== *)
theory LeaseReconciler
  imports Pods KueueHelpers Podclient
begin

text \<open>
  \<open>internal/controller/gpulease_controller.go\<close>: the GPULease state machine. Every operation is a
  program over an arbitrary world, with the client, the pod client, the recorder, the clock
  and the libraries taken from the reconciler record. Log lines are not modelled. A pointer
  argument that the Go code mutates is the value the client call returns.
\<close>

section \<open>Constants and the reconciler\<close>

definition pollInterval :: duration where "pollInterval = 2 * Second"
definition boundPollInterval :: duration where "boundPollInterval = 15 * Second"

definition EventReasonQuotaReserved :: string where "EventReasonQuotaReserved = ''QuotaReserved''"
definition EventReasonActivating :: string where "EventReasonActivating = ''Activating''"
definition EventReasonBound :: string where "EventReasonBound = ''Bound''"
definition EventReasonReleased :: string where "EventReasonReleased = ''LeaseReleased''"
definition EventReasonFlavorMismatch :: string where "EventReasonFlavorMismatch = ''FlavorMismatch''"

record 'w GPULeaseReconciler =
  lr_Client :: "'w Client"
  lr_Recorder :: "'w Recorder option"
  lr_PodClient :: "'w PodClient"
  lr_Inventory :: "'w Inventory option"
  lr_Clock :: "('w \<Rightarrow> gotime) option"
  lr_Runtime :: "'w Runtime"

abbreviation lrLib :: "'w GPULeaseReconciler \<Rightarrow> K8sLib" where "lrLib r \<equiv> rt_Lib (lr_Runtime r)"

section \<open>Helpers\<close>

definition lrNow :: "'w GPULeaseReconciler \<Rightarrow> 'w \<Rightarrow> gotime" where
  "lrNow r w = (case lr_Clock r of Some clock \<Rightarrow> clock w | None \<Rightarrow> rt_Now (lr_Runtime r) w)"

definition lrEvent ::
    "'w GPULeaseReconciler \<Rightarrow> GPULease \<Rightarrow> string \<Rightarrow> string \<Rightarrow> msg \<Rightarrow> 'w \<Rightarrow> 'w" where
  "lrEvent r lease eventType reason message =
     (case lr_Recorder r of
        None \<Rightarrow> (\<lambda>w. w)
      | Some rec \<Rightarrow> rec (OnLease lease) eventType reason message)"

definition nextPoll :: "duration \<Rightarrow> duration" where
  "nextPoll remaining = (if remaining < pollInterval then remaining else pollInterval)"

definition setLeaseCondition ::
    "'w GPULeaseReconciler \<Rightarrow> string \<Rightarrow> string \<Rightarrow> string \<Rightarrow> msg \<Rightarrow> 'w \<Rightarrow> GPULease \<Rightarrow> GPULease" where
  "setLeaseCondition r condType status reason message w lease =
     lease\<lparr>l_Status := (l_Status lease)\<lparr>lt_Conditions :=
       SetStatusCondition (lrLib r) (rt_Now (lr_Runtime r) w) (lt_Conditions (l_Status lease))
         \<lparr> cond_Type = condType, cond_Status = status,
           cond_ObservedGeneration = om_Generation (l_Meta lease),
           cond_LastTransitionTime = 0, cond_Reason = reason, cond_Message = message \<rparr>\<rparr>\<rparr>"

definition setPhase :: "GPULeasePhase \<Rightarrow> msg \<Rightarrow> GPULease \<Rightarrow> GPULease" where
  "setPhase ph message lease =
     lease\<lparr>l_Status := (l_Status lease)\<lparr>lt_Phase := ph, lt_Message := message\<rparr>\<rparr>"

definition podActivatedAnchor :: "K8sLib \<Rightarrow> GPULease \<Rightarrow> gotime" where
  "podActivatedAnchor lib lease =
     (case FindStatusCondition lib (lt_Conditions (l_Status lease)) ConditionPodActivated of
        Some c \<Rightarrow> cond_LastTransitionTime c
      | None \<Rightarrow> om_CreationTimestamp (l_Meta lease))"

definition deploymentSettings :: "'w GPULeaseReconciler \<Rightarrow> GPULease \<Rightarrow> 'w \<Rightarrow> DeploymentSettings" where
  "deploymentSettings r lease w =
     (case getDeployment (lr_Client r) (ref_Namespace (deploymentOf lease))
             (ref_Name (deploymentOf lease)) w of
        Inl err \<Rightarrow> ParseDeploymentSettings Map.empty (ref_Name (deploymentOf lease))
      | Inr dep \<Rightarrow> ParseDeploymentSettings (depAnnotations dep) (depName dep))"

definition getClaimPod :: "'w GPULeaseReconciler \<Rightarrow> GPULease \<Rightarrow> 'w \<Rightarrow> goerr + Pod option" where
  "getClaimPod r lease w =
     (case getPod (lr_Client r) (ref_Namespace (claimOf lease)) (ref_Name (claimOf lease)) w of
        Inl err \<Rightarrow> if IsNotFound err then Inr None else Inl (Wrap ''get claim pod'' err)
      | Inr pod \<Rightarrow> Inr (Some pod))"

definition markHot :: "GPULease \<Rightarrow> Pod \<Rightarrow> Pod" where
  "markHot lease pod =
     setAnnotation AnnotationPodDeletionCost PodDeletionCostHot
       (setAnnotation AnnotationGPUModel (ls_GPUModel (l_Spec lease))
         (setAnnotation AnnotationGPUID (showInt (leaseGPU lease))
           (setAnnotation AnnotationLease (leaseName lease)
             (setLabel StateLabelKey StateHot pod))))"

definition markPodHot :: "'w Client \<Rightarrow> Pod \<Rightarrow> GPULease \<Rightarrow> ('w, Pod) go" where
  "markPodHot c pod lease = wrapErr ''patch pod hot'' (patchPod c pod (markHot lease pod))"

definition revertWarm :: "Pod \<Rightarrow> Pod" where
  "revertWarm pod =
     setAnnotation AnnotationPodDeletionCost PodDeletionCostWarm
       (delAnnotation AnnotationGPUModel
         (delAnnotation AnnotationGPUID
           (delAnnotation AnnotationLease
             (setLabel StateLabelKey StateWarm pod))))"

definition revertPodToWarm :: "'w Client \<Rightarrow> Pod \<Rightarrow> ('w, Pod) go" where
  "revertPodToWarm c pod = wrapErr ''patch pod warm'' (patchPod c pod (revertWarm pod))"

section \<open>Metrics\<close>

definition countsByNode :: "GPULease list \<Rightarrow> (string \<times> int) list" where
  "countsByNode items =
     foldl (\<lambda>counts l. AList.update (leaseNode l) (mapGet counts (leaseNode l) + 1) counts) [] items"

definition refreshMetrics :: "'w GPULeaseReconciler \<Rightarrow> 'w \<Rightarrow> 'w" where
  "refreshMetrics r w =
     (case listLeases (lr_Client r) w of
        Inl e \<Rightarrow> w
      | Inr items \<Rightarrow>
          let w1 = fold (\<lambda>(node, n). rt_Metric (lr_Runtime r) (LeasesActive node n)) (countsByNode items) w
          in case lr_Inventory r of
               None \<Rightarrow> w1
             | Some inventory \<Rightarrow>
               (case inv_NodeFreeCounts inventory w1 of
                  Inl e \<Rightarrow> w1
                | Inr free \<Rightarrow>
                    fold (\<lambda>(node, n). rt_Metric (lr_Runtime r) (NodeGPUsFree node n)) free w1))"

section \<open>Failing and releasing\<close>

definition deleteWorkload :: "'w GPULeaseReconciler \<Rightarrow> GPULease \<Rightarrow> ('w, unit) go" where
  "deleteWorkload r lease =
     bnd (attempt (deleteWorkloadObj (lr_Client r) (ref_Namespace (claimOf lease)) (workloadName lease)))
       (\<lambda>res. case res of
          Inl err \<Rightarrow> if IsNotFound err then ret () else throw (Wrap ''delete workload'' err)
        | Inr _ \<Rightarrow> ret ())"

definition releaseClaimPod :: "'w GPULeaseReconciler \<Rightarrow> GPULease \<Rightarrow> 'w \<Rightarrow> 'w" where
  "releaseClaimPod r lease w =
     (case getClaimPod r lease w of
        Inl err \<Rightarrow> w
      | Inr None \<Rightarrow> w
      | Inr (Some pod) \<Rightarrow>
          if ref_UID (claimOf lease) \<noteq> '''' \<and> om_UID (p_Meta pod) \<noteq> ref_UID (claimOf lease) then w
          else let w1 = (if p_PodIP pod \<noteq> '''' then snd (cl_Release (lr_PodClient r) (p_PodIP pod) w) else w)
               in snd (revertPodToWarm (lr_Client r) pod w1))"

definition transitionToFailed ::
    "'w GPULeaseReconciler \<Rightarrow> GPULease \<Rightarrow> string \<Rightarrow> msg \<Rightarrow> ('w, Result) go" where
  "transitionToFailed r lease reason message =
     bnd (deleteWorkload r lease) (\<lambda>_.
     bnd (act (releaseClaimPod r lease)) (\<lambda>_.
     bnd (asks (\<lambda>w. setLeaseCondition r ConditionReady ConditionFalse reason message w
                       (setPhase PhaseFailed message lease))) (\<lambda>lease.
     bnd (wrapErr ''update lease status to Failed'' (updateLeaseStatus (lr_Client r) lease)) (\<lambda>lease.
     bnd (act (rt_Metric (lr_Runtime r)
                 (LeaseAcquireFailuresTotal (ref_Name (deploymentOf lease)) reason))) (\<lambda>_.
     bnd (act (lrEvent r lease EventTypeWarning reason message)) (\<lambda>_.
     ret resultDone))))))"

definition reconcileDeletion :: "'w GPULeaseReconciler \<Rightarrow> GPULease \<Rightarrow> ('w, Result) go" where
  "reconcileDeletion r lease =
     (if \<not> ContainsFinalizer (lrLib r) lease Finalizer then ret resultDone
      else
        bnd (if leasePhase lease \<noteq> PhaseReleasing
             then wrapErr ''update lease status to Releasing''
                    (updateLeaseStatus (lr_Client r)
                       (lease\<lparr>l_Status := (l_Status lease)\<lparr>lt_Phase := PhaseReleasing\<rparr>\<rparr>))
             else ret lease) (\<lambda>lease.
        bnd (deleteWorkload r lease) (\<lambda>_.
        bnd (act (releaseClaimPod r lease)) (\<lambda>_.
        bnd (wrapErr ''remove finalizer''
               (updateLease (lr_Client r) (RemoveFinalizer (lrLib r) lease Finalizer))) (\<lambda>lease.
        bnd (act (lrEvent r lease EventTypeNormal EventReasonReleased
               (Sprintf ''released GPU lease (node %s, gpu %d)'' [FStr (leaseNode lease), FInt (leaseGPU lease)])))
        (\<lambda>_. ret resultDone))))))"

section \<open>Pending\<close>

definition createWorkload ::
    "'w GPULeaseReconciler \<Rightarrow> GPULease \<Rightarrow> Workload \<Rightarrow> ('w, Result) go" where
  "createWorkload r lease want =
     bnd (wrapErr ''set owner reference on workload''
            (query (\<lambda>_. SetControllerReference (lrLib r) lease want))) (\<lambda>want.
     bnd (attempt (createWorkloadObj (lr_Client r) want)) (\<lambda>res.
     bnd (case res of
            Inl err \<Rightarrow> if IsAlreadyExists err then ret () else throw (Wrap ''create workload'' err)
          | Inr _ \<Rightarrow> ret ()) (\<lambda>_.
     bnd (if lt_WorkloadName (l_Status lease) \<noteq> om_Name (wl_Meta want)
          then wrapErr ''record workload name on lease''
                 (updateLeaseStatus (lr_Client r)
                    (lease\<lparr>l_Status := (l_Status lease)\<lparr>lt_WorkloadName := om_Name (wl_Meta want)\<rparr>\<rparr>))
          else ret lease) (\<lambda>_.
     ret (resultAfter pollInterval)))))"

definition admitMessage :: "'w GPULeaseReconciler \<Rightarrow> GPULease \<Rightarrow> Workload \<Rightarrow> 'w \<Rightarrow> msg" where
  "admitMessage r lease wl w =
     (let flavor = fst (assignedFlavor wl);
          message = Sprintf ''admitted with ResourceFlavor %q'' [FStr flavor]
      in case expectedFlavorForNode (lr_Client r) (leaseNode lease) w of
           Inl err \<Rightarrow> message
         | Inr expected \<Rightarrow>
             if expected \<noteq> flavor
             then Sprintf ''%s (expected %q for node %s; proceeding anyway, this check is diagnostic-only)''
                    [FMsg message, FStr expected, FStr (leaseNode lease)]
             else message)"

definition flavorMismatchEvent :: "'w GPULeaseReconciler \<Rightarrow> GPULease \<Rightarrow> Workload \<Rightarrow> 'w \<Rightarrow> 'w" where
  "flavorMismatchEvent r lease wl w =
     (let flavor = fst (assignedFlavor wl)
      in case expectedFlavorForNode (lr_Client r) (leaseNode lease) w of
           Inl err \<Rightarrow> w
         | Inr expected \<Rightarrow>
             if expected \<noteq> flavor
             then lrEvent r lease EventTypeWarning EventReasonFlavorMismatch
                    (Sprintf ''Workload %s admitted with flavor %q but node %s expected flavor %q''
                       [FStr (om_Name (wl_Meta wl)), FStr flavor, FStr (leaseNode lease), FStr expected]) w
             else w)"

definition admitLease :: "'w GPULeaseReconciler \<Rightarrow> GPULease \<Rightarrow> Workload \<Rightarrow> ('w, Result) go" where
  "admitLease r lease wl =
     bnd (asks (admitMessage r lease wl)) (\<lambda>message.
     bnd (act (flavorMismatchEvent r lease wl)) (\<lambda>_.
     bnd (asks (\<lambda>w. let lease = setPhase PhaseAdmitted message lease;
                        lease = lease\<lparr>l_Status := (l_Status lease)\<lparr>lt_AdmittedAt := Some (lrNow r w)\<rparr>\<rparr>
                    in setLeaseCondition r ConditionQuotaReserved ConditionTrue ''Admitted'' message w lease))
       (\<lambda>lease.
     bnd (wrapErr ''update lease status to Admitted'' (updateLeaseStatus (lr_Client r) lease)) (\<lambda>lease.
     bnd (act (lrEvent r lease EventTypeNormal EventReasonQuotaReserved message)) (\<lambda>_.
     ret resultRequeue)))))"

definition evaluateAdmission :: "'w GPULeaseReconciler \<Rightarrow> GPULease \<Rightarrow> Workload \<Rightarrow> ('w, Result) go" where
  "evaluateAdmission r lease wl =
     (if isWorkloadAdmitted (lrLib r) wl then admitLease r lease wl
      else case workloadInadmissible (lrLib r) wl of
        (True, kueueMsg) \<Rightarrow>
          transitionToFailed r lease ReasonQueueMisconfigured
            (Sprintf ''Workload %s is Inadmissible (misconfigured LocalQueue %q): %s''
               [FStr (om_Name (wl_Meta wl)), FStr (ws_QueueName (wl_Spec wl)), FMsg kueueMsg])
      | (False, _) \<Rightarrow>
          bnd (asks (deploymentSettings r lease)) (\<lambda>settings.
          bnd (asks (\<lambda>w. time_sub (lrNow r w) (admissionAnchor (lrLib r) wl))) (\<lambda>elapsed.
          if elapsed \<ge> AdmissionTimeout settings
          then transitionToFailed r lease ReasonQuotaExhaustedOnNode
                 (Sprintf ''Workload %s not admitted within admission-timeout (%s): %s''
                    [FStr (om_Name (wl_Meta wl)), FDur (AdmissionTimeout settings),
                     FMsg (quotaReservedMessage (lrLib r) wl)])
          else ret (resultAfter (nextPoll (wrap64 (AdmissionTimeout settings - elapsed)))))))"

definition reconcilePending :: "'w GPULeaseReconciler \<Rightarrow> GPULease \<Rightarrow> ('w, Result) go" where
  "reconcilePending r lease =
     (let want = buildWorkload lease in
      bnd (asks (getWorkload (lr_Client r) (om_Namespace (wl_Meta want)) (om_Name (wl_Meta want))))
        (\<lambda>got. case got of
           Inl err \<Rightarrow>
             if IsNotFound err then createWorkload r lease want
             else throw (Wrap ''get workload'' err)
         | Inr existing \<Rightarrow>
             if \<not> workloadMatchesSpec (lrLib r) existing want
             then bnd (attempt (deleteWorkloadObj (lr_Client r)
                         (om_Namespace (wl_Meta existing)) (om_Name (wl_Meta existing))))
                    (\<lambda>res. case res of
                       Inl err \<Rightarrow> if IsNotFound err then ret resultRequeue
                                  else throw (Wrap ''delete stale workload'' err)
                     | Inr _ \<Rightarrow> ret resultRequeue)
             else evaluateAdmission r lease existing))"

section \<open>Admitted, Activating, Bound\<close>

definition activateRequest :: "GPULease \<Rightarrow> ActivateRequest" where
  "activateRequest lease =
     \<lparr> ar_LeaseName = leaseName lease, ar_Node = leaseNode lease, ar_GPUID = leaseGPU lease,
       ar_GPUModel = ls_GPUModel (l_Spec lease) \<rparr>"

definition podRefArgs :: "Pod \<Rightarrow> fmtarg list" where
  "podRefArgs pod = [FStr (podNamespace pod), FStr (podName pod)]"

text \<open>
  \<open>withClaim\<close> is the prologue the three handlers share: get the claim pod, and fail the lease
  when its claim is no longer valid.
\<close>

definition withClaim ::
    "'w GPULeaseReconciler \<Rightarrow> GPULease \<Rightarrow> string \<Rightarrow> (Pod \<Rightarrow> ('w, Result) go) \<Rightarrow> ('w, Result) go" where
  "withClaim r lease fmt k =
     bnd (query (getClaimPod r lease)) (\<lambda>pod.
       let reason = leaseOrphanReason pod lease None in
       if reason \<noteq> '''' then transitionToFailed r lease reason (Sprintf fmt [FStr reason])
       else case pod of None \<Rightarrow> throw (Errorf ''nil pod'') | Some p \<Rightarrow> k p)"

definition reconcileAdmitted :: "'w GPULeaseReconciler \<Rightarrow> GPULease \<Rightarrow> ('w, Result) go" where
  "reconcileAdmitted r lease =
     withClaim r lease ''claim pod invalid before activation: reason %s'' (\<lambda>pod.
       if p_PodIP pod = '''' then
         transitionToFailed r lease ReasonPodUnreachable
           (Sprintf ''claim pod %s/%s has no PodIP yet'' (podRefArgs pod))
       else
         bnd (attempt (cl_Activate (lr_PodClient r) (p_PodIP pod) (activateRequest lease))) (\<lambda>activateErr.
           case activateErr of
             Inl err \<Rightarrow>
               if errorsIs err ErrPodNodeMismatch then
                 transitionToFailed r lease ReasonNodeMismatch
                   (Sprintf ''pod %s/%s rejected activation: node mismatch'' (podRefArgs pod))
               else
                 transitionToFailed r lease ReasonPodUnreachable
                   (Sprintf ''POST /lease to pod %s/%s (%s) failed: %v''
                      (podRefArgs pod @ [FStr (p_PodIP pod), FErr err]))
           | Inr _ \<Rightarrow>
               let message = Sprintf ''POST /lease accepted by pod %s/%s; waiting for state hot'' (podRefArgs pod) in
               bnd (asks (\<lambda>w. setLeaseCondition r ConditionPodActivated ConditionFalse ''Activating'' message w
                                 (setPhase PhaseActivating message lease))) (\<lambda>lease.
               bnd (wrapErr ''update lease status to Activating'' (updateLeaseStatus (lr_Client r) lease)) (\<lambda>lease.
               bnd (act (lrEvent r lease EventTypeNormal EventReasonActivating message)) (\<lambda>_.
               ret (resultAfter pollInterval))))))"

definition bindLease :: "'w GPULeaseReconciler \<Rightarrow> GPULease \<Rightarrow> Pod \<Rightarrow> ('w, Result) go" where
  "bindLease r lease pod =
     bnd (wrapErr ''mark pod hot'' (markPodHot (lr_Client r) pod lease)) (\<lambda>pod.
     (let message = Sprintf ''pod %s/%s reported state hot'' (podRefArgs pod) in
      bnd (asks (\<lambda>w. let lease = setPhase PhaseBound message lease;
                         lease = lease\<lparr>l_Status := (l_Status lease)\<lparr>lt_BoundAt := Some (lrNow r w)\<rparr>\<rparr>;
                         lease = setLeaseCondition r ConditionPodActivated ConditionTrue ''Hot'' message w lease
                     in setLeaseCondition r ConditionReady ConditionTrue ''Bound'' message w lease)) (\<lambda>lease.
      bnd (wrapErr ''update lease status to Bound'' (updateLeaseStatus (lr_Client r) lease)) (\<lambda>lease.
      bnd (act (lrEvent r lease EventTypeNormal EventReasonBound (Sprintf ''%s; lease bound'' [FMsg message]))) (\<lambda>_.
      ret (resultAfter boundPollInterval))))))"

definition reconcileActivating :: "'w GPULeaseReconciler \<Rightarrow> GPULease \<Rightarrow> ('w, Result) go" where
  "reconcileActivating r lease =
     withClaim r lease ''claim pod invalid during activation: reason %s'' (\<lambda>pod.
       bnd (attempt (cl_State (lr_PodClient r) (p_PodIP pod))) (\<lambda>st.
         if (case st of Inl _ \<Rightarrow> False | Inr s \<Rightarrow> sr_State s = PcStateHot)
         then bindLease r lease pod
         else
           bnd (asks (deploymentSettings r lease)) (\<lambda>settings.
           bnd (asks (\<lambda>w. time_sub (lrNow r w) (podActivatedAnchor (lrLib r) lease))) (\<lambda>elapsed.
           if elapsed \<ge> ActivationTimeout settings
           then transitionToFailed r lease ReasonActivationTimeout
                  (Sprintf ''pod %s/%s did not report state hot within activation-timeout (%s)''
                     (podRefArgs pod @ [FDur (ActivationTimeout settings)]))
           else ret (resultAfter (nextPoll (wrap64 (ActivationTimeout settings - elapsed))))))))"

definition reconcileBound :: "'w GPULeaseReconciler \<Rightarrow> GPULease \<Rightarrow> ('w, Result) go" where
  "reconcileBound r lease =
     withClaim r lease ''claim pod invalid while bound: reason %s''
       (\<lambda>_. ret (resultAfter boundPollInterval))"

section \<open>Reconcile\<close>

definition reconcilePhase :: "'w GPULeaseReconciler \<Rightarrow> GPULease \<Rightarrow> ('w, Result) go" where
  "reconcilePhase r lease =
     (case leasePhase lease of
        PhaseUnset \<Rightarrow> reconcilePending r lease
      | PhasePending \<Rightarrow> reconcilePending r lease
      | PhaseAdmitted \<Rightarrow> reconcileAdmitted r lease
      | PhaseActivating \<Rightarrow> reconcileActivating r lease
      | PhaseBound \<Rightarrow> reconcileBound r lease
      | PhaseFailed \<Rightarrow> ret resultDone
      | PhaseReleasing \<Rightarrow> ret resultDone
      | PhaseUnknown _ \<Rightarrow> ret resultDone)"

definition leaseReconcile :: "'w GPULeaseReconciler \<Rightarrow> string \<Rightarrow> ('w, Result) go" where
  "leaseReconcile r name =
     bnd (asks (getLease (lr_Client r) name)) (\<lambda>got. case got of
       Inl err \<Rightarrow> if IsNotFound err then ret resultDone else throw (Wrap ''get GPULease'' err)
     | Inr lease \<Rightarrow>
         if leaseDeleting lease then andFinally (reconcileDeletion r lease) (refreshMetrics r)
         else if \<not> ContainsFinalizer (lrLib r) lease Finalizer then
           bnd (wrapErr ''add finalizer''
                  (updateLease (lr_Client r) (AddFinalizer (lrLib r) lease Finalizer)))
             (\<lambda>_. ret resultRequeue)
         else andFinally (reconcilePhase r lease) (refreshMetrics r))"

end
