(* ===== verification/LeaseProtocol.thy ===== *)
theory LeaseProtocol
  imports Types
begin

text \<open>
  The abstract specification of what may happen to the set of GPULeases: an atomic step creates
  a lease under its derived name, moves its phase along an edge of the state machine, adds or
  strips the finalizer, marks it deleted, or removes it. Safety properties are invariants of
  this relation; that both reconcilers only ever make such steps, whatever the interleaving,
  is shown where they are connected to an API server.
\<close>

type_synonym lstore = "string \<rightharpoonup> GPULease"

section \<open>Steps\<close>

text \<open>The edges of the state machine (\<open>design.md\<close> 4.7); a lease under deletion only becomes Releasing.\<close>

fun phase_edge :: "GPULeasePhase \<Rightarrow> GPULeasePhase \<Rightarrow> bool" where
  "phase_edge PhaseUnset q = (q \<in> {PhaseUnset, PhaseAdmitted, PhaseFailed})"
| "phase_edge PhasePending q = (q \<in> {PhasePending, PhaseAdmitted, PhaseFailed})"
| "phase_edge PhaseAdmitted q = (q \<in> {PhaseActivating, PhaseFailed})"
| "phase_edge PhaseActivating q = (q \<in> {PhaseBound, PhaseFailed})"
| "phase_edge PhaseBound q = (q = PhaseFailed)"
| "phase_edge PhaseFailed q = False"
| "phase_edge PhaseReleasing q = False"
| "phase_edge (PhaseUnknown u) q = False"

text \<open>The time stamps a status write must carry.\<close>

definition stamps_ok :: "GPULeaseStatus \<Rightarrow> GPULeaseStatus \<Rightarrow> bool" where
  "stamps_ok s s' \<longleftrightarrow>
     (if lt_Phase s' = PhaseAdmitted then lt_AdmittedAt s' \<noteq> None else lt_AdmittedAt s' = lt_AdmittedAt s) \<and>
     (if lt_Phase s' = PhaseBound then lt_BoundAt s' \<noteq> None else lt_BoundAt s' = lt_BoundAt s)"

definition status_allowed :: "GPULease \<Rightarrow> GPULeaseStatus \<Rightarrow> bool" where
  "status_allowed l st \<longleftrightarrow>
     (if leaseDeleting l then lt_Phase st = PhaseReleasing \<and> lt_AdmittedAt st = lt_AdmittedAt (l_Status l) \<and>
         lt_BoundAt st = lt_BoundAt (l_Status l)
      else phase_edge (leasePhase l) (lt_Phase st) \<and> stamps_ok (l_Status l) st)"

text \<open>When the release finalizer may be stripped.\<close>

definition strip_allowed :: "GPULease \<Rightarrow> bool" where
  "strip_allowed l \<longleftrightarrow> (if leaseDeleting l then leasePhase l = PhaseReleasing else leasePhase l = PhaseFailed)"

text \<open>Two versions of a lease that differ at most in the resource version and what is named.\<close>

definition setVersion :: "nat \<Rightarrow> GPULease \<Rightarrow> GPULease" where
  "setVersion v l = l\<lparr>l_Meta := (l_Meta l)\<lparr>om_ResourceVersion := v\<rparr>\<rparr>"

definition setFinalizers :: "string list \<Rightarrow> GPULease \<Rightarrow> GPULease" where
  "setFinalizers fs l = l\<lparr>l_Meta := (l_Meta l)\<lparr>om_Finalizers := fs\<rparr>\<rparr>"

definition markDeleted :: "gotime \<Rightarrow> GPULease \<Rightarrow> GPULease" where
  "markDeleted t l = l\<lparr>l_Meta := (l_Meta l)\<lparr>om_DeletionTimestamp := Some t\<rparr>\<rparr>"

lemmas lease_update_defs = setVersion_def setFinalizers_def markDeleted_def

definition wellNamed :: "GPULease \<Rightarrow> bool" where
  "wellNamed l \<longleftrightarrow> leaseName l = LeaseName (leaseNode l) (leaseGPU l) \<and> 0 \<le> leaseGPU l"

inductive lease_step :: "lstore \<Rightarrow> lstore \<Rightarrow> bool" where
  create: "s n = None \<Longrightarrow> leaseName l = n \<Longrightarrow> wellNamed l \<Longrightarrow> \<not> leaseDeleting l \<Longrightarrow>
     Finalizer \<in> set (leaseFinalizers l) \<Longrightarrow> l_Status l = emptyStatus \<Longrightarrow> lease_step s (s(n \<mapsto> l))"
| status: "s n = Some l \<Longrightarrow> status_allowed l st \<Longrightarrow>
     lease_step s (s(n \<mapsto> setVersion v (l\<lparr>l_Status := st\<rparr>)))"
| protect: "s n = Some l \<Longrightarrow> \<not> leaseDeleting l \<Longrightarrow> set (leaseFinalizers l) \<subseteq> set fs \<Longrightarrow>
     lease_step s (s(n \<mapsto> setVersion v (setFinalizers fs l)))"
| strip: "s n = Some l \<Longrightarrow> strip_allowed l \<Longrightarrow>
     lease_step s (s(n := if leaseDeleting l \<and> fs = [] then None else Some (setVersion v (setFinalizers fs l))))"
| mark: "s n = Some l \<Longrightarrow> lease_step s (s(n \<mapsto> setVersion v (markDeleted t l)))"
| remove: "s n = Some l \<Longrightarrow> leaseFinalizers l = [] \<Longrightarrow> lease_step s (s(n := None))"

inductive_cases lease_stepE [elim]: "lease_step s s'"

section \<open>Invariants\<close>

text \<open>
  Every lease is filed under the name derived from its (node, GPU) pair; a lease without the
  finalizer has failed or is past its release; a lease under deletion never goes back.
\<close>

definition lease_ok :: "string \<Rightarrow> GPULease \<Rightarrow> bool" where
  "lease_ok n l \<longleftrightarrow>
     leaseName l = n \<and> wellNamed l \<and>
     (Finalizer \<notin> set (leaseFinalizers l) \<longrightarrow>
        leasePhase l = PhaseFailed \<or> leasePhase l = PhaseReleasing) \<and>
     (leasePhase l \<in> {PhaseAdmitted, PhaseActivating, PhaseBound} \<longrightarrow> lt_AdmittedAt (l_Status l) \<noteq> None) \<and>
     (leasePhase l = PhaseBound \<longrightarrow> lt_BoundAt (l_Status l) \<noteq> None) \<and>
     (leasePhase l = PhaseReleasing \<longrightarrow> leaseDeleting l)"

definition lease_inv :: "lstore \<Rightarrow> bool" where
  "lease_inv s \<longleftrightarrow> (\<forall>n l. s n = Some l \<longrightarrow> lease_ok n l)"

lemma lease_inv_empty: "lease_inv Map.empty"
  by (simp add: lease_inv_def)

lemma lease_inv_update: "lease_inv s \<Longrightarrow> lease_ok n l \<Longrightarrow> lease_inv (s(n \<mapsto> l))"
  by (simp add: lease_inv_def)

lemma lease_inv_remove: "lease_inv s \<Longrightarrow> lease_inv (s(n := None))"
  by (simp add: lease_inv_def)

lemma lease_inv_at: "lease_inv s \<Longrightarrow> s n = Some l \<Longrightarrow> lease_ok n l"
  by (simp add: lease_inv_def)

lemma phase_edge_target:
  "phase_edge p q \<Longrightarrow> q \<noteq> PhaseReleasing"
  "phase_edge p PhaseActivating \<Longrightarrow> p = PhaseAdmitted"
  "phase_edge p PhaseBound \<Longrightarrow> p = PhaseActivating"
  by (cases p; auto)+

lemma phase_edge_source: "phase_edge p q \<Longrightarrow> p \<noteq> PhaseFailed \<and> p \<noteq> PhaseReleasing"
  by (cases p) auto

lemma lease_ok_status:
  assumes ok: "lease_ok n l" and allowed: "status_allowed l st"
  shows "lease_ok n (setVersion v (l\<lparr>l_Status := st\<rparr>))"
proof (cases "leaseDeleting l")
  case True
  with assms show ?thesis
    by (auto simp: lease_ok_def setVersion_def status_allowed_def wellNamed_def)
next
  case False
  then have edge: "phase_edge (leasePhase l) (lt_Phase st)" and stamps: "stamps_ok (l_Status l) st"
    using allowed by (auto simp: status_allowed_def)
  have "lt_AdmittedAt st \<noteq> None" if "lt_Phase st = PhaseAdmitted"
    using that stamps by (simp add: stamps_ok_def)
  moreover have "lt_AdmittedAt st \<noteq> None" if ph: "lt_Phase st = PhaseActivating \<or> lt_Phase st = PhaseBound"
  proof -
    have "leasePhase l = PhaseAdmitted \<or> leasePhase l = PhaseActivating"
      using ph edge phase_edge_target(2,3) [of "leasePhase l"] by metis
    then have "lt_AdmittedAt (l_Status l) \<noteq> None" using ok by (auto simp: lease_ok_def)
    with ph stamps show ?thesis by (auto simp: stamps_ok_def)
  qed
  moreover have "Finalizer \<in> set (leaseFinalizers l)"
    using phase_edge_source [OF edge] ok by (auto simp: lease_ok_def)
  moreover have "lt_BoundAt st \<noteq> None" if "lt_Phase st = PhaseBound"
    using that stamps by (simp add: stamps_ok_def)
  ultimately show ?thesis
    using ok phase_edge_target(1) [OF edge] by (auto simp: lease_ok_def setVersion_def wellNamed_def)
qed

lemma lease_ok_meta:
  assumes "lease_ok n l" and "leaseName l' = leaseName l" and "l_Spec l' = l_Spec l"
    and "l_Status l' = l_Status l" and "leaseDeleting l \<Longrightarrow> leaseDeleting l'"
    and "Finalizer \<in> set (leaseFinalizers l) \<Longrightarrow> Finalizer \<notin> set (leaseFinalizers l') \<Longrightarrow>
           leasePhase l = PhaseFailed \<or> leasePhase l = PhaseReleasing"
  shows "lease_ok n l'"
  using assms unfolding lease_ok_def wellNamed_def by metis

lemma lease_step_inv: "lease_step s s' \<Longrightarrow> lease_inv s \<Longrightarrow> lease_inv s'"
proof (induction rule: lease_step.induct)
  case (create s n l)
  then have "lease_ok n l" by (simp add: lease_ok_def emptyStatus_def)
  with create.prems show ?case by (rule lease_inv_update)
next
  case (status s n l st v)
  then show ?case by (blast intro: lease_inv_update lease_ok_status lease_inv_at)
next
  case (protect s n l fs v)
  from protect.prems protect.hyps(1) have "lease_ok n l" by (rule lease_inv_at)
  then have "lease_ok n (setVersion v (setFinalizers fs l))"
    by (rule lease_ok_meta) (use protect.hyps in \<open>auto simp: lease_update_defs\<close>)
  with protect.prems show ?case by (rule lease_inv_update)
next
  case (strip s n l fs v)
  from strip.prems strip.hyps(1) have "lease_ok n l" by (rule lease_inv_at)
  then have "lease_ok n (setVersion v (setFinalizers fs l))"
    by (rule lease_ok_meta)
      (use strip.hyps in \<open>auto simp: lease_update_defs strip_allowed_def split: if_splits\<close>)
  with strip.prems show ?case by (auto simp: lease_inv_def)
next
  case (mark s n l v t)
  from mark.prems mark.hyps(1) have "lease_ok n l" by (rule lease_inv_at)
  then have "lease_ok n (setVersion v (markDeleted t l))"
    by (rule lease_ok_meta) (auto simp: lease_update_defs)
  with mark.prems show ?case by (rule lease_inv_update)
next
  case (remove s n l)
  from remove.prems show ?case by (rule lease_inv_remove)
qed

lemma lease_steps_inv: "lease_step\<^sup>*\<^sup>* s s' \<Longrightarrow> lease_inv s \<Longrightarrow> lease_inv s'"
  by (induction rule: rtranclp_induct) (auto intro: lease_step_inv)

section \<open>Consequences\<close>

text \<open>No two leases hold the same GPU.\<close>

lemma lease_inv_exclusive:
  assumes "lease_inv s" and "s n = Some l" and "s m = Some k"
    and "leaseNode l = leaseNode k" and "leaseGPU l = leaseGPU k"
  shows "n = m \<and> l = k"
proof -
  have "n = LeaseName (leaseNode l) (leaseGPU l)" and "m = LeaseName (leaseNode k) (leaseGPU k)"
    using lease_inv_at [OF assms(1,2)] lease_inv_at [OF assms(1,3)]
    by (auto simp: lease_ok_def wellNamed_def)
  with assms show ?thesis by simp
qed

text \<open>A lease disappears only from phase Failed or Releasing.\<close>

lemma lease_step_removal:
  assumes "lease_step s s'" and "lease_inv s" and "s n = Some l" and "s' n = None"
  shows "leasePhase l = PhaseFailed \<or> leasePhase l = PhaseReleasing"
  using assms(1)
proof cases
  case (strip m k fs v)
  with assms(3,4) show ?thesis by (auto simp: strip_allowed_def split: if_splits)
next
  case (remove m k)
  with assms show ?thesis by (auto simp: lease_inv_def lease_ok_def split: if_splits)
qed (use assms(3,4) in \<open>auto split: if_splits\<close>)

text \<open>A lease that stays is the same object and keeps what it was created for.\<close>

definition sameClaim :: "GPULease \<Rightarrow> GPULease \<Rightarrow> bool" where
  "sameClaim l l' \<longleftrightarrow> l_Spec l' = l_Spec l \<and> leaseName l' = leaseName l"

definition sameObject :: "GPULease \<Rightarrow> GPULease \<Rightarrow> bool" where
  "sameObject l l' \<longleftrightarrow> sameClaim l l' \<and> om_UID (l_Meta l') = om_UID (l_Meta l)"

lemma sameObject_refl [simp]: "sameObject l l"
  by (simp add: sameObject_def sameClaim_def)

lemma sameObject_trans: "sameObject l l' \<Longrightarrow> sameObject l' l'' \<Longrightarrow> sameObject l l''"
  by (simp add: sameObject_def sameClaim_def)

lemma lease_step_object:
  assumes "lease_step s s'" and "s n = Some l" and "s' n = Some l'"
  shows "sameObject l l'"
  using assms(1)
  by cases (use assms(2,3) in \<open>auto simp: sameObject_def sameClaim_def lease_update_defs split: if_splits\<close>)

text \<open>The order of the phases: how far a lease has come; failing is the way down.\<close>

fun phase_rank :: "GPULeasePhase \<Rightarrow> nat" where
  "phase_rank PhaseUnset = 0"
| "phase_rank PhasePending = 0"
| "phase_rank PhaseAdmitted = 1"
| "phase_rank PhaseActivating = 2"
| "phase_rank PhaseBound = 3"
| "phase_rank PhaseFailed = 4"
| "phase_rank PhaseReleasing = 5"
| "phase_rank (PhaseUnknown u) = 0"

lemma phase_edge_rank: "phase_edge p q \<Longrightarrow> phase_rank p \<le> phase_rank q"
  by (cases p) auto

lemma phase_rank_le: "phase_rank p \<le> 5"
  by (cases p) auto

lemma lease_step_rank:
  assumes "lease_step s s'" and "s n = Some l" and "s' n = Some l'"
  shows "phase_rank (leasePhase l) \<le> phase_rank (leasePhase l')"
  using assms(1)
proof cases
  case (status m k st v)
  with assms(2,3) show ?thesis
    by (auto simp: status_allowed_def lease_update_defs phase_rank_le dest: phase_edge_rank split: if_splits)
qed (use assms(2,3) in \<open>auto simp: lease_update_defs split: if_splits\<close>)

section \<open>Runs and their history\<close>

text \<open>
  A run through states that satisfy \<open>P\<close>. The history of an API server maps a name and a resource
  version to the object that had it; \<open>recorded h s\<close>: the objects of \<open>s\<close> are in the history \<open>h\<close>.
\<close>

type_synonym lhist = "string \<times> nat \<Rightarrow> GPULease option"

definition lease_path :: "(lstore \<Rightarrow> bool) \<Rightarrow> lstore \<Rightarrow> lstore \<Rightarrow> bool" where
  "lease_path P = (\<lambda>s s'. lease_step s s' \<and> P s')\<^sup>*\<^sup>*"

definition recorded :: "lhist \<Rightarrow> lstore \<Rightarrow> bool" where
  "recorded h s \<longleftrightarrow> (\<forall>n l. s n = Some l \<longrightarrow> h (n, leaseVersion l) = Some l)"

lemma recorded_mono: "recorded h s \<Longrightarrow> h \<subseteq>\<^sub>m h' \<Longrightarrow> recorded h' s"
  by (auto simp: recorded_def map_le_def dom_def)

lemma lease_path_refl [simp]: "lease_path P s s"
  by (simp add: lease_path_def)

lemma lease_path_trans: "lease_path P s s' \<Longrightarrow> lease_path P s' s'' \<Longrightarrow> lease_path P s s''"
  by (auto simp: lease_path_def)

lemma lease_path_step: "lease_step\<^sup>=\<^sup>= s s' \<Longrightarrow> P s' \<Longrightarrow> lease_path P s s'"
  by (auto simp: lease_path_def)

lemma lease_path_mono: "lease_path P s s' \<Longrightarrow> (\<And>t. P t \<Longrightarrow> Q t) \<Longrightarrow> lease_path Q s s'"
  unfolding lease_path_def by (rule mono_rtranclp [rule_format, of "\<lambda>s s'. lease_step s s' \<and> P s'"]) auto

lemma lease_path_steps: "lease_path P s s' \<Longrightarrow> lease_step\<^sup>*\<^sup>* s s'"
  unfolding lease_path_def by (rule mono_rtranclp [rule_format, of "\<lambda>s s'. lease_step s s' \<and> P s'"]) auto

text \<open>On the way to a store without it, an object was Failed or Releasing.\<close>

lemma lease_path_removal:
  assumes "lease_path P s s'" and "lease_inv s" and "P s" and "s n = Some l" and "s' n = None"
  shows "\<exists>s1 l1. P s1 \<and> s1 n = Some l1 \<and> sameObject l l1 \<and> (leasePhase l1 = PhaseFailed \<or> leasePhase l1 = PhaseReleasing)"
  using assms unfolding lease_path_def
proof (induction arbitrary: l rule: converse_rtranclp_induct)
  case (step s t)
  then have st: "lease_step s t" "P t" by simp_all
  show ?case
  proof (cases "t n")
    case None
    then show ?thesis using lease_step_removal [OF st(1)] step.prems by (intro exI [of _ s] exI [of _ l]) simp
  next
    case (Some l')
    have "lease_inv t" using lease_step_inv [OF st(1)] step.prems by blast
    from step.IH [OF this st(2) Some step.prems(4)] lease_step_object [OF st(1) step.prems(3) Some] show ?thesis
      using sameObject_trans by blast
  qed
qed simp

end
