(* ===== verification/ApiServer.thy ===== *)
theory ApiServer
  imports LeaseProtocol Env
begin

text \<open>
  The interfaces of the code that is not part of the repository, as locales: what the
  apimachinery and controller-runtime helpers document (\<open>k8s_lib\<close>), and what an API server
  guarantees to a client that is not alone (\<open>lease_server\<close>). In the latter the set of stored
  leases is a view of the world; other actors, who keep to \<open>lease_step\<close>, may act before every
  write takes effect; reads may be stale, but an object read with some resource version is the
  object that had this version; a failed write may or may not have taken effect. How much the
  history of versions tells of the states the store went through is a parameter, \<open>log\<close>: nothing in
  general, every stored version for a server that keeps them all (\<open>recorded\<close>).
\<close>

section \<open>Library helpers\<close>

locale k8s_lib =
  fixes lib :: K8sLib
  assumes contains_finalizer: "ContainsFinalizer lib l f \<longleftrightarrow> f \<in> set (leaseFinalizers l)"
    and add_finalizer: "AddFinalizer lib l f =
      (if f \<in> set (leaseFinalizers l) then l else setFinalizers (leaseFinalizers l @ [f]) l)"
    and remove_finalizer: "RemoveFinalizer lib l f = setFinalizers (filter (\<lambda>g. g \<noteq> f) (leaseFinalizers l)) l"
    and find_condition: "FindStatusCondition lib cs ty = find (\<lambda>c. cond_Type c = ty) cs"
    and set_condition_same: "FindStatusCondition lib (SetStatusCondition lib now cs c) (cond_Type c) =
      Some (case FindStatusCondition lib cs (cond_Type c) of
              None \<Rightarrow> c\<lparr>cond_LastTransitionTime := if cond_LastTransitionTime c = 0 then now else cond_LastTransitionTime c\<rparr>
            | Some old \<Rightarrow>
                if cond_Status old = cond_Status c
                then c\<lparr>cond_LastTransitionTime := cond_LastTransitionTime old\<rparr>
                else c\<lparr>cond_LastTransitionTime := if cond_LastTransitionTime c = 0 then now else cond_LastTransitionTime c\<rparr>)"
    and set_condition_other: "ty \<noteq> cond_Type c \<Longrightarrow>
      FindStatusCondition lib (SetStatusCondition lib now cs c) ty = FindStatusCondition lib cs ty"
    and deep_equal: "SemanticDeepEqual lib a b \<longleftrightarrow> a = b"
    and controller_reference: "SetControllerReference lib l wl = Inr wl' \<Longrightarrow>
      om_Name (wl_Meta wl') = om_Name (wl_Meta wl) \<and> om_Namespace (wl_Meta wl') = om_Namespace (wl_Meta wl) \<and>
      wl_Spec wl' = wl_Spec wl \<and> wl_Status wl' = wl_Status wl"
begin

lemma remove_finalizer_gone: "Finalizer \<notin> set (leaseFinalizers (RemoveFinalizer lib l Finalizer))"
  by (simp add: remove_finalizer setFinalizers_def)

end

section \<open>Effects of the writes\<close>

definition create_effect :: "GPULease \<Rightarrow> lstore \<Rightarrow> lstore \<Rightarrow> GPULease \<Rightarrow> bool" where
  "create_effect l s s' l' \<longleftrightarrow>
     s (leaseName l) = None \<and>
     leaseName l' = leaseName l \<and> l_Spec l' = l_Spec l \<and> leaseFinalizers l' = leaseFinalizers l \<and>
     \<not> leaseDeleting l' \<and> l_Status l' = emptyStatus \<and> s' = s(leaseName l \<mapsto> l')"

text \<open>
  The argument \<open>h\<close> of the next two is the history of versions: which object had which version.
\<close>

definition status_effect ::
    "lhist \<Rightarrow> GPULease \<Rightarrow> lstore \<Rightarrow> lstore \<Rightarrow> GPULease \<Rightarrow> bool" where
  "status_effect h l s s' l' \<longleftrightarrow>
     (\<exists>l0 v. s (leaseName l) = Some l0 \<and> leaseVersion l0 = leaseVersion l \<and>
        h (leaseName l, leaseVersion l) = Some l0 \<and>
        l' = setVersion v (l0\<lparr>l_Status := l_Status l\<rparr>) \<and> h (leaseName l, v) = Some l' \<and>
        s' = s(leaseName l \<mapsto> l'))"

definition update_effect ::
    "lhist \<Rightarrow> GPULease \<Rightarrow> lstore \<Rightarrow> lstore \<Rightarrow> GPULease \<Rightarrow> bool" where
  "update_effect h l s s' l' \<longleftrightarrow>
     (\<exists>l0 v. s (leaseName l) = Some l0 \<and> leaseVersion l0 = leaseVersion l \<and>
        h (leaseName l, leaseVersion l) = Some l0 \<and>
        l' = setVersion v (setFinalizers (leaseFinalizers l) (l0\<lparr>l_Spec := l_Spec l\<rparr>)) \<and>
        s' = s(leaseName l := if leaseDeleting l0 \<and> leaseFinalizers l = [] then None else Some l'))"

definition delete_effect :: "GPULease \<Rightarrow> lstore \<Rightarrow> lstore \<Rightarrow> bool" where
  "delete_effect l s s' \<longleftrightarrow>
     (\<exists>l0. s (leaseName l) = Some l0 \<and>
        (if leaseFinalizers l0 = [] then s' = s(leaseName l := None)
         else if leaseDeleting l0 then s' = s
         else \<exists>v t. s' = s(leaseName l \<mapsto> setVersion v (markDeleted t l0))))"

text \<open>
  A call: others act, through states that satisfy \<open>P\<close>, then the call takes effect; an error leaves
  open whether it did.
\<close>

definition commits ::
    "('w \<Rightarrow> lstore) \<Rightarrow> (lstore \<Rightarrow> bool) \<Rightarrow> (lstore \<Rightarrow> lstore \<Rightarrow> 'a \<Rightarrow> bool) \<Rightarrow> 'w \<Rightarrow> (goerr + 'a) \<times> 'w \<Rightarrow> bool" where
  "commits leases P eff w rw \<longleftrightarrow>
     (\<exists>s. lease_path P (leases w) s \<and>
        (case fst rw of
           Inr x \<Rightarrow> eff s (leases (snd rw)) x
         | Inl e \<Rightarrow> leases (snd rw) = s \<or> (\<exists>x. eff s (leases (snd rw)) x)))"

lemma commits_steps:
  assumes "commits leases P eff w rw" and "\<And>s s' x. eff s s' x \<Longrightarrow> lease_step\<^sup>=\<^sup>= s s'" and "P (leases (snd rw))"
  shows "lease_path P (leases w) (leases (snd rw))"
proof -
  obtain s where s: "lease_path P (leases w) s"
    and eff: "leases (snd rw) = s \<or> (\<exists>x. eff s (leases (snd rw)) x)"
    using assms(1) by (cases "fst rw") (auto simp: commits_def)
  from eff assms(2) have "lease_step\<^sup>=\<^sup>= s (leases (snd rw))" by blast
  from lease_path_trans [OF s lease_path_step [of s "leases (snd rw)" P, OF this assms(3)]] show ?thesis .
qed

text \<open>How a world may change: the leases by protocol steps, the history of versions by growing.\<close>

definition world_step ::
    "('w \<Rightarrow> lstore) \<Rightarrow> ('w \<Rightarrow> lhist) \<Rightarrow> (lhist \<Rightarrow> lstore \<Rightarrow> bool) \<Rightarrow> 'w \<Rightarrow> 'w \<Rightarrow> bool" where
  "world_step leases hist log w w' \<longleftrightarrow>
     lease_path (log (hist w')) (leases w) (leases w') \<and> hist w \<subseteq>\<^sub>m hist w'"

lemma world_step_refl: "world_step leases hist log w w"
  by (simp add: world_step_def)

section \<open>The API server\<close>

locale lease_server =
  fixes c :: "'w Client" and leases :: "'w \<Rightarrow> lstore" and hist :: "'w \<Rightarrow> lhist" and log :: "lhist \<Rightarrow> lstore \<Rightarrow> bool"
  assumes log_now: "log (hist w) (leases w)"
    and log_mono: "log h s \<Longrightarrow> h \<subseteq>\<^sub>m h' \<Longrightarrow> log h' s"
    and get_reads: "getLease c n w = Inr l \<Longrightarrow> leaseName l = n \<and> hist w (n, leaseVersion l) = Some l"
    and list_reads: "listLeases c w = Inr ls \<Longrightarrow> l \<in> set ls \<Longrightarrow>
      hist w (leaseName l, leaseVersion l) = Some l"
    and create_hist: "hist w \<subseteq>\<^sub>m hist (snd (createLease c l w))"
    and create_commits:
      "commits leases (log (hist (snd (createLease c l w)))) (create_effect l) w (createLease c l w)"
    and status_hist: "hist w \<subseteq>\<^sub>m hist (snd (updateLeaseStatus c l w))"
    and status_commits: "commits leases (log (hist (snd (updateLeaseStatus c l w))))
      (status_effect (hist (snd (updateLeaseStatus c l w))) l) w (updateLeaseStatus c l w)"
    and update_hist: "hist w \<subseteq>\<^sub>m hist (snd (updateLease c l w))"
    and update_commits: "commits leases (log (hist (snd (updateLease c l w))))
      (update_effect (hist (snd (updateLease c l w))) l) w (updateLease c l w)"
    and delete_hist: "hist w \<subseteq>\<^sub>m hist (snd (deleteLease c l w))"
    and delete_commits:
      "commits leases (log (hist (snd (deleteLease c l w)))) (\<lambda>s s' _. delete_effect l s s') w (deleteLease c l w)"
    and patch_pod: "world_step leases hist log w (snd (patchPod c p p' w))"
    and create_workload: "world_step leases hist log w (snd (createWorkloadObj c wl w))"
    and delete_workload: "world_step leases hist log w (snd (deleteWorkloadObj c ns n w))"
begin

definition W :: "'w \<Rightarrow> 'w \<Rightarrow> bool" where
  "W = world_step leases hist log"

lemma W_refl [simp, intro]: "W w w"
  by (simp add: W_def world_step_refl)

lemma W_trans:
  assumes "W w w'" and "W w' w''"
  shows "W w w''"
proof -
  have h: "hist w \<subseteq>\<^sub>m hist w'" "hist w' \<subseteq>\<^sub>m hist w''"
    and p: "lease_path (log (hist w')) (leases w) (leases w')" "lease_path (log (hist w'')) (leases w') (leases w'')"
    using assms by (simp_all add: W_def world_step_def)
  have "lease_path (log (hist w'')) (leases w) (leases w')"
    using p(1) by (rule lease_path_mono) (rule log_mono [OF _ h(2)])
  from lease_path_trans [OF this p(2)] map_le_trans [OF h] show ?thesis by (simp add: W_def world_step_def)
qed

lemma W_star [simp]: "W\<^sup>*\<^sup>* = W"
proof (intro ext iffI)
  show "W w w'" if "W\<^sup>*\<^sup>* w w'" for w w'
    using that by induction (auto intro: W_trans)
qed auto

text \<open>The client has seen this version of the lease.\<close>

definition knows :: "GPULease \<Rightarrow> 'w \<Rightarrow> bool" where
  "knows l w \<longleftrightarrow> hist w (leaseName l, leaseVersion l) = Some l"

lemma knows_stable: "knows l w \<Longrightarrow> W w w' \<Longrightarrow> knows l w'"
  by (auto simp: knows_def W_def world_step_def map_le_def dom_def)

lemma knows_get: "getLease c n w = Inr l \<Longrightarrow> knows l w"
  by (auto simp: knows_def dest: get_reads)

lemma knows_list: "listLeases c w = Inr ls \<Longrightarrow> l \<in> set ls \<Longrightarrow> knows l w"
  by (auto simp: knows_def dest: list_reads)

lemma hist_known: "knows l w \<Longrightarrow> hist w \<subseteq>\<^sub>m h \<Longrightarrow> h (leaseName l, leaseVersion l) = Some l"
  by (auto simp: knows_def map_le_def dom_def)

lemma status_effect_step:
  assumes "status_effect h l s s' l'" and "h (leaseName l, leaseVersion l) = Some l0"
    and "status_allowed l0 (l_Status l)"
  shows "lease_step\<^sup>=\<^sup>= s s'"
  using assms by (auto simp: status_effect_def intro: lease_step.status)

lemma update_effect_strip:
  assumes "update_effect h l s s' l'" and "h (leaseName l, leaseVersion l) = Some l0"
    and "l_Spec l = l_Spec l0" and "strip_allowed l0"
  shows "lease_step\<^sup>=\<^sup>= s s'"
proof -
  have "l0\<lparr>l_Spec := l_Spec l0\<rparr> = l0" by simp
  then show ?thesis
    using assms lease_step.strip [of s "leaseName l" l0 "leaseFinalizers l"]
    by (auto simp: update_effect_def)
qed

lemma update_effect_protect:
  assumes "update_effect h l s s' l'" and "h (leaseName l, leaseVersion l) = Some l0"
    and "l_Spec l = l_Spec l0" and "\<not> leaseDeleting l0"
    and "set (leaseFinalizers l0) \<subseteq> set (leaseFinalizers l)"
  shows "lease_step\<^sup>=\<^sup>= s s'"
proof -
  have "l0\<lparr>l_Spec := l_Spec l0\<rparr> = l0" by simp
  then show ?thesis
    using assms lease_step.protect [of s "leaseName l" l0 "leaseFinalizers l"]
    by (auto simp: update_effect_def)
qed

lemma delete_effect_step: "delete_effect l s s' \<Longrightarrow> lease_step\<^sup>=\<^sup>= s s'"
  by (auto simp: delete_effect_def intro: lease_step.remove lease_step.mark split: if_splits)

lemma create_effect_step:
  assumes "create_effect l s s' l'" and "wellNamed l" and "Finalizer \<in> set (leaseFinalizers l)"
  shows "lease_step\<^sup>=\<^sup>= s s'"
  using assms lease_step.create [of s "leaseName l" l']
  by (auto simp: create_effect_def wellNamed_def)

text \<open>The writes the reconcilers make, as rules of the program logic.\<close>

lemma status_W:
  assumes "knows l0 w" and "leaseName l = leaseName l0" and "leaseVersion l = leaseVersion l0"
    and "status_allowed l0 (l_Status l)"
  shows "W w (snd (updateLeaseStatus c l w))"
proof -
  have h: "hist (snd (updateLeaseStatus c l w)) (leaseName l, leaseVersion l) = Some l0"
    using hist_known [OF assms(1) status_hist] assms(2,3) by simp
  have "lease_step\<^sup>=\<^sup>= s s'" if "status_effect (hist (snd (updateLeaseStatus c l w))) l s s' l'" for s s' l'
    using status_effect_step [OF that h assms(4)] .
  then show ?thesis
    unfolding W_def world_step_def
    using commits_steps [OF status_commits] status_hist log_now by blast
qed

lemma status_result:
  assumes "knows l0 w" and "leaseName l = leaseName l0" and "leaseVersion l = leaseVersion l0"
    and "updateLeaseStatus c l w = (Inr l', w')"
  shows "knows l' w' \<and> (\<exists>v. l' = setVersion v (l0\<lparr>l_Status := l_Status l\<rparr>))"
proof -
  have h: "hist w' (leaseName l, leaseVersion l) = Some l0"
    using hist_known [OF assms(1) status_hist, of l] assms(2,3,4) by simp
  obtain s where "status_effect (hist w') l s (leases w') l'"
    using status_commits [where w = w and l = l] assms(4) by (auto simp: commits_def)
  then show ?thesis
    using h assms(2) by (auto simp: status_effect_def knows_def setVersion_def)
qed

lemma hoare_status [prog_rules]:
  assumes "leaseName l = leaseName l0" and "leaseVersion l = leaseVersion l0"
    and "status_allowed l0 (l_Status l)"
  shows "hoare (knows l0) W (updateLeaseStatus c l)
    (\<lambda>l' w. knows l' w \<and> (\<exists>v. l' = setVersion v (l0\<lparr>l_Status := l_Status l\<rparr>)))"
proof (rule hoareI)
  show "W\<^sup>*\<^sup>* w (snd (updateLeaseStatus c l w))" if "knows l0 w" for w
    using status_W [OF that assms] by simp
  show "knows x (snd (updateLeaseStatus c l w)) \<and> (\<exists>v. x = setVersion v (l0\<lparr>l_Status := l_Status l\<rparr>))"
    if "knows l0 w" and "fst (updateLeaseStatus c l w) = Inr x" for w x
    using status_result [OF that(1) assms(1,2)] that(2) by (metis prod.collapse)
qed

lemma update_strip_W:
  assumes "knows l0 w" and "strip_allowed l0"
  shows "W w (snd (updateLease c (setFinalizers fs l0) w))"
proof -
  let ?l = "setFinalizers fs l0"
  have h: "hist (snd (updateLease c ?l w)) (leaseName ?l, leaseVersion ?l) = Some l0"
    using hist_known [OF assms(1) update_hist] by (simp add: setFinalizers_def)
  have sp: "l_Spec ?l = l_Spec l0" by (simp add: setFinalizers_def)
  have "lease_step\<^sup>=\<^sup>= s s'" if "update_effect (hist (snd (updateLease c ?l w))) ?l s s' l'" for s s' l'
    using update_effect_strip [OF that h sp assms(2)] .
  then show ?thesis
    unfolding W_def world_step_def
    using commits_steps [OF update_commits] update_hist log_now by blast
qed

lemma update_protect_W:
  assumes "knows l0 w" and "\<not> leaseDeleting l0" and "set (leaseFinalizers l0) \<subseteq> set fs"
  shows "W w (snd (updateLease c (setFinalizers fs l0) w))"
proof -
  let ?l = "setFinalizers fs l0"
  have h: "hist (snd (updateLease c ?l w)) (leaseName ?l, leaseVersion ?l) = Some l0"
    using hist_known [OF assms(1) update_hist] by (simp add: setFinalizers_def)
  have sp: "l_Spec ?l = l_Spec l0" and fin: "set (leaseFinalizers l0) \<subseteq> set (leaseFinalizers ?l)"
    using assms(3) by (simp_all add: setFinalizers_def)
  have "lease_step\<^sup>=\<^sup>= s s'" if "update_effect (hist (snd (updateLease c ?l w))) ?l s s' l'" for s s' l'
    using update_effect_protect [OF that h sp assms(2) fin] .
  then show ?thesis
    unfolding W_def world_step_def
    using commits_steps [OF update_commits] update_hist log_now by blast
qed

lemma create_W:
  assumes "wellNamed l" and "Finalizer \<in> set (leaseFinalizers l)"
  shows "W w (snd (createLease c l w))"
  unfolding W_def world_step_def
  using commits_steps [OF create_commits] create_effect_step [OF _ assms] create_hist log_now by blast

lemma create_result:
  assumes "createLease c l w = (Inr l', w')"
  shows "leases w' (leaseName l) = Some l' \<and> leaseName l' = leaseName l \<and> l_Spec l' = l_Spec l \<and>
    leaseFinalizers l' = leaseFinalizers l"
  using create_commits [where w = w and l = l] assms by (auto simp: commits_def create_effect_def)

lemma delete_W: "W w (snd (deleteLease c l w))"
  unfolding W_def world_step_def
  using commits_steps [OF delete_commits] delete_effect_step delete_hist log_now by blast

lemma bystander_W [simp]:
  "W w (snd (patchPod c p p' w))" "W w (snd (createWorkloadObj c wl w))"
  "W w (snd (deleteWorkloadObj c ns n w))"
  by (simp_all add: W_def patch_pod create_workload delete_workload)

end

end
