(* ===== verification/LeaseSafety.thy ===== *)
theory LeaseSafety
  imports LeaseReconciler ApiServer
begin

text \<open>
  The GPULease reconciler keeps to the lease protocol: against any API server that satisfies
  \<open>lease_server\<close>, with other actors interfering and reads that may be stale, one call of
  \<open>Reconcile\<close> changes the stored leases only by steps of \<open>lease_step\<close>, whichever of its
  calls fail.
\<close>

section \<open>The reconciler's environment\<close>

locale lease_env = lease_server "lr_Client r" leases hist log + k8s_lib "lrLib r"
  for r :: "'w GPULeaseReconciler" and leases :: "'w \<Rightarrow> lstore"
    and hist :: "'w \<Rightarrow> lhist" and log :: "lhist \<Rightarrow> lstore \<Rightarrow> bool" +
  assumes activate_call: "world_step leases hist log w (snd (cl_Activate (lr_PodClient r) ip req w))"
    and release_call: "world_step leases hist log w (snd (cl_Release (lr_PodClient r) ip w))"
    and state_call: "world_step leases hist log w (snd (cl_State (lr_PodClient r) ip w))"
    and event_call: "lr_Recorder r = Some eventf \<Longrightarrow> world_step leases hist log w (eventf ob ty rs m w)"
    and metric_call: "world_step leases hist log w (rt_Metric (lr_Runtime r) mop w)"
begin

abbreviation safe :: "GPULease \<Rightarrow> ('w, 'a) go \<Rightarrow> bool" where
  "safe l p \<equiv> hoare (knows l) W p (\<lambda>_ _. True)"

subsection \<open>Calls that leave the leases alone\<close>

lemma pod_calls_W [simp]:
  "W w (snd (cl_Activate (lr_PodClient r) ip req w))"
  "W w (snd (cl_Release (lr_PodClient r) ip w))"
  "W w (snd (cl_State (lr_PodClient r) ip w))"
  "W w (rt_Metric (lr_Runtime r) mop w)"
  by (simp_all add: W_def activate_call release_call state_call metric_call)

lemma lrEvent_W [simp]: "W w (lrEvent r l ty rs m w)"
  by (cases "lr_Recorder r") (auto simp: lrEvent_def W_def event_call world_step_refl)

lemma mapErr_snd [simp]: "snd (mapErr g p w) = snd (p w)"
  by (simp add: mapErr_app split: prod.splits sum.splits)

lemma fold_metric_W: "W w (fold (\<lambda>(n, x). rt_Metric (lr_Runtime r) (f n x)) xs w)"
proof (induction xs arbitrary: w)
  case (Cons a xs)
  obtain n x where "a = (n, x)" by fastforce
  then show ?case
    using W_trans [OF pod_calls_W(4) Cons.IH] by simp
qed simp

lemma refreshMetrics_W: "W w (refreshMetrics r w)"
  by (auto simp: refreshMetrics_def Let_def fold_metric_W
      intro: W_trans [OF fold_metric_W fold_metric_W] split: sum.splits option.splits)

lemma releaseClaimPod_W [simp]: "W w (releaseClaimPod r l w)"
  by (auto simp: releaseClaimPod_def revertPodToWarm_def Let_def
      intro: W_trans [OF pod_calls_W(2) bystander_W(1)] split: sum.splits option.splits)

lemma flavorMismatchEvent_W [simp]: "W w (flavorMismatchEvent r l wl w)"
  by (auto simp: flavorMismatchEvent_def Let_def split: sum.splits)

subsection \<open>Rules for the steps of a handler\<close>

lemma safe_asks: "(\<And>w. safe l (k (f w))) \<Longrightarrow> safe l (bnd (asks f) k)"
  by (rule hoare_bnd_asks)

lemma safe_query: "(\<And>x. safe l (k x)) \<Longrightarrow> safe l (bnd (query q) k)"
  by (rule hoare_bnd_query)

lemma safe_act: "(\<And>w. W w (f w)) \<Longrightarrow> safe l (k ()) \<Longrightarrow> safe l (bnd (act f) k)"
  by (rule hoare_bnd_act) (auto intro: knows_stable)

lemma safe_attempt: "(\<And>w. W w (snd (p w))) \<Longrightarrow> (\<And>res. safe l (k res)) \<Longrightarrow> safe l (bnd (attempt p) k)"
  by (rule hoare_bnd_attempt) (auto intro: knows_stable)

lemma safe_call: "(\<And>w. W w (snd (p w))) \<Longrightarrow> (\<And>x. safe l (k x)) \<Longrightarrow> safe l (bnd p k)"
  by (rule hoare_bnd [where Q = "\<lambda>_. knows l"]) (auto intro!: hoareI intro: knows_stable)

lemma safe_bnd: "hoare (knows l) W p (\<lambda>_. knows l) \<Longrightarrow> (\<And>x. safe l (k x)) \<Longrightarrow> safe l (bnd p k)"
  by (rule hoare_bnd)

lemma safe_return [simp]: "safe l (ret x)" "safe l (throw e)"
  by (auto intro: hoare_ret hoare_throw)

lemma safe_status:
  assumes "leaseName l = leaseName l0" and "leaseVersion l = leaseVersion l0"
    and "status_allowed l0 (l_Status l)"
    and "\<And>l' v. l' = setVersion v (l0\<lparr>l_Status := l_Status l\<rparr>) \<Longrightarrow> safe l' (k l')"
  shows "safe l0 (bnd (mapErr g (updateLeaseStatus (lr_Client r) l)) k)"
proof (rule hoare_bnd [OF hoare_mapErr [OF hoare_status [OF assms(1-3)]]])
  fix x
  show "hoare (\<lambda>w. knows x w \<and> (\<exists>v. x = setVersion v (l0\<lparr>l_Status := l_Status l\<rparr>))) W (k x) (\<lambda>_ _. True)"
    using assms(4) by (cases "\<exists>v. x = setVersion v (l0\<lparr>l_Status := l_Status l\<rparr>)") auto
qed

lemma setCondition_simps [simp]:
  "l_Meta (setLeaseCondition r ct st rs m w l) = l_Meta l"
  "leasePhase (setLeaseCondition r ct st rs m w l) = leasePhase l"
  "lt_AdmittedAt (l_Status (setLeaseCondition r ct st rs m w l)) = lt_AdmittedAt (l_Status l)"
  "lt_BoundAt (l_Status (setLeaseCondition r ct st rs m w l)) = lt_BoundAt (l_Status l)"
  by (simp_all add: setLeaseCondition_def)

lemma setPhase_simps [simp]:
  "l_Meta (setPhase ph m l) = l_Meta l"
  "leasePhase (setPhase ph m l) = ph"
  "lt_AdmittedAt (l_Status (setPhase ph m l)) = lt_AdmittedAt (l_Status l)"
  "lt_BoundAt (l_Status (setPhase ph m l)) = lt_BoundAt (l_Status l)"
  by (simp_all add: setPhase_def)

subsection \<open>The handlers\<close>

lemma deleteWorkload_W [simp]: "W w (snd (deleteWorkload r l w))"
  by (auto simp: deleteWorkload_def bnd_attempt_app split: sum.splits)

text \<open>The phases the reconciler acts on: the lease it was handed is live.\<close>

definition active :: "GPULease \<Rightarrow> bool" where
  "active l \<longleftrightarrow> \<not> leaseDeleting l \<and>
     leasePhase l \<in> {PhaseUnset, PhasePending, PhaseAdmitted, PhaseActivating, PhaseBound}"

lemma transitionToFailed_safe:
  assumes "active l"
  shows "safe l (transitionToFailed r l reason m)"
proof -
  have "phase_edge (leasePhase l) PhaseFailed"
    using assms by (auto simp: active_def)
  then have "status_allowed l (l_Status (setLeaseCondition r ct st rs m' w (setPhase PhaseFailed m l)))"
    for ct st rs m' w
    using assms by (simp add: status_allowed_def stamps_ok_def active_def)
  then show ?thesis
    unfolding transitionToFailed_def
    by (intro safe_call safe_act safe_asks safe_status deleteWorkload_W releaseClaimPod_W pod_calls_W
        lrEvent_W safe_return) simp_all
qed


lemma createWorkload_safe:
  assumes "active l" and "leasePhase l \<in> {PhaseUnset, PhasePending}"
  shows "safe l (createWorkload r l want)"
proof -
  have "safe l (bnd (if lt_WorkloadName (l_Status l) \<noteq> n
          then mapErr g (updateLeaseStatus (lr_Client r) (l\<lparr>l_Status := (l_Status l)\<lparr>lt_WorkloadName := n\<rparr>\<rparr>))
          else ret l) (\<lambda>_. ret x))" for n g and x :: Result
    using assms by (auto intro!: safe_status simp: status_allowed_def stamps_ok_def active_def simp del: ret_app)
  note record_name = this
  show ?thesis
    unfolding createWorkload_def
  proof (rule safe_call, simp, rule safe_attempt, simp, rule safe_call)
    show "W w (snd ((case res of Inl err \<Rightarrow> if IsAlreadyExists err then ret () else throw (Wrap ''create workload'' err)
        | Inr _ \<Rightarrow> ret ()) w))" for res :: "goerr + Workload" and w
      by (auto split: sum.splits)
  qed (rule record_name)
qed

lemma admitLease_safe:
  assumes "active l" and "leasePhase l \<in> {PhaseUnset, PhasePending}"
  shows "safe l (admitLease r l wl)"
  unfolding admitLease_def Let_def
  by (intro safe_act safe_asks safe_status flavorMismatchEvent_W lrEvent_W safe_return)
    (use assms in \<open>auto simp: status_allowed_def stamps_ok_def active_def\<close>)

lemma evaluateAdmission_safe:
  assumes "active l" and "leasePhase l \<in> {PhaseUnset, PhasePending}"
  shows "safe l (evaluateAdmission r l wl)"
  unfolding evaluateAdmission_def
  by (auto intro!: safe_asks admitLease_safe transitionToFailed_safe assms split: prod.splits bool.splits)

lemma reconcilePending_safe:
  assumes "active l" and "leasePhase l \<in> {PhaseUnset, PhasePending}"
  shows "safe l (reconcilePending r l)"
  unfolding reconcilePending_def Let_def
  by (auto intro!: safe_asks safe_attempt createWorkload_safe evaluateAdmission_safe assms split: sum.splits)

lemma withClaim_safe:
  assumes "active l" and "\<And>pod. safe l (k pod)"
  shows "safe l (withClaim r l fmt k)"
  unfolding withClaim_def Let_def
  by (auto intro!: safe_query transitionToFailed_safe assms split: option.splits)

lemma reconcileAdmitted_safe:
  assumes "active l" and "leasePhase l = PhaseAdmitted"
  shows "safe l (reconcileAdmitted r l)"
  unfolding reconcileAdmitted_def Let_def
  by (auto intro!: withClaim_safe safe_attempt safe_asks safe_status safe_act transitionToFailed_safe assms(1)
      split: sum.splits) (use assms in \<open>auto simp: status_allowed_def stamps_ok_def active_def\<close>)

lemma bindLease_safe:
  assumes "active l" and "leasePhase l = PhaseActivating"
  shows "safe l (bindLease r l pod)"
  unfolding bindLease_def markPodHot_def Let_def
  by (intro safe_call safe_asks safe_status safe_act lrEvent_W safe_return)
    (use assms in \<open>auto simp: status_allowed_def stamps_ok_def active_def\<close>)

lemma reconcileActivating_safe:
  assumes "active l" and "leasePhase l = PhaseActivating"
  shows "safe l (reconcileActivating r l)"
  unfolding reconcileActivating_def
  by (auto intro!: withClaim_safe safe_attempt safe_asks bindLease_safe transitionToFailed_safe assms)

lemma reconcileBound_safe: "active l \<Longrightarrow> safe l (reconcileBound r l)"
  unfolding reconcileBound_def by (auto intro!: withClaim_safe)

lemma reconcilePhase_safe: "\<not> leaseDeleting l \<Longrightarrow> safe l (reconcilePhase r l)"
  unfolding reconcilePhase_def
  by (auto intro!: reconcilePending_safe reconcileAdmitted_safe reconcileActivating_safe reconcileBound_safe
      simp: active_def split: GPULeasePhase.splits)

lemma safe_strip:
  assumes "strip_allowed l" and "\<And>l0 x. safe l0 (k x)"
  shows "safe l (bnd (mapErr g (updateLease (lr_Client r) (RemoveFinalizer (lrLib r) l Finalizer))) k)"
proof (rule hoare_bnd [where Q = "\<lambda>_. knows l"])
  show "hoare (knows l) W (mapErr g (updateLease (lr_Client r) (RemoveFinalizer (lrLib r) l Finalizer))) (\<lambda>_. knows l)"
    using assms(1) by (auto intro!: hoareI simp: remove_finalizer update_strip_W intro: knows_stable)
qed (rule assms(2))

lemma reconcileDeletion_safe:
  assumes "leaseDeleting l"
  shows "safe l (reconcileDeletion r l)"
proof -
  have rest: "safe l' (bnd (deleteWorkload r l') (\<lambda>_. bnd (act (releaseClaimPod r l'))
      (\<lambda>_. bnd (wrapErr c (updateLease (lr_Client r) (RemoveFinalizer (lrLib r) l' Finalizer)))
        (\<lambda>l''. bnd (act (lrEvent r l'' t rs (m l''))) (\<lambda>_. ret x)))))"
    if "leaseDeleting l'" and "leasePhase l' = PhaseReleasing" for l' c t rs m and x :: Result
    using that by (intro safe_call safe_act safe_strip) (auto simp: strip_allowed_def intro!: safe_act)
  show ?thesis
  proof (cases "leasePhase l = PhaseReleasing")
    case True
    then show ?thesis
      using assms unfolding reconcileDeletion_def by (auto intro!: rest)
  next
    case False
    then show ?thesis
      using assms unfolding reconcileDeletion_def
      by (auto intro!: safe_status rest simp: status_allowed_def setVersion_def)
  qed
qed

lemma safe_finally: "safe l p \<Longrightarrow> safe l (andFinally p (refreshMetrics r))"
  by (rule hoare_andFinally) (simp_all add: refreshMetrics_W)

subsection \<open>One reconcile\<close>

lemma leaseReconcile_W: "W w (snd (leaseReconcile r n w))"
proof (cases "getLease (lr_Client r) n w")
  case (Inl e)
  then show ?thesis by (simp add: leaseReconcile_def)
next
  case (Inr l)
  then have l: "knows l w" by (rule knows_get)
  have "safe l (bnd (mapErr g (updateLease (lr_Client r) (AddFinalizer (lrLib r) l Finalizer))) (\<lambda>_. ret x))"
    if "\<not> leaseDeleting l" "Finalizer \<notin> set (leaseFinalizers l)" for g and x :: Result
    using that by (auto intro!: hoareI simp: add_finalizer bnd_app update_protect_W split: prod.splits sum.splits)
      (metis snd_conv update_protect_W set_append sup_ge1 mapErr_snd)+
  then have "safe l (if leaseDeleting l then andFinally (reconcileDeletion r l) (refreshMetrics r)
         else if \<not> ContainsFinalizer (lrLib r) l Finalizer then
           bnd (wrapErr ''add finalizer''
                  (updateLease (lr_Client r) (AddFinalizer (lrLib r) l Finalizer)))
             (\<lambda>_. ret resultRequeue)
         else andFinally (reconcilePhase r l) (refreshMetrics r))"
    by (simp add: contains_finalizer safe_finally reconcileDeletion_safe reconcilePhase_safe)
  from hoare_steps [OF this l] show ?thesis
    using Inr by (simp add: leaseReconcile_def)
qed

lemma leaseReconcile_steps: "lease_step\<^sup>*\<^sup>* (leases w) (leases (snd (leaseReconcile r n w)))"
  using leaseReconcile_W [of w n] by (auto simp: W_def world_step_def intro: lease_path_steps)

end

end
