(* ===== verification/WarmPool.thy ===== *)
theory WarmPool
  imports LeaseReconciler
begin

text \<open>
  \<open>internal/controller/warmpool_controller.go\<close>: the reconciler that decides which pods of a
  managed Deployment are promoted to hot or demoted to warm, creates and deletes GPULeases,
  and reclaims leases whose claim is invalid or that failed long enough ago. Loops of the Go
  code are recursive functions over the slice they range over.
\<close>

section \<open>Constants and the reconciler\<close>

definition DefaultWarmPoolResyncPeriod :: duration where
  "DefaultWarmPoolResyncPeriod = 15 * Second"
definition blockedPromotionRequeueAfter :: duration where
  "blockedPromotionRequeueAfter = 30 * Second"

definition EventReasonPromoted :: string where "EventReasonPromoted = ''PromotedToHot''"
definition EventReasonDemoted :: string where "EventReasonDemoted = ''DemotedToWarm''"
definition EventReasonNoFreeGPUOnAnyNode :: string where
  "EventReasonNoFreeGPUOnAnyNode = ReasonNoFreeGPUOnAnyPodNode"
definition EventReasonWarmDeficit :: string where "EventReasonWarmDeficit = ''WarmDeficit''"
definition EventReasonOrphanLeaseReclaimed :: string where
  "EventReasonOrphanLeaseReclaimed = ''OrphanLeaseReclaimed''"
definition EventReasonFailedLeaseReclaimed :: string where
  "EventReasonFailedLeaseReclaimed = ''FailedLeaseReclaimed''"

record 'w WarmPoolReconciler =
  wp_Client :: "'w Client"
  wp_Recorder :: "'w Recorder option"
  wp_Inventory :: "'w Inventory"
  wp_ResyncPeriod :: duration
  wp_FailedLeaseRetention :: duration
  wp_Runtime :: "'w Runtime"

abbreviation wpLib :: "'w WarmPoolReconciler \<Rightarrow> K8sLib" where "wpLib r \<equiv> rt_Lib (wp_Runtime r)"

section \<open>Helpers\<close>

definition wpEvent ::
    "'w WarmPoolReconciler \<Rightarrow> Deployment \<Rightarrow> string \<Rightarrow> string \<Rightarrow> msg \<Rightarrow> 'w \<Rightarrow> 'w" where
  "wpEvent r dep eventType reason message =
     (case wp_Recorder r of
        None \<Rightarrow> (\<lambda>w. w)
      | Some rec \<Rightarrow> rec (OnDeployment dep) eventType reason message)"

definition effectiveResyncPeriod :: "'w WarmPoolReconciler \<Rightarrow> duration" where
  "effectiveResyncPeriod r =
     (if wp_ResyncPeriod r > 0 then wp_ResyncPeriod r else DefaultWarmPoolResyncPeriod)"

definition effectiveFailedLeaseRetention :: "'w WarmPoolReconciler \<Rightarrow> duration" where
  "effectiveFailedLeaseRetention r =
     (if wp_FailedLeaseRetention r > 0 then wp_FailedLeaseRetention r else DefaultFailedLeaseRetention)"

definition minPositiveDuration :: "duration \<Rightarrow> duration \<Rightarrow> duration" where
  "minPositiveDuration a b = (if a \<le> 0 then b else if b \<le> 0 then a else if a < b then a else b)"

definition failedLeaseFailureReason :: "K8sLib \<Rightarrow> GPULease \<Rightarrow> string" where
  "failedLeaseFailureReason lib lease =
     (case FindStatusCondition lib (lt_Conditions (l_Status lease)) ConditionReady of
        Some c \<Rightarrow> cond_Reason c
      | None \<Rightarrow> '''')"

definition failedSince :: "K8sLib \<Rightarrow> GPULease \<Rightarrow> gotime" where
  "failedSince lib lease =
     (case FindStatusCondition lib (lt_Conditions (l_Status lease)) ConditionReady of
        Some c \<Rightarrow>
          if cond_LastTransitionTime c \<noteq> 0 then cond_LastTransitionTime c
          else om_CreationTimestamp (l_Meta lease)
      | None \<Rightarrow> om_CreationTimestamp (l_Meta lease))"

definition leasesForDeployment :: "'w WarmPoolReconciler \<Rightarrow> Deployment \<Rightarrow> 'w \<Rightarrow> goerr + GPULease list" where
  "leasesForDeployment r dep w =
     (case listLeases (wp_Client r) w of
        Inl e \<Rightarrow> Inl (Wrap ''list GPULeases'' e)
      | Inr items \<Rightarrow>
          Inr (filter (\<lambda>l. ref_Namespace (deploymentOf l) = depNamespace dep \<and>
                           ref_Name (deploymentOf l) = depName dep) items))"

fun findLeaseForPod :: "GPULease list \<Rightarrow> Pod \<Rightarrow> GPULease option" where
  "findLeaseForPod [] pod = None"
| "findLeaseForPod (l # ls) pod =
     (let claim = claimOf l in
      if ref_Namespace claim = podNamespace pod \<and> ref_Name claim = podName pod \<and>
         (ref_UID claim = '''' \<or> ref_UID claim = om_UID (p_Meta pod))
      then Some l else findLeaseForPod ls pod)"

section \<open>Promotion\<close>

definition newLease ::
    "Deployment \<Rightarrow> DeploymentSettings \<Rightarrow> Pod \<Rightarrow> string \<Rightarrow> string \<Rightarrow> int32 \<Rightarrow> GPULease" where
  "newLease dep settings pod node model i =
     \<lparr> l_Meta = (newMeta '''' (LeaseName node i))\<lparr>om_Finalizers := [Finalizer]\<rparr>,
       l_Spec =
         \<lparr> ls_NodeName = node, ls_GPUID = i, ls_GPUModel = model,
           ls_ClaimRef =
             \<lparr> ref_Namespace = podNamespace pod, ref_Name = podName pod, ref_UID = om_UID (p_Meta pod) \<rparr>,
           ls_DeploymentRef =
             \<lparr> ref_Namespace = depNamespace dep, ref_Name = depName dep, ref_UID = om_UID (d_Meta dep) \<rparr>,
           ls_LocalQueueName = LocalQueueName settings \<rparr>,
       l_Status = emptyStatus \<rparr>"

fun tryCreateLease ::
    "'w Client \<Rightarrow> (int32 \<Rightarrow> GPULease) \<Rightarrow> int32 list \<Rightarrow> ('w, GPULease) go" where
  "tryCreateLease c mk [] = throw ErrExhausted"
| "tryCreateLease c mk (i # ids) =
     bnd (attempt (createLease c (mk i))) (\<lambda>res.
       case res of
         Inr lease \<Rightarrow> ret lease
       | Inl err \<Rightarrow>
           if IsAlreadyExists err then tryCreateLease c mk ids
           else throw (Wrap ''create GPULease'' err))"

definition acquireLeaseOnNode ::
    "'w WarmPoolReconciler \<Rightarrow> Deployment \<Rightarrow> DeploymentSettings \<Rightarrow> Pod \<Rightarrow> string \<Rightarrow> ('w, GPULease) go" where
  "acquireLeaseOnNode r dep settings pod node =
     bnd (wrapErr ''free GPU ids on node'' (query (inv_FreeGPUIDs (wp_Inventory r) node))) (\<lambda>free.
     if free = [] then throw ErrExhausted
     else
       bnd (wrapErr ''node capacity'' (query (inv_NodeCapacity (wp_Inventory r) node))) (\<lambda>(_, model).
       tryCreateLease (wp_Client r) (newLease dep settings pod node model) free))"

fun promoteLoop ::
    "'w WarmPoolReconciler \<Rightarrow> Deployment \<Rightarrow> DeploymentSettings \<Rightarrow> int \<Rightarrow> int \<Rightarrow> Pod list \<Rightarrow> ('w, int) go" where
  "promoteLoop r dep settings need promoted [] = ret promoted"
| "promoteLoop r dep settings need promoted (pod # pods) =
     (if promoted \<ge> need then ret promoted
      else
        bnd (attempt (acquireLeaseOnNode r dep settings pod (p_NodeName pod))) (\<lambda>res.
          case res of
            Inl err \<Rightarrow>
              if errorsIs err ErrExhausted then promoteLoop r dep settings need promoted pods
              else throw err
          | Inr lease \<Rightarrow>
              bnd (patchPodStateLabel (wp_Client r) pod StateActivating) (\<lambda>patched.
              bnd (act (rt_Metric (wp_Runtime r) PromotionsTotal)) (\<lambda>_.
              bnd (act (wpEvent r dep EventTypeNormal EventReasonPromoted
                     (Sprintf ''promoting pod %s to hot: acquired GPULease %s (node %s, gpu %d, model %s)''
                        [FStr (podName patched), FStr (leaseName lease), FStr (p_NodeName pod),
                         FInt (leaseGPU lease), FStr (ls_GPUModel (l_Spec lease))]))) (\<lambda>_.
              promoteLoop r dep settings need (promoted + 1) pods)))))"

definition promote ::
    "'w WarmPoolReconciler \<Rightarrow> Deployment \<Rightarrow> DeploymentSettings \<Rightarrow> Pod list \<Rightarrow> int \<Rightarrow>
     (string \<times> int32) list \<Rightarrow> ('w, int) go" where
  "promote r dep settings warmPods need freeByNode =
     (let candidates = sortPromotionCandidates warmPods freeByNode in
      bnd (promoteLoop r dep settings need 0 candidates) (\<lambda>promoted.
      bnd (if promoted < need then
             bnd (act (rt_Metric (wp_Runtime r)
                         (LeaseAcquireFailuresTotal (depName dep) ReasonNoFreeGPUOnAnyPodNode))) (\<lambda>_.
             act (wpEvent r dep EventTypeWarning EventReasonNoFreeGPUOnAnyNode
                    (Sprintf ''need to promote %d more warm pod(s) to hot (target %d) but no warm pod sits on a node with a free GPU (%d candidate warm pod(s) had a free-GPU node, %d promoted)''
                       [FInt (need - promoted), FInt need, FInt (int (length candidates)), FInt promoted])))
           else ret ()) (\<lambda>_.
      ret promoted)))"

section \<open>Demotion\<close>

fun demoteLoop ::
    "'w WarmPoolReconciler \<Rightarrow> Deployment \<Rightarrow> GPULease list \<Rightarrow> int \<Rightarrow> int \<Rightarrow> Pod list \<Rightarrow> ('w, unit) go" where
  "demoteLoop r dep leases need demoted [] = ret ()"
| "demoteLoop r dep leases need demoted (pod # pods) =
     (if demoted \<ge> need then ret ()
      else
        let lease = findLeaseForPod leases pod in
        bnd (patchPodStateLabel (wp_Client r) pod StateReleasing) (\<lambda>pod.
        bnd (case lease of
               None \<Rightarrow> ret ()
             | Some l \<Rightarrow>
                 bnd (attempt (deleteLease (wp_Client r) l)) (\<lambda>res. case res of
                   Inl err \<Rightarrow> if IsNotFound err then ret () else throw (Wrap ''delete GPULease'' err)
                 | Inr _ \<Rightarrow> ret ())) (\<lambda>_.
        bnd (act (rt_Metric (wp_Runtime r) DemotionsTotal)) (\<lambda>_.
        bnd (act (wpEvent r dep EventTypeNormal EventReasonDemoted
               (Sprintf ''demoting pod %s from hot to warm: deleting GPULease %s (node %s, gpu %d) to release the GPU''
                  [FStr (podName pod),
                   FStr (case lease of None \<Rightarrow> ''<none>'' | Some l \<Rightarrow> leaseName l),
                   FStr (case lease of None \<Rightarrow> '''' | Some l \<Rightarrow> leaseNode l),
                   FInt (case lease of None \<Rightarrow> 0 | Some l \<Rightarrow> leaseGPU l)]))) (\<lambda>_.
        demoteLoop r dep leases need (demoted + 1) pods)))))"

definition demote :: "'w WarmPoolReconciler \<Rightarrow> Deployment \<Rightarrow> Pod list \<Rightarrow> int \<Rightarrow> ('w, unit) go" where
  "demote r dep hotPods need =
     (let candidates = sortDemotionCandidates hotPods in
      bnd (query (leasesForDeployment r dep)) (\<lambda>leases.
      demoteLoop r dep leases need 0 candidates))"

section \<open>Garbage collection\<close>

text \<open>The result is \<open>(deleted, retryAfter)\<close>.\<close>

definition reclaimFailedLease ::
    "'w WarmPoolReconciler \<Rightarrow> Deployment \<Rightarrow> GPULease \<Rightarrow> ('w, bool \<times> duration) go" where
  "reclaimFailedLease r dep lease =
     (let retention = effectiveFailedLeaseRetention r in
      bnd (asks (\<lambda>w. time_sub (rt_Now (wp_Runtime r) w) (failedSince (wpLib r) lease))) (\<lambda>age.
      if age < retention then ret (False, wrap64 (retention - age))
      else
        let reason = failedLeaseFailureReason (wpLib r) lease;
            message = lt_Message (l_Status lease);
            node = leaseNode lease; gpuID = leaseGPU lease;
            name = leaseName lease
        in
        bnd (attempt
               (if ContainsFinalizer (wpLib r) lease Finalizer
                then updateLease (wp_Client r) (RemoveFinalizer (wpLib r) lease Finalizer)
                else ret lease)) (\<lambda>updated.
        case updated of
          Inl err \<Rightarrow>
            if IsNotFound err then ret (True, 0)
            else throw (Wrap ''remove finalizer from failed GPULease'' err)
        | Inr lease \<Rightarrow>
            bnd (attempt (deleteLease (wp_Client r) lease)) (\<lambda>res. case res of
              Inl err \<Rightarrow>
                if IsNotFound err then ret (True, 0) else throw (Wrap ''delete failed GPULease'' err)
            | Inr _ \<Rightarrow>
                bnd (act (wpEvent r dep EventTypeNormal EventReasonFailedLeaseReclaimed
                       (Sprintf ''reclaiming Failed GPULease %s (node %s, gpu %d) after %s: original failure reason %s: %s''
                          [FStr name, FStr node, FInt gpuID,
                           FDur retention, FStr reason, FMsg message]))) (\<lambda>_.
                ret (True, 0))))))"

definition getClaimPodForOrphan :: "'w WarmPoolReconciler \<Rightarrow> GPULease \<Rightarrow> 'w \<Rightarrow> goerr + Pod option" where
  "getClaimPodForOrphan r lease w =
     (case getPod (wp_Client r) (ref_Namespace (claimOf lease)) (ref_Name (claimOf lease)) w of
        Inr pod \<Rightarrow> Inr (Some pod)
      | Inl err \<Rightarrow> if IsNotFound err then Inr None else Inl (Wrap ''get claim pod for lease'' err))"

definition deleteOrphan ::
    "'w WarmPoolReconciler \<Rightarrow> Deployment \<Rightarrow> Selector \<Rightarrow> GPULease \<Rightarrow> ('w, unit) go" where
  "deleteOrphan r dep sel lease =
     bnd (query (getClaimPodForOrphan r lease)) (\<lambda>pod.
       let reason = leaseOrphanReason pod lease (Some sel) in
       if reason = '''' then ret ()
       else
         bnd (attempt (deleteLease (wp_Client r) lease)) (\<lambda>res.
         bnd (case res of
                Inl err \<Rightarrow> if IsNotFound err then ret () else throw (Wrap ''delete orphaned GPULease'' err)
              | Inr _ \<Rightarrow> ret ()) (\<lambda>_.
         act (wpEvent r dep EventTypeWarning EventReasonOrphanLeaseReclaimed
                (Sprintf ''reclaiming GPULease %s (node %s, gpu %d) claimed by pod %s/%s: %s''
                   [FStr (leaseName lease), FStr (leaseNode lease), FInt (leaseGPU lease),
                    FStr (ref_Namespace (claimOf lease)), FStr (ref_Name (claimOf lease)), FStr reason])))))"

fun orphanLoop ::
    "'w WarmPoolReconciler \<Rightarrow> Deployment \<Rightarrow> Selector \<Rightarrow> duration \<Rightarrow> GPULease list \<Rightarrow> ('w, duration) go" where
  "orphanLoop r dep sel requeueAfter [] = ret requeueAfter"
| "orphanLoop r dep sel requeueAfter (lease # leases) =
     (if leaseDeleting lease then orphanLoop r dep sel requeueAfter leases
      else if leasePhase lease = PhaseFailed then
        bnd (reclaimFailedLease r dep lease) (\<lambda>(deleted, retryAfter).
          if deleted then orphanLoop r dep sel requeueAfter leases
          else
            bnd (deleteOrphan r dep sel lease) (\<lambda>_.
            orphanLoop r dep sel
              (if retryAfter > 0 then minPositiveDuration requeueAfter retryAfter else requeueAfter) leases))
      else
        bnd (deleteOrphan r dep sel lease) (\<lambda>_. orphanLoop r dep sel requeueAfter leases))"

definition reconcileOrphans ::
    "'w WarmPoolReconciler \<Rightarrow> Deployment \<Rightarrow> Selector \<Rightarrow> ('w, duration) go" where
  "reconcileOrphans r dep sel =
     bnd (query (leasesForDeployment r dep)) (\<lambda>leases. orphanLoop r dep sel 0 leases)"

section \<open>Reconcile\<close>

fun considerPods :: "'w Client \<Rightarrow> Pod list \<Rightarrow> ('w, Pod list) go" where
  "considerPods c [] = ret []"
| "considerPods c (p # ps) =
     bnd (if podLabels p StateLabelKey = None \<or> podLabels p StateLabelKey = Some ''''
          then initializePodWarmState c p else ret p) (\<lambda>p.
     bnd (considerPods c ps) (\<lambda>rest.
     ret (if isPodConsidered p then p # rest else rest)))"

definition warmDeficit :: "int \<Rightarrow> DeploymentSettings \<Rightarrow> bool" where
  "warmDeficit readyCount settings \<longleftrightarrow>
     wrap32 readyCount < wrap32 (MinHotReplicas settings + WarmReplicas settings)"

text \<open>
  The decision of one reconcile: promote, demote or neither. The result says whether a
  promotion was blocked.
\<close>

definition rebalance ::
    "'w WarmPoolReconciler \<Rightarrow> Deployment \<Rightarrow> DeploymentSettings \<Rightarrow> Pod list \<Rightarrow> ('w, bool) go" where
  "rebalance r dep settings considered =
     (let readyCount = int (length considered);
          hotPods = filter (\<lambda>p. podState p = StateHot) considered;
          warmPods = filter (\<lambda>p. podState p = StateWarm) considered;
          held = int (length (filter (\<lambda>p. isHeld (podState p)) considered));
          target = targetHot readyCount (WarmReplicas settings) (MinHotReplicas settings)
      in if held < target then
           let need = target - held in
           bnd (wrapErr ''node free GPU counts'' (query (inv_NodeFreeCounts (wp_Inventory r)))) (\<lambda>freeByNode.
           bnd (promote r dep settings warmPods need freeByNode) (\<lambda>promoted.
           ret (promoted < need)))
         else if held > target then
           bnd (demote r dep hotPods (held - target)) (\<lambda>_. ret False)
         else ret False)"

definition poolMetrics ::
    "'w WarmPoolReconciler \<Rightarrow> Deployment \<Rightarrow> DeploymentSettings \<Rightarrow> Pod list \<Rightarrow> 'w \<Rightarrow> 'w" where
  "poolMetrics r dep settings considered w =
     (let readyCount = int (length considered);
          hotCount = int (length (filter (\<lambda>p. podState p = StateHot) considered));
          m = rt_Metric (wp_Runtime r);
          w = m (PoolHotPods (depNamespace dep) (depName dep) hotCount) w;
          w = m (PoolWarmPods (depNamespace dep) (depName dep) (readyCount - hotCount)) w
      in m (PoolWarmDesired (depNamespace dep) (depName dep) (WarmReplicas settings)) w)"

definition warmDeficitEvent ::
    "'w WarmPoolReconciler \<Rightarrow> Deployment \<Rightarrow> DeploymentSettings \<Rightarrow> Pod list \<Rightarrow> 'w \<Rightarrow> 'w" where
  "warmDeficitEvent r dep settings considered w =
     (let readyCount = int (length considered) in
      if warmDeficit readyCount settings then
        wpEvent r dep EventTypeWarning EventReasonWarmDeficit
          (Sprintf ''only %d ready pod(s); min-hot-replicas(%d)+warm-replicas(%d)=%d exceeds that, so hot capacity wins and the warm pool runs below its target of %d''
             [FInt readyCount, FInt (MinHotReplicas settings), FInt (WarmReplicas settings),
              FInt (wrap32 (MinHotReplicas settings + WarmReplicas settings)),
              FInt (WarmReplicas settings)]) w
      else w)"

definition warmPoolReconcile :: "'w WarmPoolReconciler \<Rightarrow> string \<Rightarrow> string \<Rightarrow> ('w, Result) go" where
  "warmPoolReconcile r ns name =
     bnd (asks (getDeployment (wp_Client r) ns name)) (\<lambda>got. case got of
       Inl err \<Rightarrow> if IsNotFound err then ret resultDone else throw (Wrap ''get deployment'' err)
     | Inr dep \<Rightarrow>
         if \<not> IsManaged (depAnnotations dep) then ret resultDone
         else
           let settings = ParseDeploymentSettings (depAnnotations dep) (depName dep) in
           case deploymentSelector (wpLib r) dep of
             Inl err \<Rightarrow> ret resultDone
           | Inr sel \<Rightarrow>
               bnd (wrapErr ''reconcile orphaned/failed leases'' (reconcileOrphans r dep sel)) (\<lambda>failedRequeueAfter.
               bnd (query (listDeploymentPods (wpLib r) (wp_Client r) dep)) (\<lambda>pods.
               bnd (considerPods (wp_Client r) pods) (\<lambda>considered.
               bnd (act (poolMetrics r dep settings considered)) (\<lambda>_.
               bnd (act (warmDeficitEvent r dep settings considered)) (\<lambda>_.
               bnd (rebalance r dep settings considered) (\<lambda>blocked.
               let requeueAfter = (if blocked then blockedPromotionRequeueAfter else effectiveResyncPeriod r)
               in ret (resultAfter (minPositiveDuration requeueAfter failedRequeueAfter)))))))))"

section \<open>Watch mappings\<close>

definition mapPodToDeployment :: "'w WarmPoolReconciler \<Rightarrow> Pod \<Rightarrow> 'w \<Rightarrow> (string \<times> string) list" where
  "mapPodToDeployment r pod w =
     (case listDeployments (wp_Client r) (podNamespace pod) w of
        Inl err \<Rightarrow> []
      | Inr deps \<Rightarrow>
          map (\<lambda>d. (depNamespace d, depName d))
            (filter (\<lambda>d. IsManaged (depAnnotations d) \<and>
               (case d_Selector d of
                  None \<Rightarrow> False
                | Some s \<Rightarrow> (case LabelSelectorAsSelector (wpLib r) s of
                      Inl err \<Rightarrow> False
                    | Inr sel \<Rightarrow> \<not> sel_Empty sel \<and> sel_Matches sel (podLabels pod)))) deps))"

definition mapLeaseToDeployment :: "GPULease \<Rightarrow> (string \<times> string) list" where
  "mapLeaseToDeployment lease =
     (if ref_Name (deploymentOf lease) = '''' then []
      else [(ref_Namespace (deploymentOf lease), ref_Name (deploymentOf lease))])"

end
