(* ===== verification/PoolSafety.thy ===== *)
theory PoolSafety
  imports WarmPool ApiServer
begin

text \<open>
  The WarmPool reconciler keeps to the lease protocol as well: it creates leases only under
  their derived names and with the finalizer, strips the finalizer only from a Failed lease,
  and otherwise only asks for deletion. Together with the corresponding theory for the GPULease
  reconciler, every interleaving of the two is a run of \<open>lease_step\<close>.
\<close>

section \<open>The reconciler's environment\<close>

locale pool_env = lease_server "wp_Client r" leases hist log + k8s_lib "wpLib r" +
    gpu_inventory "wp_Inventory r" held
  for r :: "'w WarmPoolReconciler" and leases :: "'w \<Rightarrow> lstore"
    and hist :: "'w \<Rightarrow> lhist" and log :: "lhist \<Rightarrow> lstore \<Rightarrow> bool" and held :: "'w \<Rightarrow> string \<Rightarrow> int set" +
  assumes event_call: "wp_Recorder r = Some eventf \<Longrightarrow> world_step leases hist log w (eventf ob ty rs m w)"
    and metric_call: "world_step leases hist log w (rt_Metric (wp_Runtime r) mop w)"
begin

lemma metric_W [simp]: "W w (rt_Metric (wp_Runtime r) mop w)"
  by (simp add: W_def metric_call)

lemma wpEvent_W [simp]: "W w (wpEvent r d ty rs m w)"
  by (cases "wp_Recorder r") (auto simp: wpEvent_def W_def event_call world_step_refl)

lemma mapErr_snd [simp]: "snd (mapErr g p w) = snd (p w)"
  by (simp add: mapErr_app split: prod.splits sum.splits)

lemma attempt_snd [simp]: "snd (attempt p w) = snd (p w)"
  by (simp add: attempt_app split: prod.splits)

subsection \<open>Programs that are safe from every world\<close>

definition quiet :: "('w, 'a) go \<Rightarrow> bool" where
  "quiet p \<longleftrightarrow> (\<forall>w. W w (snd (p w)))"

lemma quietI: "(\<And>w. W w (snd (p w))) \<Longrightarrow> quiet p"
  by (simp add: quiet_def)

lemma quietD: "quiet p \<Longrightarrow> W w (snd (p w))"
  by (simp add: quiet_def)

lemma then_quiet_W:
  assumes "W w (snd (p w))" and "\<And>x. quiet (k x)"
  shows "W w (snd (bnd p k w))"
proof (cases "p w")
  case (Pair res w')
  then have "W w w'" using assms(1) by simp
  then show ?thesis
    using Pair assms(2) by (cases res) (auto simp: bnd_app quiet_def intro: W_trans)
qed

lemma quiet_bnd: "quiet p \<Longrightarrow> (\<And>x. quiet (k x)) \<Longrightarrow> quiet (bnd p k)"
  by (rule quietI, rule then_quiet_W) (auto simp: quiet_def)

lemma quiet_simps [simp]:
  "quiet (ret x)" "quiet (throw e)" "quiet (Pair res)" "quiet (query q)" "quiet (asks g)"
  "quiet (mapErr h p) \<longleftrightarrow> quiet p" "quiet (attempt p) \<longleftrightarrow> quiet p"
  by (simp_all add: quiet_def)

lemma quiet_act: "(\<And>w. W w (f w)) \<Longrightarrow> quiet (act f)"
  by (simp add: quiet_def)

lemma quiet_patch [simp]: "quiet (patchPodStateLabel (wp_Client r) p s)"
  "quiet (initializePodWarmState (wp_Client r) p)"
  by (simp_all add: patchPodStateLabel_def initializePodWarmState_def quiet_def)

lemma quiet_delete [simp]: "quiet (deleteLease (wp_Client r) l)"
  by (simp add: quiet_def delete_W)

lemma quiet_metric [simp]: "quiet (act (rt_Metric (wp_Runtime r) mop))"
  "quiet (act (wpEvent r d ty rs m))"
  by (simp_all add: quiet_def)

subsection \<open>Promotion\<close>

lemma newLease_wellNamed: "0 \<le> i \<Longrightarrow> wellNamed (newLease d st p n md i)"
  by (simp add: newLease_def wellNamed_def newMeta_def)

lemma newLease_finalizer: "Finalizer \<in> set (leaseFinalizers (newLease d st p n md i))"
  by (simp add: newLease_def)

lemma quiet_tryCreate:
  "\<forall>i \<in> set ids. 0 \<le> i \<Longrightarrow> quiet (tryCreateLease (wp_Client r) (newLease d st p n md) ids)"
proof (induction ids)
  case (Cons i ids)
  have "quiet (createLease (wp_Client r) (newLease d st p n md i))"
    using Cons.prems by (intro quietI create_W newLease_wellNamed newLease_finalizer) simp
  with Cons show ?case by (auto intro!: quiet_bnd split: sum.splits)
qed simp

lemma free_nonneg: "inv_FreeGPUIDs (wp_Inventory r) n w = Inr ids \<Longrightarrow> i \<in> set ids \<Longrightarrow> 0 \<le> i"
  using free_set by fastforce

lemma quiet_acquire: "quiet (acquireLeaseOnNode r d st p n)"
proof (rule quietI)
  fix w
  show "W w (snd (acquireLeaseOnNode r d st p n w))"
  proof (cases "inv_FreeGPUIDs (wp_Inventory r) n w")
    case (Inl e)
    then show ?thesis by (simp add: acquireLeaseOnNode_def bnd_app mapErr_app)
  next
    case (Inr ids)
    then have "quiet (tryCreateLease (wp_Client r) (newLease d st p n md) ids)" for md
      by (intro quiet_tryCreate ballI) (rule free_nonneg)
    then have "quiet (bnd (wrapErr ''node capacity'' (query (inv_NodeCapacity (wp_Inventory r) n)))
        (\<lambda>(_, model). tryCreateLease (wp_Client r) (newLease d st p n model) ids))"
      by (intro quiet_bnd) auto
    from quietD [OF this] Inr show ?thesis
      by (simp add: acquireLeaseOnNode_def bnd_app [of "wrapErr _ (query (inv_FreeGPUIDs _ _))"] mapErr_app)
  qed
qed

lemma tryCreate_result:
  assumes "tryCreateLease (wp_Client r) mk ids w = (Inr l, w')"
  shows "\<exists>i \<in> set ids. leases w' (leaseName (mk i)) = Some l \<and> leaseName l = leaseName (mk i) \<and>
    l_Spec l = l_Spec (mk i) \<and> leaseFinalizers l = leaseFinalizers (mk i)"
  using assms
proof (induction ids arbitrary: w)
  case (Cons i ids)
  obtain res w1 where c: "createLease (wp_Client r) (mk i) w = (res, w1)" by fastforce
  show ?case
  proof (cases res)
    case (Inl e)
    then have "tryCreateLease (wp_Client r) mk ids w1 = (Inr l, w')"
      using Cons.prems c by (simp add: bnd_attempt_app split: if_splits)
    from Cons.IH [OF this] show ?thesis by auto
  next
    case (Inr l0)
    then have "l0 = l" and "w1 = w'" using Cons.prems c by (simp_all add: bnd_attempt_app)
    with Inr create_result [of "mk i" w l w'] c show ?thesis by auto
  qed
qed simp

lemma acquire_result:
  assumes "acquireLeaseOnNode r d st p n w = (Inr l, w')"
  shows "\<exists>i k m. inv_NodeCapacity (wp_Inventory r) n w = Inr (k, m) \<and> 0 \<le> i \<and> i < k \<and> i \<notin> held w n \<and>
    leases w' (LeaseName n i) = Some l \<and> leaseName l = LeaseName n i \<and> l_Spec l = l_Spec (newLease d st p n m i) \<and>
    leaseFinalizers l = [Finalizer]"
proof -
  obtain ids k m where free: "inv_FreeGPUIDs (wp_Inventory r) n w = Inr ids"
    and cap: "inv_NodeCapacity (wp_Inventory r) n w = Inr (k, m)"
    and tried: "tryCreateLease (wp_Client r) (newLease d st p n m) ids w = (Inr l, w')"
    using assms by (auto simp: acquireLeaseOnNode_def bnd_eq_Inr_iff mapErr_app split: sum.splits if_splits)
  obtain i where i: "i \<in> set ids" and l: "leases w' (leaseName (newLease d st p n m i)) = Some l"
      "leaseName l = leaseName (newLease d st p n m i)" "l_Spec l = l_Spec (newLease d st p n m i)"
      "leaseFinalizers l = leaseFinalizers (newLease d st p n m i)"
    using tryCreate_result [OF tried] by auto
  have "i \<in> {0..<k} - held w n" using free_set [OF free] cap i by auto
  moreover have "leaseName (newLease d st p n m i) = LeaseName n i" "leaseFinalizers (newLease d st p n m i) = [Finalizer]"
    by (simp_all add: newLease_def newMeta_def)
  ultimately show ?thesis using cap l by auto
qed

lemma quiet_promoteLoop: "quiet (promoteLoop r d st need k pods)"
proof (induction pods arbitrary: k)
  case (Cons p pods)
  then show ?case by (auto intro!: quiet_bnd quiet_acquire split: sum.splits)
qed simp

lemma quiet_promote: "quiet (promote r d st pods need free)"
  unfolding promote_def Let_def by (auto intro!: quiet_bnd quiet_promoteLoop)

subsection \<open>Demotion\<close>

lemma quiet_demoteLoop: "quiet (demoteLoop r d ls need k pods)"
proof (induction pods arbitrary: k)
  case (Cons p pods)
  then show ?case by (auto intro!: quiet_bnd simp: Let_def simp del: bnd_act_app split: sum.splits option.splits)
qed simp

lemma quiet_demote: "quiet (demote r d pods need)"
  unfolding demote_def Let_def by (auto intro!: quiet_bnd quiet_demoteLoop)

subsection \<open>Garbage collection\<close>

lemma quiet_deleteOrphan: "quiet (deleteOrphan r d sel l)"
  unfolding deleteOrphan_def Let_def by (auto intro!: quiet_bnd split: sum.splits)

lemma reclaim_W:
  assumes "knows l w" and "leasePhase l = PhaseFailed" and "\<not> leaseDeleting l"
  shows "W w (snd (reclaimFailedLease r d l w))"
proof -
  let ?strip = "if ContainsFinalizer (wpLib r) l Finalizer
    then updateLease (wp_Client r) (RemoveFinalizer (wpLib r) l Finalizer) else ret l"
  have strip: "W w (snd (?strip w))"
    using assms by (auto simp: remove_finalizer strip_allowed_def intro!: update_strip_W)
  show ?thesis
  proof (cases "time_sub (rt_Now (wp_Runtime r) w) (failedSince (wpLib r) l) < effectiveFailedLeaseRetention r")
    case True
    then show ?thesis by (simp add: reclaimFailedLease_def Let_def)
  next
    case False
    then show ?thesis
      unfolding reclaimFailedLease_def Let_def bnd_asks_app if_not_P [OF False]
      by (intro then_quiet_W)
        (auto simp only: attempt_snd strip quiet_simps(7) intro!: quiet_bnd quiet_simps quiet_delete quiet_metric
          split: sum.splits if_splits)
  qed
qed

lemma orphanLoop_W:
  "\<forall>l \<in> set ls. knows l w \<Longrightarrow> W w (snd (orphanLoop r d sel q ls w))"
proof (induction ls arbitrary: q w)
  case (Cons l ls)
  have rest: "hoare (\<lambda>w. \<forall>l \<in> set ls. knows l w) W (orphanLoop r d sel q ls) (\<lambda>_ _. True)" for q
    by (rule hoareI) (use Cons.IH in auto)
  let ?P = "\<lambda>w. \<forall>l \<in> set (l # ls). knows l w"
  have stable: "?P w \<Longrightarrow> W w w' \<Longrightarrow> \<forall>l \<in> set ls. knows l w'" for w w'
    by (auto intro: knows_stable)
  have del: "hoare (\<lambda>w. \<forall>l \<in> set ls. knows l w) W (deleteOrphan r d sel l) (\<lambda>_ w. \<forall>l \<in> set ls. knows l w)"
    by (rule hoareI) (auto intro: quietD [OF quiet_deleteOrphan] knows_stable)
  have "hoare ?P W (orphanLoop r d sel q (l # ls)) (\<lambda>_ _. True)"
  proof (cases "leaseDeleting l \<or> leasePhase l \<noteq> PhaseFailed")
    case True
    have "hoare (\<lambda>w. \<forall>l \<in> set ls. knows l w) W (orphanLoop r d sel q (l # ls)) (\<lambda>_ _. True)"
      using True by (auto intro!: hoare_bnd [OF del] rest)
    then show ?thesis by (rule hoare_conseq) auto
  next
    case False
    have rec: "hoare ?P W (reclaimFailedLease r d l) (\<lambda>_ w. \<forall>l \<in> set ls. knows l w)"
    proof (rule hoareI)
      fix w assume P: "?P w"
      then have s: "W w (snd (reclaimFailedLease r d l w))"
        using False by (intro reclaim_W) auto
      then show "W\<^sup>*\<^sup>* w (snd (reclaimFailedLease r d l w))" by simp
      from stable [OF P s] show "\<forall>k \<in> set ls. knows k (snd (reclaimFailedLease r d l w))" .
    qed
    show ?thesis
      using False
      by (simp only: orphanLoop.simps de_Morgan_disj not_not if_False if_True simp_thms)
        (rule hoare_bnd [OF rec], auto intro!: hoare_bnd [OF del] rest)
  qed
  from hoare_steps [OF this] Cons.prems show ?case by auto
qed simp

lemma quiet_reconcileOrphans: "quiet (reconcileOrphans r d sel)"
proof (rule quietI)
  fix w
  show "W w (snd (reconcileOrphans r d sel w))"
  proof (cases "leasesForDeployment r d w")
    case (Inr ls)
    then have "\<forall>l \<in> set ls. knows l w"
      by (auto simp: leasesForDeployment_def dest: knows_list split: sum.splits)
    with Inr show ?thesis
      by (auto simp: reconcileOrphans_def bnd_query_app intro: orphanLoop_W)
  qed (simp add: reconcileOrphans_def bnd_query_app)
qed

subsection \<open>One reconcile\<close>

lemma quiet_considerPods: "quiet (considerPods (wp_Client r) ps)"
  by (induction ps) (auto intro!: quiet_bnd)

lemma poolMetrics_W [simp]: "W w (poolMetrics r d st ps w)"
  unfolding poolMetrics_def Let_def by (meson W_trans metric_W)

lemma warmDeficitEvent_W [simp]: "W w (warmDeficitEvent r d st ps w)"
  by (simp add: warmDeficitEvent_def Let_def)

lemma quiet_rebalance: "quiet (rebalance r d st ps)"
  unfolding rebalance_def Let_def by (auto intro!: quiet_bnd quiet_promote quiet_demote)

lemma quiet_warmPoolReconcile: "quiet (warmPoolReconcile r ns n)"
  unfolding warmPoolReconcile_def Let_def
  by (auto intro!: quiet_bnd quiet_reconcileOrphans quiet_considerPods quiet_rebalance quiet_act
      split: sum.splits)

lemma warmPoolReconcile_steps: "lease_step\<^sup>*\<^sup>* (leases w) (leases (snd (warmPoolReconcile r ns n w)))"
  using quietD [OF quiet_warmPoolReconcile] by (auto simp: W_def world_step_def intro: lease_path_steps)

end

end
