(* ===== verification/Etcd.thy ===== *)
theory Etcd
  imports LeaseSafety PoolSafety
begin

text \<open>
  A reference implementation of the environment the reconcilers run in: an executable store
  with optimistic concurrency, finalizers and the status subresource, and the apimachinery
  helpers. It stands where the API server and the client library stand, so that the interface
  locales are interpreted, the theorems have concrete instances, and the reconcilers can be
  run. Every write may be made to fail by the fault schedule \<open>e_faults\<close>.
\<close>

section \<open>The store\<close>

text \<open>
  Leases are kept by version, as in etcd: \<open>e_cur\<close> points from a name to its current version,
  \<open>e_data\<close> holds every version ever written.
\<close>

record Cluster =
  e_cur :: "(string \<times> nat) list"
  e_data :: "((string \<times> nat) \<times> GPULease) list"
  e_workloads :: "((string \<times> string) \<times> Workload) list"
  e_pods :: "((string \<times> string) \<times> Pod) list"
  e_deployments :: "((string \<times> string) \<times> Deployment) list"
  e_nodes :: "Node list"
  e_flavors :: "ResourceFlavor list"
  e_now :: gotime
  e_faults :: "goerr option list"
  e_events :: "(EventObject \<times> string \<times> string \<times> msg) list"
  e_metrics :: "MetricOp list"
  e_fake :: FakeClient

definition emptyCluster :: Cluster where
  "emptyCluster = \<lparr> e_cur = [], e_data = [], e_workloads = [], e_pods = [], e_deployments = [], e_nodes = [],
     e_flavors = [], e_now = 0, e_faults = [], e_events = [], e_metrics = [], e_fake = NewFakeClient \<rparr>"

definition stamp :: "string \<Rightarrow> nat \<Rightarrow> GPULease \<Rightarrow> GPULease" where
  "stamp n v l = l\<lparr>l_Meta := (l_Meta l)\<lparr>om_Name := n, om_ResourceVersion := v\<rparr>\<rparr>"

definition eHist :: "Cluster \<Rightarrow> string \<times> nat \<Rightarrow> GPULease option" where
  "eHist w k = map_option (stamp (fst k) (snd k)) (map_of (e_data w) k)"

definition eLeases :: "Cluster \<Rightarrow> lstore" where
  "eLeases w n = (case map_of (e_cur w) n of None \<Rightarrow> None | Some v \<Rightarrow> eHist w (n, v))"

definition freshVersion :: "Cluster \<Rightarrow> nat" where
  "freshVersion w = Suc (foldr (\<lambda>e m. max (snd (fst e)) m) (e_data w) 0)"

definition putLease :: "string \<Rightarrow> GPULease \<Rightarrow> Cluster \<Rightarrow> Cluster" where
  "putLease n l w = w\<lparr>e_cur := AList.update n (freshVersion w) (e_cur w),
     e_data := e_data w @ [((n, freshVersion w), l)]\<rparr>"

definition dropLease :: "string \<Rightarrow> Cluster \<Rightarrow> Cluster" where
  "dropLease n w = w\<lparr>e_cur := AList.delete n (e_cur w)\<rparr>"

lemma freshVersion_new: "map_of (e_data w) (n, freshVersion w) = None"
proof -
  have "snd (fst e) \<le> foldr (\<lambda>e m. max (snd (fst e)) m) es 0" if "e \<in> set es"
    for e :: "(string \<times> nat) \<times> GPULease" and es
    using that by (induction es) auto
  then have "snd (fst e) < freshVersion w" if "e \<in> set (e_data w)" for e
    using that by (simp add: freshVersion_def le_imp_less_Suc)
  then show ?thesis by (force simp: map_of_eq_None_iff)
qed

lemma eHist_put: "eHist (putLease n l w) = (eHist w)((n, freshVersion w) \<mapsto> stamp n (freshVersion w) l)"
  using freshVersion_new [of w n]
  by (auto simp: eHist_def putLease_def fun_eq_iff map_add_def split: option.splits)

lemma eHist_put_le: "eHist w \<subseteq>\<^sub>m eHist (putLease n l w)"
  using freshVersion_new [of w n] by (auto simp: eHist_put map_le_def eHist_def)

lemma eHist_drop [simp]: "eHist (dropLease n w) = eHist w"
  by (simp add: eHist_def dropLease_def fun_eq_iff)

lemma e_cur_put: "map_of (e_cur (putLease n l w)) = (map_of (e_cur w))(n \<mapsto> freshVersion w)"
  by (simp add: putLease_def update_conv')

lemma eLeases_put: "eLeases (putLease n l w) = (eLeases w)(n \<mapsto> stamp n (freshVersion w) l)"
  by (auto simp: eLeases_def eHist_put fun_eq_iff e_cur_put split: option.splits)

lemma eLeases_drop: "eLeases (dropLease n w) = (eLeases w)(n := None)"
  by (auto simp: eLeases_def eHist_def fun_eq_iff dropLease_def delete_conv' split: option.splits)

lemma eLeases_stamp:
  assumes "eLeases w n = Some l"
  shows "leaseName l = n" and "eHist w (n, leaseVersion l) = Some l"
  using assms by (auto simp: eLeases_def eHist_def stamp_def split: option.splits)

section \<open>Leases\<close>

text \<open>\<open>withFaults p\<close>: the call fails without effect when the schedule says so.\<close>

definition withFaults :: "(Cluster, 'a) go \<Rightarrow> (Cluster, 'a) go" where
  "withFaults p w =
     (case e_faults w of
        [] \<Rightarrow> p w
      | Some e # fs \<Rightarrow> (Inl e, w\<lparr>e_faults := fs\<rparr>)
      | None # fs \<Rightarrow> p (w\<lparr>e_faults := fs\<rparr>))"

text \<open>The lease views depend on nothing but the lease tables.\<close>

lemma view_cong:
  assumes "e_cur w' = e_cur w" and "e_data w' = e_data w"
  shows "eLeases w' = eLeases w" and "eHist w' = eHist w"
  using assms by (simp_all add: eHist_def eLeases_def fun_eq_iff split: option.splits)

lemma faults_view [simp]:
  "eHist (w\<lparr>e_faults := fs\<rparr>) = eHist w" "eLeases (w\<lparr>e_faults := fs\<rparr>) = eLeases w"
  by (rule view_cong; simp)+

definition eGetLease :: "string \<Rightarrow> Cluster \<Rightarrow> goerr + GPULease" where
  "eGetLease n w = (case eLeases w n of None \<Rightarrow> Inl (ErrApi NotFound) | Some l \<Rightarrow> Inr l)"

definition eListLeases :: "Cluster \<Rightarrow> goerr + GPULease list" where
  "eListLeases w = Inr (List.map_filter (eLeases w) (remdups (map fst (e_cur w))))"

definition eCreateLease :: "GPULease \<Rightarrow> (Cluster, GPULease) go" where
  "eCreateLease l w =
     (case eLeases w (leaseName l) of
        Some _ \<Rightarrow> (Inl (ErrApi AlreadyExists), w)
      | None \<Rightarrow>
          let v = freshVersion w;
              m = (l_Meta l)\<lparr>om_UID := ''uid-'' @ showNat v, om_CreationTimestamp := e_now w,
                             om_DeletionTimestamp := None, om_Generation := 1\<rparr>;
              l' = l\<lparr>l_Meta := m, l_Status := emptyStatus\<rparr>
          in (Inr (stamp (leaseName l) v l'), putLease (leaseName l) l' w))"

definition eUpdateStatus :: "GPULease \<Rightarrow> (Cluster, GPULease) go" where
  "eUpdateStatus l w =
     (case eLeases w (leaseName l) of
        None \<Rightarrow> (Inl (ErrApi NotFound), w)
      | Some l0 \<Rightarrow>
          if leaseVersion l0 \<noteq> leaseVersion l then (Inl (ErrApi Conflict), w)
          else let l' = l0\<lparr>l_Status := l_Status l\<rparr>
               in (Inr (stamp (leaseName l) (freshVersion w) l'), putLease (leaseName l) l' w))"

definition eUpdateLease :: "GPULease \<Rightarrow> (Cluster, GPULease) go" where
  "eUpdateLease l w =
     (case eLeases w (leaseName l) of
        None \<Rightarrow> (Inl (ErrApi NotFound), w)
      | Some l0 \<Rightarrow>
          if leaseVersion l0 \<noteq> leaseVersion l then (Inl (ErrApi Conflict), w)
          else let l' = setFinalizers (leaseFinalizers l) (l0\<lparr>l_Spec := l_Spec l\<rparr>)
               in (Inr (stamp (leaseName l) (freshVersion w) l'),
                   if leaseDeleting l0 \<and> leaseFinalizers l = [] then dropLease (leaseName l) w
                   else putLease (leaseName l) l' w))"

definition eDeleteLease :: "GPULease \<Rightarrow> (Cluster, unit) go" where
  "eDeleteLease l w =
     (case eLeases w (leaseName l) of
        None \<Rightarrow> (Inl (ErrApi NotFound), w)
      | Some l0 \<Rightarrow>
          (Inr (),
           if leaseFinalizers l0 = [] then dropLease (leaseName l) w
           else if leaseDeleting l0 then w
           else putLease (leaseName l) (markDeleted (e_now w) l0) w))"

section \<open>Other objects\<close>

definition aGet :: "('k \<times> 'v) list \<Rightarrow> 'k \<Rightarrow> goerr + 'v" where
  "aGet m k = (case map_of m k of None \<Rightarrow> Inl (ErrApi NotFound) | Some v \<Rightarrow> Inr v)"

text \<open>A merge patch sends the keys on which the two versions of the object differ.\<close>

definition mergeKeys :: "strmap \<Rightarrow> strmap \<Rightarrow> strmap \<Rightarrow> strmap" where
  "mergeKeys orig new stored k = (if new k = orig k then stored k else new k)"

definition ePatchPod :: "Pod \<Rightarrow> Pod \<Rightarrow> (Cluster, Pod) go" where
  "ePatchPod p p' w =
     (case map_of (e_pods w) (podNamespace p, podName p) of
        None \<Rightarrow> (Inl (ErrApi NotFound), w)
      | Some q \<Rightarrow>
          let q' = q\<lparr>p_Meta := (p_Meta q)\<lparr>om_Labels := mergeKeys (podLabels p) (podLabels p') (podLabels q),
                       om_Annotations := mergeKeys (podAnnotations p) (podAnnotations p') (podAnnotations q)\<rparr>\<rparr>
          in (Inr q', w\<lparr>e_pods := AList.update (podNamespace p, podName p) q' (e_pods w)\<rparr>))"

definition eCreateWorkload :: "Workload \<Rightarrow> (Cluster, Workload) go" where
  "eCreateWorkload wl w =
     (let k = (om_Namespace (wl_Meta wl), om_Name (wl_Meta wl)) in
      case map_of (e_workloads w) k of
        Some _ \<Rightarrow> (Inl (ErrApi AlreadyExists), w)
      | None \<Rightarrow>
          let wl' = wl\<lparr>wl_Meta := (wl_Meta wl)\<lparr>om_CreationTimestamp := e_now w\<rparr>\<rparr>
          in (Inr wl', w\<lparr>e_workloads := AList.update k wl' (e_workloads w)\<rparr>))"

definition eDeleteWorkload :: "string \<Rightarrow> string \<Rightarrow> (Cluster, unit) go" where
  "eDeleteWorkload ns n w =
     (case map_of (e_workloads w) (ns, n) of
        None \<Rightarrow> (Inl (ErrApi NotFound), w)
      | Some _ \<Rightarrow> (Inr (), w\<lparr>e_workloads := AList.delete (ns, n) (e_workloads w)\<rparr>))"

definition eClient :: "Cluster Client" where
  "eClient =
     \<lparr> getLease = eGetLease, listLeases = eListLeases,
       createLease = (\<lambda>l. withFaults (eCreateLease l)), updateLease = (\<lambda>l. withFaults (eUpdateLease l)),
       updateLeaseStatus = (\<lambda>l. withFaults (eUpdateStatus l)), deleteLease = (\<lambda>l. withFaults (eDeleteLease l)),
       getWorkload = (\<lambda>ns n w. aGet (e_workloads w) (ns, n)),
       createWorkloadObj = (\<lambda>wl. withFaults (eCreateWorkload wl)),
       deleteWorkloadObj = (\<lambda>ns n. withFaults (eDeleteWorkload ns n)),
       getPod = (\<lambda>ns n w. aGet (e_pods w) (ns, n)),
       listPods = (\<lambda>ns sel w. Inr (filter (\<lambda>p. podNamespace p = ns \<and> sel_Matches sel (podLabels p))
                                    (map snd (AList.clearjunk (e_pods w))))),
       patchPod = (\<lambda>p p'. withFaults (ePatchPod p p')),
       getDeployment = (\<lambda>ns n w. aGet (e_deployments w) (ns, n)),
       listDeployments = (\<lambda>ns w. Inr (filter (\<lambda>d. depNamespace d = ns) (map snd (AList.clearjunk (e_deployments w))))),
       getNode = (\<lambda>n w. case find (\<lambda>nd. n_Name nd = n) (e_nodes w) of
                          None \<Rightarrow> Inl (ErrApi NotFound) | Some nd \<Rightarrow> Inr nd),
       listNodes = (\<lambda>w. Inr (e_nodes w)),
       listFlavors = (\<lambda>w. Inr (e_flavors w)) \<rparr>"

section \<open>Library helpers\<close>

fun setCondition :: "gotime \<Rightarrow> Condition list \<Rightarrow> Condition \<Rightarrow> Condition list" where
  "setCondition now [] c =
     [c\<lparr>cond_LastTransitionTime := if cond_LastTransitionTime c = 0 then now else cond_LastTransitionTime c\<rparr>]"
| "setCondition now (old # cs) c =
     (if cond_Type old = cond_Type c
      then (if cond_Status old = cond_Status c then c\<lparr>cond_LastTransitionTime := cond_LastTransitionTime old\<rparr>
            else c\<lparr>cond_LastTransitionTime := if cond_LastTransitionTime c = 0 then now else cond_LastTransitionTime c\<rparr>) # cs
      else old # setCondition now cs c)"

definition eLib :: K8sLib where
  "eLib =
     \<lparr> FindStatusCondition = (\<lambda>cs ty. find (\<lambda>c. cond_Type c = ty) cs),
       SetStatusCondition = setCondition,
       ContainsFinalizer = (\<lambda>l f. f \<in> set (leaseFinalizers l)),
       AddFinalizer = (\<lambda>l f. if f \<in> set (leaseFinalizers l) then l else setFinalizers (leaseFinalizers l @ [f]) l),
       RemoveFinalizer = (\<lambda>l f. setFinalizers (filter (\<lambda>g. g \<noteq> f) (leaseFinalizers l)) l),
       SetControllerReference = (\<lambda>l wl. Inr wl),
       SemanticDeepEqual = (\<lambda>a b. a = b),
       LabelSelectorAsSelector = (\<lambda>s.
         if lsel_MatchExpressions s \<noteq> [] then Inl (Errorf ''unsupported expression'')
         else Inr \<lparr> sel_Matches = (\<lambda>m. \<forall>(k, v) \<in> set (lsel_MatchLabels s). m k = Some v),
                    sel_Empty = (lsel_MatchLabels s = []) \<rparr>) \<rparr>"

definition eRuntime :: "Cluster Runtime" where
  "eRuntime = \<lparr> rt_Lib = eLib, rt_Now = e_now, rt_Metric = (\<lambda>m w. w\<lparr>e_metrics := e_metrics w @ [m]\<rparr>) \<rparr>"

definition eRecorder :: "Cluster Recorder" where
  "eRecorder ob ty rs m w = w\<lparr>e_events := e_events w @ [(ob, ty, rs, m)]\<rparr>"

text \<open>The fake pod client of the repository, living inside the cluster.\<close>

definition onFake :: "(FakeClient, 'a) go \<Rightarrow> (Cluster, 'a) go" where
  "onFake p w = (case p (e_fake w) of (res, f) \<Rightarrow> (res, w\<lparr>e_fake := f\<rparr>))"

definition ePodClient :: "Cluster PodClient" where
  "ePodClient = \<lparr> cl_Activate = (\<lambda>ip req. onFake (fkActivate ip req)), cl_Release = (\<lambda>ip. onFake (fkRelease ip)),
     cl_State = (\<lambda>ip. onFake (fkState ip)) \<rparr>"

definition eLeaseReconciler :: "Cluster GPULeaseReconciler" where
  "eLeaseReconciler = \<lparr> lr_Client = eClient, lr_Recorder = Some eRecorder, lr_PodClient = ePodClient,
     lr_Inventory = Some (New eClient), lr_Clock = None, lr_Runtime = eRuntime \<rparr>"

definition eWarmPoolReconciler :: "Cluster WarmPoolReconciler" where
  "eWarmPoolReconciler = \<lparr> wp_Client = eClient, wp_Recorder = Some eRecorder, wp_Inventory = New eClient,
     wp_ResyncPeriod = 0, wp_FailedLeaseRetention = 0, wp_Runtime = eRuntime \<rparr>"

section \<open>It meets the interfaces\<close>

lemmas eClient_sel = eClient_def

lemma setCondition_same:
  "find (\<lambda>k. cond_Type k = cond_Type c) (setCondition now cs c) =
   Some (case find (\<lambda>k. cond_Type k = cond_Type c) cs of
           None \<Rightarrow> c\<lparr>cond_LastTransitionTime := if cond_LastTransitionTime c = 0 then now else cond_LastTransitionTime c\<rparr>
         | Some old \<Rightarrow>
             if cond_Status old = cond_Status c
             then c\<lparr>cond_LastTransitionTime := cond_LastTransitionTime old\<rparr>
             else c\<lparr>cond_LastTransitionTime := if cond_LastTransitionTime c = 0 then now else cond_LastTransitionTime c\<rparr>)"
  by (induction cs) auto

lemma setCondition_other:
  "ty \<noteq> cond_Type c \<Longrightarrow> find (\<lambda>k. cond_Type k = ty) (setCondition now cs c) = find (\<lambda>k. cond_Type k = ty) cs"
  by (induction cs) auto

interpretation elib: k8s_lib eLib
  by unfold_locales (simp_all add: eLib_def setCondition_same setCondition_other)

text \<open>A call that may fail by schedule: it did nothing, or it ran on a world with the same leases.\<close>

lemma commits_withFaults:
  assumes "\<And>P w. commits eLeases P (eff (eHist (snd (p w)))) w (p w)"
  shows "commits eLeases P (eff (eHist (snd (withFaults p w)))) w (withFaults p w)"
proof -
  have "commits eLeases P (eff (eHist (snd (p (w\<lparr>e_faults := fs\<rparr>))))) w (p (w\<lparr>e_faults := fs\<rparr>))" for fs
    using assms [of P "w\<lparr>e_faults := fs\<rparr>"] by (simp add: commits_def)
  moreover have "commits eLeases P eff' w (Inl e, w\<lparr>e_faults := fs\<rparr>)" for eff' e fs
    by (auto simp: commits_def intro: exI [of _ "eLeases w"])
  ultimately show ?thesis
    using assms [of P w] by (auto simp: withFaults_def split: list.splits option.splits)
qed

lemma hist_withFaults:
  assumes "\<And>w. eHist w \<subseteq>\<^sub>m eHist (snd (p w))"
  shows "eHist w \<subseteq>\<^sub>m eHist (snd (withFaults p w))"
proof -
  have "eHist w \<subseteq>\<^sub>m eHist (snd (p (w\<lparr>e_faults := fs\<rparr>)))" for fs
    using assms [of "w\<lparr>e_faults := fs\<rparr>"] by simp
  then show ?thesis
    using assms [of w] by (auto simp: withFaults_def split: list.splits option.splits)
qed

definition sameTables :: "Cluster \<Rightarrow> Cluster \<Rightarrow> bool" where
  "sameTables w w' \<longleftrightarrow> e_cur w' = e_cur w \<and> e_data w' = e_data w"

lemma sameTables_step: "sameTables w w' \<Longrightarrow> world_step eLeases eHist recorded w w'"
  using view_cong [of w' w] by (simp add: sameTables_def world_step_def)

lemma sameTables_withFaults:
  assumes "\<And>w. sameTables w (snd (p w))"
  shows "sameTables w (snd (withFaults p w))"
proof -
  have "sameTables w (snd (p (w\<lparr>e_faults := fs\<rparr>)))" for fs
    using assms [of "w\<lparr>e_faults := fs\<rparr>"] by (simp add: sameTables_def)
  then show ?thesis
    using assms [of w] by (auto simp: withFaults_def sameTables_def split: list.splits option.splits)
qed

lemma stamp_setVersion: "leaseName l = n \<Longrightarrow> stamp n v l = setVersion v l"
  by (simp add: stamp_def setVersion_def)

lemma commitsI: "(case fst rw of Inr x \<Rightarrow> eff (leases w) (leases (snd rw)) x | Inl e \<Rightarrow> leases (snd rw) = leases w) \<Longrightarrow>
   commits leases P eff w rw"
  by (auto simp: commits_def intro!: exI [of _ "leases w"] split: sum.splits)

lemma eCreate_commits: "commits eLeases P (create_effect l) w (eCreateLease l w)"
  by (rule commitsI)
    (auto simp: eCreateLease_def Let_def create_effect_def eLeases_put stamp_def split: option.splits)

lemma eCreate_hist: "eHist w \<subseteq>\<^sub>m eHist (snd (eCreateLease l w))"
  by (auto simp: eCreateLease_def Let_def eHist_put_le split: option.splits)

lemma eUpdateStatus_hist: "eHist w \<subseteq>\<^sub>m eHist (snd (eUpdateStatus l w))"
  by (auto simp: eUpdateStatus_def Let_def eHist_put_le split: option.splits)

lemma eUpdateLease_hist: "eHist w \<subseteq>\<^sub>m eHist (snd (eUpdateLease l w))"
  by (auto simp: eUpdateLease_def Let_def eHist_put_le split: option.splits)

lemma eDelete_hist: "eHist w \<subseteq>\<^sub>m eHist (snd (eDeleteLease l w))"
  by (auto simp: eDeleteLease_def Let_def eHist_put_le split: option.splits)

lemma eDelete_commits: "commits eLeases P (\<lambda>s s' _. delete_effect l s s') w (eDeleteLease l w)"
proof (rule commitsI, cases "eLeases w (leaseName l)")
  case (Some l0)
  then have "leaseName l0 = leaseName l" by (rule eLeases_stamp)
  then have "stamp (leaseName l) v (markDeleted t l0) = setVersion v (markDeleted t l0)" for v t
    by (intro stamp_setVersion) (simp add: markDeleted_def)
  with Some show "case fst (eDeleteLease l w) of Inl e \<Rightarrow> eLeases (snd (eDeleteLease l w)) = eLeases w
      | Inr x \<Rightarrow> delete_effect l (eLeases w) (eLeases (snd (eDeleteLease l w)))"
    by (auto simp: eDeleteLease_def delete_effect_def eLeases_put eLeases_drop)
qed (simp add: eDeleteLease_def)

lemma eUpdateStatus_commits:
  "commits eLeases P (status_effect (eHist (snd (eUpdateStatus l w))) l) w (eUpdateStatus l w)"
proof (rule commitsI, cases "eLeases w (leaseName l)")
  case (Some l0)
  then have n: "leaseName l0 = leaseName l" and h: "eHist w (leaseName l, leaseVersion l0) = Some l0"
    by (rule eLeases_stamp)+
  have "stamp (leaseName l) v (l0\<lparr>l_Status := l_Status l\<rparr>) = setVersion v (l0\<lparr>l_Status := l_Status l\<rparr>)" for v
    using n by (intro stamp_setVersion) simp
  moreover have "leaseVersion l0 \<noteq> freshVersion w"
    using h freshVersion_new [of w "leaseName l"] by (auto simp: eHist_def)
  ultimately show "case fst (eUpdateStatus l w) of Inl e \<Rightarrow> eLeases (snd (eUpdateStatus l w)) = eLeases w
      | Inr x \<Rightarrow> status_effect (eHist (snd (eUpdateStatus l w))) l (eLeases w) (eLeases (snd (eUpdateStatus l w))) x"
    using Some h by (auto simp: eUpdateStatus_def Let_def status_effect_def eLeases_put eHist_put)
qed (simp add: eUpdateStatus_def)

lemma eUpdateLease_commits:
  "commits eLeases P (update_effect (eHist (snd (eUpdateLease l w))) l) w (eUpdateLease l w)"
proof (rule commitsI, cases "eLeases w (leaseName l)")
  case (Some l0)
  let ?l' = "setFinalizers (leaseFinalizers l) (l0\<lparr>l_Spec := l_Spec l\<rparr>)"
  from Some have n: "leaseName l0 = leaseName l" and h: "eHist w (leaseName l, leaseVersion l0) = Some l0"
    by (rule eLeases_stamp)+
  have st: "stamp (leaseName l) v ?l' = setVersion v ?l'" for v
    using n by (intro stamp_setVersion) (simp add: setFinalizers_def)
  have "leaseVersion l0 \<noteq> freshVersion w"
    using h freshVersion_new [of w "leaseName l"] by (auto simp: eHist_def)
  with Some h st show "case fst (eUpdateLease l w) of Inl e \<Rightarrow> eLeases (snd (eUpdateLease l w)) = eLeases w
      | Inr x \<Rightarrow> update_effect (eHist (snd (eUpdateLease l w))) l (eLeases w) (eLeases (snd (eUpdateLease l w))) x"
    by (auto simp: eUpdateLease_def Let_def update_effect_def eLeases_put eLeases_drop eHist_put)
qed (simp add: eUpdateLease_def)

lemma map_filter_names:
  "l \<in> set (List.map_filter (eLeases w) ns) \<Longrightarrow> eHist w (leaseName l, leaseVersion l) = Some l"
  using eLeases_stamp by (fastforce simp: List.map_filter_def)

interpretation eserver: lease_server eClient eLeases eHist recorded
proof
  show "recorded (eHist w) (eLeases w)" for w
    using eLeases_stamp by (simp add: recorded_def)
  show "recorded h s \<Longrightarrow> h \<subseteq>\<^sub>m h' \<Longrightarrow> recorded h' s" for h h' s
    by (rule recorded_mono)
  show "getLease eClient n w = Inr l \<Longrightarrow> leaseName l = n \<and> eHist w (n, leaseVersion l) = Some l" for n w l
    by (auto simp: eClient_def eGetLease_def dest: eLeases_stamp split: option.splits)
  show "listLeases eClient w = Inr ls \<Longrightarrow> l \<in> set ls \<Longrightarrow> eHist w (leaseName l, leaseVersion l) = Some l" for w ls l
    by (auto simp: eClient_def eListLeases_def map_filter_names)
  show "eHist w \<subseteq>\<^sub>m eHist (snd (createLease eClient l w))"
    and "eHist w \<subseteq>\<^sub>m eHist (snd (updateLeaseStatus eClient l w))"
    and "eHist w \<subseteq>\<^sub>m eHist (snd (updateLease eClient l w))"
    and "eHist w \<subseteq>\<^sub>m eHist (snd (deleteLease eClient l w))" for w l
    by (simp_all add: eClient_def hist_withFaults eCreate_hist eUpdateStatus_hist eUpdateLease_hist eDelete_hist)
  show "commits eLeases (recorded (eHist (snd (createLease eClient l w)))) (create_effect l) w (createLease eClient l w)"
    and "commits eLeases (recorded (eHist (snd (deleteLease eClient l w)))) (\<lambda>s s' _. delete_effect l s s') w (deleteLease eClient l w)"
    for w l
    using commits_withFaults [of "\<lambda>_. create_effect l", OF eCreate_commits]
      commits_withFaults [of "\<lambda>_ s s' _. delete_effect l s s'", OF eDelete_commits]
    by (simp_all add: eClient_def)
  show "commits eLeases (recorded (eHist (snd (updateLeaseStatus eClient l w)))) (status_effect (eHist (snd (updateLeaseStatus eClient l w))) l) w (updateLeaseStatus eClient l w)"
    for w l
    using commits_withFaults [of "\<lambda>h. status_effect h l", OF eUpdateStatus_commits] by (simp add: eClient_def)
  show "commits eLeases (recorded (eHist (snd (updateLease eClient l w)))) (update_effect (eHist (snd (updateLease eClient l w))) l) w (updateLease eClient l w)"
    for w l
    using commits_withFaults [of "\<lambda>h. update_effect h l", OF eUpdateLease_commits] by (simp add: eClient_def)
  show "world_step eLeases eHist recorded w (snd (patchPod eClient p p' w))" for w p p'
    by (auto simp: eClient_def ePatchPod_def sameTables_def Let_def intro!: sameTables_step sameTables_withFaults
        split: option.splits)
  show "world_step eLeases eHist recorded w (snd (createWorkloadObj eClient wl w))" for w wl
    by (auto simp: eClient_def eCreateWorkload_def sameTables_def Let_def intro!: sameTables_step sameTables_withFaults
        split: option.splits)
  show "world_step eLeases eHist recorded w (snd (deleteWorkloadObj eClient ns n w))" for w ns n
    by (auto simp: eClient_def eDeleteWorkload_def sameTables_def intro!: sameTables_step sameTables_withFaults
        split: option.splits)
qed

lemma onFake_step: "world_step eLeases eHist recorded w (snd (onFake p w))"
  by (rule sameTables_step) (simp add: onFake_def sameTables_def split: prod.splits)

lemma eEvent_step: "world_step eLeases eHist recorded w (eRecorder ob ty rs m w)"
  by (rule sameTables_step) (simp add: eRecorder_def sameTables_def)

lemma eMetric_step: "world_step eLeases eHist recorded w (rt_Metric eRuntime mop w)"
  by (rule sameTables_step) (simp add: eRuntime_def sameTables_def)

interpretation elr: lease_env eLeaseReconciler eLeases eHist recorded
proof (intro lease_env.intro)
  show "lease_server (lr_Client eLeaseReconciler) eLeases eHist recorded"
    by (simp add: eLeaseReconciler_def eserver.lease_server_axioms)
  show "k8s_lib (lrLib eLeaseReconciler)"
    by (simp add: eLeaseReconciler_def eRuntime_def elib.k8s_lib_axioms)
  show "lease_env_axioms eLeaseReconciler eLeases eHist recorded"
    by unfold_locales (simp_all add: eLeaseReconciler_def ePodClient_def onFake_step eEvent_step eMetric_step)
qed

interpretation ewp: pool_env eWarmPoolReconciler eLeases eHist recorded "heldIDs eClient"
proof (intro pool_env.intro)
  show "lease_server (wp_Client eWarmPoolReconciler) eLeases eHist recorded"
    by (simp add: eWarmPoolReconciler_def eserver.lease_server_axioms)
  show "k8s_lib (wpLib eWarmPoolReconciler)"
    by (simp add: eWarmPoolReconciler_def eRuntime_def elib.k8s_lib_axioms)
  show "gpu_inventory (wp_Inventory eWarmPoolReconciler) (heldIDs eClient)"
    by (simp add: eWarmPoolReconciler_def ci.gpu_inventory_axioms)
  show "pool_env_axioms eWarmPoolReconciler eLeases eHist recorded"
    by unfold_locales (simp_all add: eWarmPoolReconciler_def eEvent_step eMetric_step)
qed

end
