(* ===== verification/HealthyCluster.thy ===== *)
theory HealthyCluster
  imports LeaseReconciler WarmPool ApiServer
begin

text \<open>
  The interface of an undisturbed cluster: while it is \<open>healthy\<close>, reads are current and writes
  that the API server must accept succeed, each changing exactly one entry of the \<open>view\<close>. Over
  this interface the handlers have exact results; what happens when calls fail or others
  interfere is the subject of the safety theories.
\<close>

section \<open>The view\<close>

record View =
  v_leases :: lstore
  v_pods :: "string \<times> string \<Rightarrow> Pod option"
  v_workloads :: "string \<times> string \<Rightarrow> Workload option"
  v_life :: "string \<Rightarrow> string" \<comment> \<open>lifecycle of the pod behind an IP\<close>

definition setLease :: "string \<Rightarrow> GPULease option \<Rightarrow> View \<Rightarrow> View" where
  "setLease n l v = v\<lparr>v_leases := (v_leases v)(n := l)\<rparr>"

definition setPod :: "string \<times> string \<Rightarrow> Pod option \<Rightarrow> View \<Rightarrow> View" where
  "setPod k p v = v\<lparr>v_pods := (v_pods v)(k := p)\<rparr>"

definition setWorkload :: "string \<times> string \<Rightarrow> Workload option \<Rightarrow> View \<Rightarrow> View" where
  "setWorkload k wl v = v\<lparr>v_workloads := (v_workloads v)(k := wl)\<rparr>"

definition setLife :: "string \<Rightarrow> string \<Rightarrow> View \<Rightarrow> View" where
  "setLife ip x v = v\<lparr>v_life := (v_life v)(ip := x)\<rparr>"

lemma view_sel [simp]:
  "v_leases (setLease n l v) = (v_leases v)(n := l)" "v_pods (setLease n l v) = v_pods v"
  "v_workloads (setLease n l v) = v_workloads v" "v_life (setLease n l v) = v_life v"
  "v_leases (setPod k p v) = v_leases v" "v_pods (setPod k p v) = (v_pods v)(k := p)"
  "v_workloads (setPod k p v) = v_workloads v" "v_life (setPod k p v) = v_life v"
  "v_leases (setWorkload k wl v) = v_leases v" "v_pods (setWorkload k wl v) = v_pods v"
  "v_workloads (setWorkload k wl v) = (v_workloads v)(k := wl)" "v_life (setWorkload k wl v) = v_life v"
  "v_leases (setLife ip x v) = v_leases v" "v_pods (setLife ip x v) = v_pods v"
  "v_workloads (setLife ip x v) = v_workloads v" "v_life (setLife ip x v) = (v_life v)(ip := x)"
  by (simp_all add: setLease_def setPod_def setWorkload_def setLife_def)

definition withMeta :: "Pod \<Rightarrow> strmap \<Rightarrow> strmap \<Rightarrow> Pod" where
  "withMeta p L A = p\<lparr>p_Meta := (p_Meta p)\<lparr>om_Labels := L, om_Annotations := A\<rparr>\<rparr>"

definition found :: "'a option \<Rightarrow> goerr + 'a" where
  "found r = (case r of None \<Rightarrow> Inl (ErrApi NotFound) | Some x \<Rightarrow> Inr x)"

lemma found_simps [simp]: "found None = Inl (ErrApi NotFound)" "found (Some x) = Inr x"
  by (simp_all add: found_def)

section \<open>The client\<close>

locale healthy_client =
  fixes c :: "'w Client" and view :: "'w \<Rightarrow> View" and healthy :: "'w \<Rightarrow> bool"
  assumes lease_named: "healthy w \<Longrightarrow> v_leases (view w) n = Some l \<Longrightarrow> leaseName l = n"
    and pod_named: "healthy w \<Longrightarrow> v_pods (view w) k = Some p \<Longrightarrow> k = (podNamespace p, podName p)"
    and get_lease: "healthy w \<Longrightarrow> getLease c n w = found (v_leases (view w) n)"
    and get_pod: "healthy w \<Longrightarrow> getPod c ns n w = found (v_pods (view w) (ns, n))"
    and get_workload: "healthy w \<Longrightarrow> getWorkload c ns n w = found (v_workloads (view w) (ns, n))"
    and put_status: "healthy w \<Longrightarrow> v_leases (view w) (leaseName l) = Some l0 \<Longrightarrow> leaseVersion l0 = leaseVersion l \<Longrightarrow>
      \<exists>v w'. updateLeaseStatus c l w = (Inr (setVersion v (l0\<lparr>l_Status := l_Status l\<rparr>)), w') \<and> healthy w' \<and>
        view w' = setLease (leaseName l) (Some (setVersion v (l0\<lparr>l_Status := l_Status l\<rparr>))) (view w)"
    and put_lease: "healthy w \<Longrightarrow> v_leases (view w) (leaseName l) = Some l0 \<Longrightarrow> leaseVersion l0 = leaseVersion l \<Longrightarrow>
      \<exists>v w'. let l' = setVersion v (setFinalizers (leaseFinalizers l) (l0\<lparr>l_Spec := l_Spec l\<rparr>)) in
        updateLease c l w = (Inr l', w') \<and> healthy w' \<and>
        view w' = setLease (leaseName l)
          (if leaseDeleting l0 \<and> leaseFinalizers l = [] then None else Some l') (view w)"
    and drop_lease: "healthy w \<Longrightarrow> v_leases (view w) (leaseName l) = Some l0 \<Longrightarrow>
      \<exists>x w'. deleteLease c l w = (Inr (), w') \<and> healthy w' \<and>
        view w' = setLease (leaseName l) (if leaseFinalizers l0 = [] then None else Some x) (view w) \<and>
        leaseDeleting x \<and> l_Status x = l_Status l0 \<and> l_Spec x = l_Spec l0"
    and drop_workload: "healthy w \<Longrightarrow>
      \<exists>w'. deleteWorkloadObj c ns n w =
             (if v_workloads (view w) (ns, n) = None then Inl (ErrApi NotFound) else Inr (), w') \<and> healthy w' \<and>
        view w' = setWorkload (ns, n) None (view w)"
    and put_workload: "healthy w \<Longrightarrow>
      v_workloads (view w) (om_Namespace (wl_Meta wl), om_Name (wl_Meta wl)) = None \<Longrightarrow>
      \<exists>wl' w'. createWorkloadObj c wl w = (Inr wl', w') \<and> healthy w' \<and> wl_Spec wl' = wl_Spec wl \<and>
        view w' = setWorkload (om_Namespace (wl_Meta wl), om_Name (wl_Meta wl)) (Some wl') (view w)"
    and patch_pod: "healthy w \<Longrightarrow> v_pods (view w) (podNamespace p, podName p) = Some p \<Longrightarrow>
      \<exists>w'. patchPod c p (withMeta p L A) w = (Inr (withMeta p L A), w') \<and> healthy w' \<and>
        view w' = setPod (podNamespace p, podName p) (Some (withMeta p L A)) (view w)"

text \<open>What the two pod patches of the GPULease reconciler make of a pod.\<close>

lemma markHot_meta: "markHot l p = withMeta p (podLabels (markHot l p)) (podAnnotations (markHot l p))"
  by (simp add: markHot_def withMeta_def pod_update_defs)

lemma revertWarm_meta: "revertWarm p = withMeta p (podLabels (revertWarm p)) (podAnnotations (revertWarm p))"
  by (simp add: revertWarm_def withMeta_def pod_update_defs)

definition podWarm :: "Pod \<Rightarrow> bool" where
  "podWarm p \<longleftrightarrow> podState p = StateWarm \<and> podAnnotations p AnnotationLease = None \<and>
     podAnnotations p AnnotationGPUID = None \<and> podAnnotations p AnnotationGPUModel = None \<and>
     podAnnotations p AnnotationPodDeletionCost = Some PodDeletionCostWarm"

definition podHotFor :: "GPULease \<Rightarrow> Pod \<Rightarrow> bool" where
  "podHotFor l p \<longleftrightarrow> podState p = StateHot \<and> podAnnotations p AnnotationLease = Some (leaseName l) \<and>
     podAnnotations p AnnotationGPUID = Some (showInt (leaseGPU l)) \<and>
     podAnnotations p AnnotationGPUModel = Some (ls_GPUModel (l_Spec l)) \<and>
     podAnnotations p AnnotationPodDeletionCost = Some PodDeletionCostHot"

lemma revertWarm_warm: "podWarm (revertWarm p)"
  by (simp add: podWarm_def revertWarm_def pod_update_defs pod_annotation_defs podState_def state_defs)

lemma markHot_hot: "podHotFor l (markHot l p)"
  by (simp add: podHotFor_def markHot_def pod_update_defs pod_annotation_defs podState_def state_defs)

text \<open>Whether the pod's claim is this lease's: the same incarnation of the pod.\<close>

definition claims :: "GPULease \<Rightarrow> Pod \<Rightarrow> bool" where
  "claims l p \<longleftrightarrow> ref_UID (claimOf l) = '''' \<or> om_UID (p_Meta p) = ref_UID (claimOf l)"

text \<open>The lease failed for this reason, its claim and finalizers as before.\<close>

definition leaseFailed :: "K8sLib \<Rightarrow> string \<Rightarrow> GPULease \<Rightarrow> GPULease \<Rightarrow> bool" where
  "leaseFailed lib reason l l' \<longleftrightarrow> l_Spec l' = l_Spec l \<and> leaseName l' = leaseName l \<and> leasePhase l' = PhaseFailed \<and>
     leaseFinalizers l' = leaseFinalizers l \<and> failedLeaseFailureReason lib l' = reason"

text \<open>The pods after the claim pod of a lease has been handed back.\<close>

definition releasedPods :: "GPULease \<Rightarrow> (string \<times> string \<Rightarrow> Pod option) \<Rightarrow> string \<times> string \<Rightarrow> Pod option" where
  "releasedPods l P =
     (case P (ref_Namespace (claimOf l), ref_Name (claimOf l)) of
        Some p \<Rightarrow> if claims l p then P((ref_Namespace (claimOf l), ref_Name (claimOf l)) \<mapsto> revertWarm p) else P
      | None \<Rightarrow> P)"

lemma releasedPods_cong: "l_Spec l' = l_Spec l \<Longrightarrow> releasedPods l' = releasedPods l"
  unfolding releasedPods_def fun_eq_iff claims_def by (erule ssubst) simp

definition finalizersLeft :: "GPULease \<Rightarrow> string list" where
  "finalizersLeft l = filter (\<lambda>g. g \<noteq> Finalizer) (leaseFinalizers l)"

text \<open>The same lease after status writes: a new version and status, all else as before.\<close>

definition restatus :: "GPULease \<Rightarrow> GPULease \<Rightarrow> bool" where
  "restatus l l' \<longleftrightarrow> l_Spec l' = l_Spec l \<and> leaseName l' = leaseName l \<and> leaseFinalizers l' = leaseFinalizers l \<and>
     leaseDeleting l' = leaseDeleting l"

lemma restatus_written [simp]: "restatus l (setVersion v (l\<lparr>l_Status := st\<rparr>))"
  by (simp add: restatus_def setVersion_def)

section \<open>The GPULease reconciler's environment\<close>

locale healthy_env = healthy_client "lr_Client r" view healthy + k8s_lib "lrLib r"
  for r :: "'w GPULeaseReconciler" and view :: "'w \<Rightarrow> View" and healthy :: "'w \<Rightarrow> bool" +
  assumes activate_pod: "healthy w \<Longrightarrow> cl_Activate (lr_PodClient r) ip req w = (res, w') \<Longrightarrow>
      healthy w' \<and> (res \<noteq> Inr () \<and> view w' = view w \<or>
        (\<exists>x \<in> {PcStateActivating, PcStateHot}. view w' = setLife ip x (view w)))"
    and release_pod: "healthy w \<Longrightarrow> cl_Release (lr_PodClient r) ip w = (res, w') \<Longrightarrow>
      healthy w' \<and> (res \<noteq> Inr () \<and> view w' = view w \<or>
        (\<exists>x. x \<notin> {PcStateActivating, PcStateHot} \<and> view w' = setLife ip x (view w)))"
    and pod_state: "healthy w \<Longrightarrow> cl_State (lr_PodClient r) ip w = (st, w') \<Longrightarrow>
      healthy w' \<and> view w' = view w \<and> (\<forall>s. st = Inr s \<longrightarrow> sr_State s = v_life (view w) ip)"
    and record_event: "healthy w \<Longrightarrow> lr_Recorder r = Some eventf \<Longrightarrow>
      healthy (eventf ob ty rs m w) \<and> view (eventf ob ty rs m w) = view w"
    and own_workload: "\<exists>wl. SetControllerReference (lrLib r) l (buildWorkload l) = Inr wl"
    and set_metric: "healthy w \<Longrightarrow> healthy (rt_Metric (lr_Runtime r) mop w) \<and> view (rt_Metric (lr_Runtime r) mop w) = view w"
begin

lemma lrEvent_view:
  "healthy w \<Longrightarrow> healthy (lrEvent r l ty rs m w)" "healthy w \<Longrightarrow> view (lrEvent r l ty rs m w) = view w"
  by (cases "lr_Recorder r"; simp add: lrEvent_def record_event)+

lemma deleteWorkload_healthy:
  assumes "healthy w"
  obtains w' where "deleteWorkload r l w = (Inr (), w')" and "healthy w'"
    and "view w' = setWorkload (ref_Namespace (claimOf l), leaseName l) None (view w)"
proof -
  obtain w' where d: "deleteWorkloadObj (lr_Client r) (ref_Namespace (claimOf l)) (leaseName l) w =
      (if v_workloads (view w) (ref_Namespace (claimOf l), leaseName l) = None then Inl (ErrApi NotFound) else Inr (), w')"
    and w': "healthy w'" "view w' = setWorkload (ref_Namespace (claimOf l), leaseName l) None (view w)"
    using drop_workload [OF assms, of "ref_Namespace (claimOf l)" "leaseName l"] by auto
  have "deleteWorkload r l w = (Inr (), w')"
    using d by (simp add: deleteWorkload_def bnd_attempt_app workloadName_def split: if_splits)
  then show ?thesis using that w' by blast
qed

lemma getClaimPod_healthy:
  "healthy w \<Longrightarrow> getClaimPod r l w = Inr (v_pods (view w) (ref_Namespace (claimOf l), ref_Name (claimOf l)))"
  by (cases "v_pods (view w) (ref_Namespace (claimOf l), ref_Name (claimOf l))") (simp_all add: getClaimPod_def get_pod)

lemma revert_healthy:
  assumes "healthy w" and "v_pods (view w) k = Some p"
  shows "healthy (snd (revertPodToWarm (lr_Client r) p w)) \<and>
    view (snd (revertPodToWarm (lr_Client r) p w)) = setPod k (Some (revertWarm p)) (view w)"
proof -
  have k: "k = (podNamespace p, podName p)" using pod_named [OF assms] .
  obtain w' where "patchPod (lr_Client r) p (revertWarm p) w = (Inr (revertWarm p), w')" and "healthy w'"
      "view w' = setPod k (Some (revertWarm p)) (view w)"
    using patch_pod [OF assms(1), of p "podLabels (revertWarm p)" "podAnnotations (revertWarm p)"] assms(2) k
      revertWarm_meta [of p] by auto
  then show ?thesis by (simp add: revertPodToWarm_def mapErr_app)
qed

text \<open>
  Releasing the claim pod touches nothing but that pod, whatever the pod itself answers, and
  leaves it labelled warm.
\<close>

lemma releaseClaimPod_healthy:
  assumes h: "healthy w"
  shows "healthy (releaseClaimPod r l w) \<and> v_leases (view (releaseClaimPod r l w)) = v_leases (view w) \<and>
    v_workloads (view (releaseClaimPod r l w)) = v_workloads (view w) \<and>
    v_pods (view (releaseClaimPod r l w)) = releasedPods l (v_pods (view w))"
proof (cases "v_pods (view w) (ref_Namespace (claimOf l), ref_Name (claimOf l))")
  case None
  then show ?thesis using h by (simp add: releaseClaimPod_def getClaimPod_healthy releasedPods_def)
next
  case (Some p)
  let ?w1 = "if p_PodIP p \<noteq> '''' then snd (cl_Release (lr_PodClient r) (p_PodIP p) w) else w"
  obtain res w1 where rel: "cl_Release (lr_PodClient r) (p_PodIP p) w = (res, w1)" by fastforce
  have "healthy w1 \<and> v_leases (view w1) = v_leases (view w) \<and> v_pods (view w1) = v_pods (view w) \<and>
      v_workloads (view w1) = v_workloads (view w)"
    using release_pod [OF h rel] by auto
  then have w1: "healthy ?w1" "v_leases (view ?w1) = v_leases (view w)" "v_pods (view ?w1) = v_pods (view w)"
    "v_workloads (view ?w1) = v_workloads (view w)"
    using rel h by auto
  have rev: "healthy (snd (revertPodToWarm (lr_Client r) p ?w1)) \<and>
      view (snd (revertPodToWarm (lr_Client r) p ?w1)) =
        setPod (ref_Namespace (claimOf l), ref_Name (claimOf l)) (Some (revertWarm p)) (view ?w1)"
    by (rule revert_healthy) (use w1 Some in simp_all)
  have eq: "releaseClaimPod r l w = (if claims l p then snd (revertPodToWarm (lr_Client r) p ?w1) else w)"
    using Some h by (auto simp: releaseClaimPod_def getClaimPod_healthy claims_def Let_def)
  show ?thesis
  proof (cases "claims l p")
    case True
    with eq rev w1 Some show ?thesis by (simp add: releasedPods_def)
  next
    case False
    with eq h Some show ?thesis by (simp add: releasedPods_def)
  qed
qed

subsection \<open>Failing\<close>

lemma setStatus_condition:
  "FindStatusCondition (lrLib r) (lt_Conditions (l_Status (setLeaseCondition r ct st rs m w l))) ct \<noteq> None \<and>
   (\<forall>cd. FindStatusCondition (lrLib r) (lt_Conditions (l_Status (setLeaseCondition r ct st rs m w l))) ct = Some cd \<longrightarrow>
      cond_Status cd = st \<and> cond_Reason cd = rs)"
  using set_condition_same [of _ _ "\<lparr> cond_Type = ct, cond_Status = st,
      cond_ObservedGeneration = om_Generation (l_Meta l), cond_LastTransitionTime = 0, cond_Reason = rs, cond_Message = m \<rparr>"]
  by (auto simp: setLeaseCondition_def split: option.splits)

lemma lease_updates [simp]:
  "l_Meta (setLeaseCondition r ct st rs m w l) = l_Meta l" "l_Spec (setLeaseCondition r ct st rs m w l) = l_Spec l"
  "leasePhase (setLeaseCondition r ct st rs m w l) = leasePhase l"
  "l_Meta (setPhase ph m l) = l_Meta l" "l_Spec (setPhase ph m l) = l_Spec l" "leasePhase (setPhase ph m l) = ph"
  by (simp_all add: setLeaseCondition_def setPhase_def)

lemma setVersion_sel [simp]:
  "l_Spec (setVersion v l) = l_Spec l" "l_Status (setVersion v l) = l_Status l" "leaseName (setVersion v l) = leaseName l"
  "leaseFinalizers (setVersion v l) = leaseFinalizers l"
  "om_DeletionTimestamp (l_Meta (setVersion v l)) = om_DeletionTimestamp (l_Meta l)"
  by (simp_all add: setVersion_def)

text \<open>A status write of a current lease.\<close>

lemma status_healthy:
  assumes "healthy w" and "v_leases (view w) (leaseName l0) = Some l0" and "l_Meta l = l_Meta l0"
  obtains v w' where "updateLeaseStatus (lr_Client r) l w = (Inr (setVersion v (l0\<lparr>l_Status := l_Status l\<rparr>)), w')"
    and "healthy w'"
    and "view w' = setLease (leaseName l0) (Some (setVersion v (l0\<lparr>l_Status := l_Status l\<rparr>))) (view w)"
  using put_status [OF assms(1), of l l0] assms(2,3) by auto

lemma transitionToFailed_healthy:
  assumes h: "healthy w" and cur: "v_leases (view w) (leaseName l) = Some l"
  shows "\<exists>w' l'. transitionToFailed r l reason m w = (Inr resultDone, w') \<and> healthy w' \<and>
    v_leases (view w') = (v_leases (view w))(leaseName l \<mapsto> l') \<and> leaseFailed (lrLib r) reason l l' \<and>
    v_workloads (view w') = (v_workloads (view w))((ref_Namespace (claimOf l), leaseName l) := None) \<and>
    v_pods (view w') = releasedPods l (v_pods (view w))"
proof -
  obtain w1 where d: "deleteWorkload r l w = (Inr (), w1)" and h1: "healthy w1"
    and v1: "view w1 = setWorkload (ref_Namespace (claimOf l), leaseName l) None (view w)"
    using deleteWorkload_healthy [OF h] .
  let ?w2 = "releaseClaimPod r l w1"
  note rel = releaseClaimPod_healthy [OF h1, of l]
  let ?l1 = "setLeaseCondition r ConditionReady ConditionFalse reason m ?w2 (setPhase PhaseFailed m l)"
  have cur2: "v_leases (view ?w2) (leaseName l) = Some l" using rel v1 cur by simp
  obtain v w3 where u: "updateLeaseStatus (lr_Client r) ?l1 ?w2 = (Inr (setVersion v (l\<lparr>l_Status := l_Status ?l1\<rparr>)), w3)"
    and h3: "healthy w3" and v3: "view w3 = setLease (leaseName l) (Some (setVersion v (l\<lparr>l_Status := l_Status ?l1\<rparr>))) (view ?w2)"
    using status_healthy [OF _ cur2, of ?l1] rel by auto
  let ?l' = "setVersion v (l\<lparr>l_Status := l_Status ?l1\<rparr>)"
  have "leaseFailed (lrLib r) reason l ?l'"
    using setStatus_condition [of ConditionReady ConditionFalse reason m ?w2 "setPhase PhaseFailed m l"]
    by (auto simp: leaseFailed_def failedLeaseFailureReason_def)
  moreover let ?w4 = "lrEvent r ?l' EventTypeWarning reason m
        (rt_Metric (lr_Runtime r) (LeaseAcquireFailuresTotal (ref_Name (deploymentOf l)) reason) w3)"
  have "transitionToFailed r l reason m w = (Inr resultDone, ?w4)"
    using d u by (simp add: transitionToFailed_def bnd_app [of "deleteWorkload r l"] bnd_app [of "mapErr _ _"] mapErr_app)
  moreover have "healthy ?w4" and "view ?w4 = view w3"
    using set_metric [OF h3] by (simp_all add: lrEvent_view)
  ultimately show ?thesis
    using rel v1 v3 by (intro exI [of _ ?w4] exI [of _ ?l']) simp
qed

subsection \<open>Releasing\<close>

definition releaseTail :: "GPULease \<Rightarrow> ('w, Result) go" where
  "releaseTail l =
     bnd (deleteWorkload r l) (\<lambda>_.
     bnd (act (releaseClaimPod r l)) (\<lambda>_.
     bnd (wrapErr ''remove finalizer'' (updateLease (lr_Client r) (RemoveFinalizer (lrLib r) l Finalizer))) (\<lambda>lease.
     bnd (act (lrEvent r lease EventTypeNormal EventReasonReleased
            (Sprintf ''released GPU lease (node %s, gpu %d)'' [FStr (leaseNode lease), FInt (leaseGPU lease)])))
     (\<lambda>_. ret resultDone))))"

lemma reconcileDeletion_tail:
  "reconcileDeletion r l =
     (if Finalizer \<notin> set (leaseFinalizers l) then ret resultDone
      else bnd (if leasePhase l \<noteq> PhaseReleasing
                then wrapErr ''update lease status to Releasing''
                       (updateLeaseStatus (lr_Client r) (l\<lparr>l_Status := (l_Status l)\<lparr>lt_Phase := PhaseReleasing\<rparr>\<rparr>))
                else ret l) releaseTail)"
  by (simp add: reconcileDeletion_def releaseTail_def [abs_def] contains_finalizer)

lemma releaseTail_healthy:
  assumes h: "healthy w" and cur: "v_leases (view w) (leaseName l) = Some l" and del: "leaseDeleting l"
  shows "\<exists>w' l'. releaseTail l w = (Inr resultDone, w') \<and> healthy w' \<and>
    v_leases (view w') = (v_leases (view w))(leaseName l := if finalizersLeft l = [] then None else Some l') \<and>
    leaseFinalizers l' = finalizersLeft l \<and>
    v_workloads (view w') = (v_workloads (view w))((ref_Namespace (claimOf l), leaseName l) := None) \<and>
    v_pods (view w') = releasedPods l (v_pods (view w))"
proof -
  obtain w1 where d: "deleteWorkload r l w = (Inr (), w1)" and h1: "healthy w1"
    and v1: "view w1 = setWorkload (ref_Namespace (claimOf l), leaseName l) None (view w)"
    using deleteWorkload_healthy [OF h] .
  let ?w2 = "releaseClaimPod r l w1" and ?l1 = "RemoveFinalizer (lrLib r) l Finalizer"
  note rel = releaseClaimPod_healthy [OF h1, of l]
  have l1: "leaseName ?l1 = leaseName l" "leaseVersion ?l1 = leaseVersion l" "leaseFinalizers ?l1 = finalizersLeft l"
    "l_Spec ?l1 = l_Spec l"
    by (simp_all add: remove_finalizer setFinalizers_def finalizersLeft_def)
  have "v_leases (view ?w2) (leaseName ?l1) = Some l" using rel v1 cur l1 by simp
  then obtain v w3 where u: "updateLease (lr_Client r) ?l1 ?w2 =
      (Inr (setVersion v (setFinalizers (finalizersLeft l) l)), w3)" and h3: "healthy w3"
    and v3: "view w3 = setLease (leaseName l) (if finalizersLeft l = [] then None
        else Some (setVersion v (setFinalizers (finalizersLeft l) l))) (view ?w2)"
    using put_lease [of ?w2 ?l1 l] rel l1 del by (auto simp: Let_def)
  let ?l' = "setVersion v (setFinalizers (finalizersLeft l) l)"
  let ?w4 = "lrEvent r ?l' EventTypeNormal EventReasonReleased
    (Sprintf ''released GPU lease (node %s, gpu %d)'' [FStr (leaseNode ?l'), FInt (leaseGPU ?l')]) w3"
  have "releaseTail l w = (Inr resultDone, ?w4)"
    using d u by (simp add: releaseTail_def bnd_app [of "deleteWorkload r l"] bnd_app [of "mapErr _ _"] mapErr_app)
  moreover have "healthy ?w4" "view ?w4 = view w3" using h3 by (simp_all add: lrEvent_view)
  moreover have "leaseFinalizers ?l' = finalizersLeft l" by (simp add: setFinalizers_def)
  ultimately show ?thesis
    using rel v1 v3 by (intro exI [of _ ?w4] exI [of _ ?l']) simp
qed

lemma reconcileDeletion_healthy:
  assumes h: "healthy w" and cur: "v_leases (view w) (leaseName l) = Some l" and del: "leaseDeleting l"
    and fin: "Finalizer \<in> set (leaseFinalizers l)"
  shows "\<exists>w' l'. reconcileDeletion r l w = (Inr resultDone, w') \<and> healthy w' \<and>
    v_leases (view w') = (v_leases (view w))(leaseName l := if finalizersLeft l = [] then None else Some l') \<and>
    leaseFinalizers l' = finalizersLeft l \<and>
    v_workloads (view w') = (v_workloads (view w))((ref_Namespace (claimOf l), leaseName l) := None) \<and>
    v_pods (view w') = releasedPods l (v_pods (view w))"
proof (cases "leasePhase l = PhaseReleasing")
  case True
  then have "reconcileDeletion r l w = releaseTail l w" using fin by (simp add: reconcileDeletion_tail)
  then show ?thesis using releaseTail_healthy [OF h cur del] by simp
next
  case False
  let ?l1 = "l\<lparr>l_Status := (l_Status l)\<lparr>lt_Phase := PhaseReleasing\<rparr>\<rparr>"
  obtain v w1 where u: "updateLeaseStatus (lr_Client r) ?l1 w = (Inr (setVersion v (l\<lparr>l_Status := l_Status ?l1\<rparr>)), w1)"
    and h1: "healthy w1" and v1: "view w1 = setLease (leaseName l) (Some (setVersion v (l\<lparr>l_Status := l_Status ?l1\<rparr>))) (view w)"
    using status_healthy [OF h cur, of ?l1] by auto
  let ?l' = "setVersion v (l\<lparr>l_Status := l_Status ?l1\<rparr>)"
  have same: "leaseName ?l' = leaseName l" "finalizersLeft ?l' = finalizersLeft l" "claimOf ?l' = claimOf l"
    by (simp_all add: finalizersLeft_def)
  have pods: "releasedPods ?l' = releasedPods l" by (rule releasedPods_cong) simp
  have "reconcileDeletion r l w = releaseTail ?l' w1"
    using u False fin by (simp add: reconcileDeletion_tail bnd_app [of "mapErr _ _"] mapErr_app)
  moreover have "v_leases (view w1) (leaseName ?l') = Some ?l'" "leaseDeleting ?l'" using v1 del by simp_all
  ultimately show ?thesis
    using releaseTail_healthy [OF h1, of ?l'] v1 same pods by simp
qed

subsection \<open>Activating and binding\<close>

lemma withClaim_healthy:
  assumes "healthy w" and "v_pods (view w) (ref_Namespace (claimOf l), ref_Name (claimOf l)) = Some p"
    and "claimValid (Some p) l None"
  shows "withClaim r l fmt k w = k p w"
  using assms leaseOrphanReason_valid [of "Some p" l None]
  by (simp add: withClaim_def bnd_query_app getClaimPod_healthy)

lemma reconcileAdmitted_healthy:
  assumes h: "healthy w" and cur: "v_leases (view w) (leaseName l) = Some l"
    and p: "v_pods (view w) (ref_Namespace (claimOf l), ref_Name (claimOf l)) = Some p"
    and valid: "claimValid (Some p) l None" and ip: "p_PodIP p \<noteq> ''''"
    and acc: "fst (cl_Activate (lr_PodClient r) (p_PodIP p) (activateRequest l) w) = Inr ()"
  shows "\<exists>w' l'. reconcileAdmitted r l w = (Inr (resultAfter pollInterval), w') \<and> healthy w' \<and>
    v_leases (view w') = (v_leases (view w))(leaseName l \<mapsto> l') \<and> leasePhase l' = PhaseActivating \<and> restatus l l' \<and> l_Spec l' = l_Spec l \<and>
    v_life (view w') (p_PodIP p) \<in> {PcStateActivating, PcStateHot} \<and>
    v_pods (view w') = v_pods (view w) \<and> v_workloads (view w') = v_workloads (view w)"
proof -
  obtain w1 where a: "cl_Activate (lr_PodClient r) (p_PodIP p) (activateRequest l) w = (Inr (), w1)"
    using acc by (metis prod.collapse)
  obtain x where h1: "healthy w1" and x: "x \<in> {PcStateActivating, PcStateHot}" and v1: "view w1 = setLife (p_PodIP p) x (view w)"
    using activate_pod [OF h a] by auto
  let ?m = "Sprintf ''POST /lease accepted by pod %s/%s; waiting for state hot'' (podRefArgs p)"
  let ?l1 = "setLeaseCondition r ConditionPodActivated ConditionFalse ''Activating'' ?m w1 (setPhase PhaseActivating ?m l)"
  have cur1: "v_leases (view w1) (leaseName l) = Some l" using v1 cur by simp
  obtain v w2 where u: "updateLeaseStatus (lr_Client r) ?l1 w1 = (Inr (setVersion v (l\<lparr>l_Status := l_Status ?l1\<rparr>)), w2)"
    and h2: "healthy w2" and v2: "view w2 = setLease (leaseName l) (Some (setVersion v (l\<lparr>l_Status := l_Status ?l1\<rparr>))) (view w1)"
    using status_healthy [OF h1 cur1, of ?l1] by auto
  let ?l' = "setVersion v (l\<lparr>l_Status := l_Status ?l1\<rparr>)"
  let ?w3 = "lrEvent r ?l' EventTypeNormal EventReasonActivating ?m w2"
  have "reconcileAdmitted r l w = (Inr (resultAfter pollInterval), ?w3)"
    using a u ip by (simp add: reconcileAdmitted_def withClaim_healthy [OF h p valid] bnd_attempt_app
        bnd_app [of "mapErr _ _"] mapErr_app Let_def)
  moreover have "healthy ?w3" "view ?w3 = view w2" using h2 by (simp_all add: lrEvent_view)
  ultimately show ?thesis
    using v1 v2 x by (intro exI [of _ ?w3] exI [of _ ?l']) simp
qed

lemma bindLease_healthy:
  assumes h: "healthy w" and cur: "v_leases (view w) (leaseName l) = Some l"
    and p: "v_pods (view w) k = Some p"
  shows "\<exists>w' l'. bindLease r l p w = (Inr (resultAfter boundPollInterval), w') \<and> healthy w' \<and>
    v_leases (view w') = (v_leases (view w))(leaseName l \<mapsto> l') \<and> leasePhase l' = PhaseBound \<and> restatus l l' \<and> l_Spec l' = l_Spec l \<and>
    lt_BoundAt (l_Status l') \<noteq> None \<and> v_pods (view w') = (v_pods (view w))(k \<mapsto> markHot l p)"
proof -
  have k: "k = (podNamespace p, podName p)" using pod_named [OF h p] .
  obtain w1 where pat: "patchPod (lr_Client r) p (markHot l p) w = (Inr (markHot l p), w1)" and h1: "healthy w1"
    and v1: "view w1 = setPod k (Some (markHot l p)) (view w)"
    using patch_pod [OF h, of p "podLabels (markHot l p)" "podAnnotations (markHot l p)"] p k markHot_meta [of l p] by auto
  let ?m = "Sprintf ''pod %s/%s reported state hot'' (podRefArgs (markHot l p))"
  let ?b = "(setPhase PhaseBound ?m l)\<lparr>l_Status := (l_Status (setPhase PhaseBound ?m l))\<lparr>lt_BoundAt := Some (lrNow r w1)\<rparr>\<rparr>"
  let ?l1 = "setLeaseCondition r ConditionReady ConditionTrue ''Bound'' ?m w1
    (setLeaseCondition r ConditionPodActivated ConditionTrue ''Hot'' ?m w1 ?b)"
  have cur1: "v_leases (view w1) (leaseName l) = Some l" using v1 cur by simp
  obtain v w2 where u: "updateLeaseStatus (lr_Client r) ?l1 w1 = (Inr (setVersion v (l\<lparr>l_Status := l_Status ?l1\<rparr>)), w2)"
    and h2: "healthy w2" and v2: "view w2 = setLease (leaseName l) (Some (setVersion v (l\<lparr>l_Status := l_Status ?l1\<rparr>))) (view w1)"
    using status_healthy [OF h1 cur1, of ?l1] by auto
  let ?l' = "setVersion v (l\<lparr>l_Status := l_Status ?l1\<rparr>)"
  let ?w3 = "lrEvent r ?l' EventTypeNormal EventReasonBound (Sprintf ''%s; lease bound'' [FMsg ?m]) w2"
  have "bindLease r l p w = (Inr (resultAfter boundPollInterval), ?w3)"
    using pat u by (simp add: bindLease_def markPodHot_def bnd_app [of "mapErr _ _"] mapErr_app Let_def)
  moreover have "healthy ?w3" "view ?w3 = view w2" using h2 by (simp_all add: lrEvent_view)
  moreover have "lt_BoundAt (l_Status ?l1) \<noteq> None" by (simp add: setLeaseCondition_def)
  ultimately show ?thesis
    using v1 v2 by (intro exI [of _ ?w3] exI [of _ ?l']) simp
qed

lemma reconcileActivating_healthy:
  assumes h: "healthy w" and cur: "v_leases (view w) (leaseName l) = Some l"
    and p: "v_pods (view w) (ref_Namespace (claimOf l), ref_Name (claimOf l)) = Some p"
    and valid: "claimValid (Some p) l None" and hot: "v_life (view w) (p_PodIP p) = PcStateHot"
    and ans: "\<exists>s. fst (cl_State (lr_PodClient r) (p_PodIP p) w) = Inr s"
  shows "\<exists>w' l'. reconcileActivating r l w = (Inr (resultAfter boundPollInterval), w') \<and> healthy w' \<and>
    v_leases (view w') = (v_leases (view w))(leaseName l \<mapsto> l') \<and> leasePhase l' = PhaseBound \<and> restatus l l' \<and> l_Spec l' = l_Spec l \<and>
    lt_BoundAt (l_Status l') \<noteq> None \<and>
    v_pods (view w') = (v_pods (view w))((ref_Namespace (claimOf l), ref_Name (claimOf l)) \<mapsto> markHot l p)"
proof -
  obtain s w1 where st: "cl_State (lr_PodClient r) (p_PodIP p) w = (Inr s, w1)" using ans by (metis prod.collapse)
  have w1: "healthy w1" "view w1 = view w" "sr_State s = PcStateHot" using pod_state [OF h st] hot by auto
  have "reconcileActivating r l w = bindLease r l p w1"
    using st w1(3) by (simp add: reconcileActivating_def withClaim_healthy [OF h p valid] bnd_attempt_app)
  then show ?thesis
    using bindLease_healthy [of w1 l _ p] w1 cur p by simp
qed

subsection \<open>One reconcile\<close>

lemma fold_metric_healthy:
  "healthy w \<Longrightarrow> healthy (fold (\<lambda>(n, x). rt_Metric (lr_Runtime r) (f n x)) xs w) \<and>
    view (fold (\<lambda>(n, x). rt_Metric (lr_Runtime r) (f n x)) xs w) = view w"
proof (induction xs arbitrary: w)
  case (Cons a xs)
  then show ?case using set_metric [of w] Cons.IH by (auto split: prod.splits)
qed simp

lemma refreshMetrics_healthy: "healthy w \<Longrightarrow> healthy (refreshMetrics r w) \<and> view (refreshMetrics r w) = view w"
  by (auto simp: refreshMetrics_def Let_def fold_metric_healthy split: sum.splits option.splits)

lemma leaseReconcile_live:
  assumes "healthy w" and "v_leases (view w) n = Some l" and "\<not> leaseDeleting l" and "Finalizer \<in> set (leaseFinalizers l)"
  shows "leaseReconcile r n w = (case reconcilePhase r l w of (res, w') \<Rightarrow> (res, refreshMetrics r w'))"
  using assms by (simp add: leaseReconcile_def get_lease contains_finalizer andFinally_def)

lemma leaseReconcile_deleting:
  assumes "healthy w" and "v_leases (view w) n = Some l" and "leaseDeleting l"
  shows "leaseReconcile r n w = (case reconcileDeletion r l w of (res, w') \<Rightarrow> (res, refreshMetrics r w'))"
  using assms by (simp add: leaseReconcile_def get_lease andFinally_def)

lemma leaseReconcile_deletion:
  assumes h: "healthy w" and cur: "v_leases (view w) n = Some l" and del: "leaseDeleting l"
    and fin: "Finalizer \<in> set (leaseFinalizers l)"
  shows "\<exists>w' l'. leaseReconcile r n w = (Inr resultDone, w') \<and> healthy w' \<and>
    v_leases (view w') = (v_leases (view w))(n := if finalizersLeft l = [] then None else Some l') \<and>
    leaseFinalizers l' = finalizersLeft l \<and>
    v_workloads (view w') = (v_workloads (view w))((ref_Namespace (claimOf l), n) := None) \<and>
    v_pods (view w') = releasedPods l (v_pods (view w))"
proof -
  have n: "leaseName l = n" using lease_named [OF h cur] .
  with cur have cur': "v_leases (view w) (leaseName l) = Some l" by simp
  obtain w1 l' where "reconcileDeletion r l w = (Inr resultDone, w1)" "healthy w1"
      "v_leases (view w1) = (v_leases (view w))(leaseName l := if finalizersLeft l = [] then None else Some l')"
      "leaseFinalizers l' = finalizersLeft l"
      "v_workloads (view w1) = (v_workloads (view w))((ref_Namespace (claimOf l), leaseName l) := None)"
      "v_pods (view w1) = releasedPods l (v_pods (view w))"
    using reconcileDeletion_healthy [OF h cur' del fin] by blast
  then show ?thesis
    using leaseReconcile_deleting [OF h cur del] refreshMetrics_healthy [of w1] n
    by (intro exI [of _ "refreshMetrics r w1"] exI [of _ l']) simp
qed

lemma leaseReconcile_admitted:
  assumes h: "healthy w" and cur: "v_leases (view w) n = Some l" and live: "\<not> leaseDeleting l"
    and fin: "Finalizer \<in> set (leaseFinalizers l)" and ph: "leasePhase l = PhaseAdmitted"
    and p: "v_pods (view w) (ref_Namespace (claimOf l), ref_Name (claimOf l)) = Some p"
    and valid: "claimValid (Some p) l None" and ip: "p_PodIP p \<noteq> ''''"
    and acc: "fst (cl_Activate (lr_PodClient r) (p_PodIP p) (activateRequest l) w) = Inr ()"
  shows "\<exists>w' l'. leaseReconcile r n w = (Inr (resultAfter pollInterval), w') \<and> healthy w' \<and>
    v_leases (view w') = (v_leases (view w))(n \<mapsto> l') \<and> leasePhase l' = PhaseActivating \<and> restatus l l' \<and> l_Spec l' = l_Spec l \<and>
    v_life (view w') (p_PodIP p) \<in> {PcStateActivating, PcStateHot} \<and>
    v_pods (view w') = v_pods (view w) \<and> v_workloads (view w') = v_workloads (view w)"
proof -
  have n: "leaseName l = n" using lease_named [OF h cur] .
  with cur have cur': "v_leases (view w) (leaseName l) = Some l" by simp
  obtain w1 l' where "reconcileAdmitted r l w = (Inr (resultAfter pollInterval), w1)" "healthy w1"
      "v_leases (view w1) = (v_leases (view w))(leaseName l \<mapsto> l')" "leasePhase l' = PhaseActivating" "restatus l l'" "l_Spec l' = l_Spec l"
      "v_life (view w1) (p_PodIP p) \<in> {PcStateActivating, PcStateHot}"
      "v_pods (view w1) = v_pods (view w)" "v_workloads (view w1) = v_workloads (view w)"
    using reconcileAdmitted_healthy [OF h cur' p valid ip acc] by blast
  then show ?thesis
    using leaseReconcile_live [OF h cur live fin] refreshMetrics_healthy [of w1] n ph
    by (intro exI [of _ "refreshMetrics r w1"] exI [of _ l']) (simp add: reconcilePhase_def)
qed

lemma leaseReconcile_activating:
  assumes h: "healthy w" and cur: "v_leases (view w) n = Some l" and live: "\<not> leaseDeleting l"
    and fin: "Finalizer \<in> set (leaseFinalizers l)" and ph: "leasePhase l = PhaseActivating"
    and p: "v_pods (view w) (ref_Namespace (claimOf l), ref_Name (claimOf l)) = Some p"
    and valid: "claimValid (Some p) l None" and hot: "v_life (view w) (p_PodIP p) = PcStateHot"
    and ans: "\<exists>s. fst (cl_State (lr_PodClient r) (p_PodIP p) w) = Inr s"
  shows "\<exists>w' l' p'. leaseReconcile r n w = (Inr (resultAfter boundPollInterval), w') \<and> healthy w' \<and>
    v_leases (view w') = (v_leases (view w))(n \<mapsto> l') \<and> leasePhase l' = PhaseBound \<and> restatus l l' \<and> l_Spec l' = l_Spec l \<and>
    lt_BoundAt (l_Status l') \<noteq> None \<and>
    v_pods (view w') = (v_pods (view w))((ref_Namespace (claimOf l), ref_Name (claimOf l)) \<mapsto> p') \<and> podHotFor l p'"
proof -
  have n: "leaseName l = n" using lease_named [OF h cur] .
  with cur have cur': "v_leases (view w) (leaseName l) = Some l" by simp
  obtain w1 l' where "reconcileActivating r l w = (Inr (resultAfter boundPollInterval), w1)" "healthy w1"
      "v_leases (view w1) = (v_leases (view w))(leaseName l \<mapsto> l')" "leasePhase l' = PhaseBound" "restatus l l'" "l_Spec l' = l_Spec l"
      "lt_BoundAt (l_Status l') \<noteq> None"
      "v_pods (view w1) = (v_pods (view w))((ref_Namespace (claimOf l), ref_Name (claimOf l)) \<mapsto> markHot l p)"
    using reconcileActivating_healthy [OF h cur' p valid hot ans] by blast
  then show ?thesis
    using leaseReconcile_live [OF h cur live fin] refreshMetrics_healthy [of w1] n ph markHot_hot [of l p]
    by (intro exI [of _ "refreshMetrics r w1"] exI [of _ l'] exI [of _ "markHot l p"]) (simp add: reconcilePhase_def)
qed

text \<open>A lease in an active phase whose claim is no longer valid fails, for the reason found.\<close>

lemma leaseReconcile_orphan:
  assumes h: "healthy w" and cur: "v_leases (view w) n = Some l" and live: "\<not> leaseDeleting l"
    and fin: "Finalizer \<in> set (leaseFinalizers l)" and ph: "leasePhase l \<in> {PhaseAdmitted, PhaseActivating, PhaseBound}"
    and orphan: "leaseOrphanReason (v_pods (view w) (ref_Namespace (claimOf l), ref_Name (claimOf l))) l None = reason"
    and bad: "reason \<noteq> ''''"
  shows "\<exists>w' l'. leaseReconcile r n w = (Inr resultDone, w') \<and> healthy w' \<and>
    v_leases (view w') = (v_leases (view w))(n \<mapsto> l') \<and> leaseFailed (lrLib r) reason l l' \<and>
    v_workloads (view w') = (v_workloads (view w))((ref_Namespace (claimOf l), n) := None) \<and>
    v_pods (view w') = releasedPods l (v_pods (view w))"
proof -
  have n: "leaseName l = n" using lease_named [OF h cur] .
  with cur have cur': "v_leases (view w) (leaseName l) = Some l" by simp
  have "withClaim r l fmt k w = transitionToFailed r l reason (Sprintf fmt [FStr reason]) w" for fmt k
    using orphan bad by (simp add: withClaim_def bnd_query_app getClaimPod_healthy [OF h] Let_def)
  then obtain m where "reconcilePhase r l w = transitionToFailed r l reason m w"
    using ph by (auto simp: reconcilePhase_def reconcileAdmitted_def reconcileActivating_def reconcileBound_def)
  moreover obtain w1 l' where "transitionToFailed r l reason m w = (Inr resultDone, w1)" "healthy w1"
      "v_leases (view w1) = (v_leases (view w))(leaseName l \<mapsto> l')" "leaseFailed (lrLib r) reason l l'"
      "v_workloads (view w1) = (v_workloads (view w))((ref_Namespace (claimOf l), leaseName l) := None)"
      "v_pods (view w1) = releasedPods l (v_pods (view w))"
    using transitionToFailed_healthy [OF h cur'] by blast
  ultimately show ?thesis
    using leaseReconcile_live [OF h cur live fin] refreshMetrics_healthy [of w1] n
    by (intro exI [of _ "refreshMetrics r w1"] exI [of _ l']) simp
qed

end

end
