(* ===== verification/HealthyPool.thy ===== *)
theory HealthyPool
  imports HealthyCluster
begin

text \<open>
  The WarmPool reconciler: what its loops count and return over any client, and what garbage
  collection achieves in a healthy cluster.
\<close>

section \<open>Counting promotions\<close>

text \<open>
  \<open>made\<close> counts the leases that have been created. A successful create makes one more; \<open>AlreadyExists\<close> none;
  any other error of a create may hide one that took effect, its answer lost.
\<close>

locale lease_count =
  fixes r :: "'w WarmPoolReconciler" and made :: "'w \<Rightarrow> nat"
  assumes create_made: "createLease (wp_Client r) l w = (Inr l', w') \<Longrightarrow> made w' = Suc (made w)"
    and create_failed: "createLease (wp_Client r) l w = (Inl e, w') \<Longrightarrow>
      made w' = made w \<or> made w' = Suc (made w) \<and> \<not> IsAlreadyExists e \<and> \<not> errorsIs e ErrExhausted"
    and patch_made: "made (snd (patchPod (wp_Client r) p p' w)) = made w"
    and metric_made: "made (rt_Metric (wp_Runtime r) mop w) = made w"
    and event_made: "wp_Recorder r = Some eventf \<Longrightarrow> made (eventf ob ty rs m w) = made w"
begin

lemma wpEvent_made [simp]: "made (wpEvent r d ty rs m w) = made w"
  by (cases "wp_Recorder r") (simp_all add: wpEvent_def event_made)

lemma snd_mapErr: "snd (mapErr g p w) = snd (p w)"
  by (simp add: mapErr_app split: prod.splits sum.splits)

text \<open>An acquisition makes one lease if it succeeds, none if no GPU is free, at most one if it fails.\<close>

definition acquired :: "goerr + GPULease \<Rightarrow> nat \<Rightarrow> nat \<Rightarrow> bool" where
  "acquired res a b \<longleftrightarrow> (case res of Inr _ \<Rightarrow> b = Suc a
     | Inl e \<Rightarrow> b = a \<or> b = Suc a \<and> \<not> errorsIs e ErrExhausted)"

lemma tryCreateLease_made:
  "tryCreateLease (wp_Client r) mk ids w = (res, w') \<Longrightarrow> acquired res (made w) (made w')"
proof (induction ids arbitrary: w)
  case (Cons i ids)
  obtain x w1 where c: "createLease (wp_Client r) (mk i) w = (x, w1)" by fastforce
  show ?case
  proof (cases x)
    case (Inr l)
    then show ?thesis using Cons.prems c create_made by (auto simp: bnd_attempt_app acquired_def)
  next
    case (Inl e)
    then show ?thesis
      using Cons.prems c create_failed [of "mk i" w e w1] Cons.IH [of w1]
      by (cases "IsAlreadyExists e") (auto simp: bnd_attempt_app acquired_def)
  qed
qed (auto simp: acquired_def)

lemma acquired_none [simp]: "acquired (Inl e) a a"
  by (simp add: acquired_def)

lemma acquire_made:
  assumes "acquireLeaseOnNode r dep st p nd w = (res, w')"
  shows "acquired res (made w) (made w')"
  using assms by (auto simp: acquireLeaseOnNode_def bnd_app mapErr_app split: sum.splits if_splits prod.splits intro: tryCreateLease_made)

lemma promoteLoop_made:
  "promoteLoop r dep st need k pods w = (res, w') \<Longrightarrow> k \<le> need \<Longrightarrow>
   made w \<le> made w' \<and> int (made w' - made w) \<le> need - k \<and>
   (\<forall>n. res = Inr n \<longrightarrow> n = k + int (made w' - made w) \<and> made w' - made w \<le> length pods)"
proof (induction pods arbitrary: k w)
  case (Cons p pods)
  show ?case
  proof (cases "need \<le> k")
    case False
    obtain x w1 where a: "acquireLeaseOnNode r dep st p (p_NodeName p) w = (x, w1)" by fastforce
    note m = acquire_made [OF a]
    show ?thesis
    proof (cases x)
      case (Inl e)
      show ?thesis
      proof (cases "errorsIs e ErrExhausted")
        case True
        then have "promoteLoop r dep st need k pods w1 = (res, w')" "made w1 = made w"
          using Cons.prems False a Inl m by (simp_all add: bnd_attempt_app acquired_def)
        with Cons.IH [of k w1] Cons.prems(2) show ?thesis by fastforce
      next
        case other: False
        then have "res = Inl e" "w' = w1" using Cons.prems False a Inl by (simp_all add: bnd_attempt_app)
        then show ?thesis using False Inl m by (auto simp: acquired_def)
      qed
    next
      case (Inr l)
      obtain y w2 where pt: "patchPodStateLabel (wp_Client r) p StateActivating w1 = (y, w2)" by fastforce
      have w2: "made w2 = made w1"
        using arg_cong [OF pt, of snd] patch_made [of p "setLabel StateLabelKey StateActivating p" w1]
        by (simp add: patchPodStateLabel_def snd_mapErr)
      show ?thesis
      proof (cases y)
        case e: (Inl e)
        then have "w' = w2" "res = Inl e"
          using Cons.prems False a Inr pt by (simp_all add: bnd_attempt_app bnd_app [of "patchPodStateLabel _ _ _"])
        then show ?thesis using False Inr m w2 by (auto simp: acquired_def)
      next
        case q: (Inr q)
        then obtain w3 where w3: "promoteLoop r dep st need (k + 1) pods w3 = (res, w')" "made w3 = Suc (made w)"
          using Cons.prems False a Inr pt m w2
          by (auto simp: bnd_attempt_app bnd_app [of "patchPodStateLabel _ _ _"] acquired_def metric_made)
        from Cons.IH [OF w3(1)] w3(2) False show ?thesis by force
      qed
    qed
  qed (use Cons.prems in auto)
qed auto

lemma promote_made:
  assumes "promote r dep st pods need free w = (res, w')" and "0 \<le> need"
  shows "made w \<le> made w' \<and> int (made w' - made w) \<le> need \<and>
    (\<forall>n. res = Inr n \<longrightarrow> n = int (made w' - made w) \<and> n \<le> int (length (sortPromotionCandidates pods free)))"
proof -
  obtain x w1 where l: "promoteLoop r dep st need 0 (sortPromotionCandidates pods free) w = (x, w1)" by fastforce
  have "res = x \<and> made w' = made w1"
  proof (cases x)
    case (Inl e)
    then show ?thesis using assms(1) l by (simp add: promote_def Let_def bnd_app [of "promoteLoop _ _ _ _ _ _"])
  next
    case (Inr n)
    have "fst (promote r dep st pods need free w) = Inr n \<and> made (snd (promote r dep st pods need free w)) = made w1"
      unfolding promote_def Let_def bnd_app [of "promoteLoop _ _ _ _ _ _"] l Inr prod.case sum.case
      by (simp add: bnd_app [of "bnd (act f) (\<lambda>_. act g)" for f g] metric_made)
    with assms(1) Inr show ?thesis by simp
  qed
  then have r: "res = x" and m: "made w' = made w1" by simp_all
  note loop = promoteLoop_made [OF l assms(2)]
  show ?thesis
    unfolding r m
  proof (intro conjI allI impI)
    show "made w \<le> made w1" "int (made w1 - made w) \<le> need" using loop by (simp_all del: of_nat_diff)
    show "n = int (made w1 - made w)" "n \<le> int (length (sortPromotionCandidates pods free))" if "x = Inr n" for n
      using loop that by (simp_all del: of_nat_diff)
  qed
qed

end

section \<open>When to come back\<close>

lemma minPositive_bounds: "0 < a \<Longrightarrow> 0 < minPositiveDuration a b \<and> minPositiveDuration a b \<le> a"
  by (simp add: minPositiveDuration_def)

lemma effectiveResync_pos: "0 < effectiveResyncPeriod r"
  by (simp add: effectiveResyncPeriod_def DefaultWarmPoolResyncPeriod_def Second_def)

lemma effectiveRetention_pos: "0 < effectiveFailedLeaseRetention r"
  by (simp add: effectiveFailedLeaseRetention_def DefaultFailedLeaseRetention_def Second_def)

lemma minPositive_le: "0 < b \<Longrightarrow> minPositiveDuration a b \<le> b"
  by (simp add: minPositiveDuration_def)

text \<open>A Deployment that is there, opted in and selects its pods in a way the library can read.\<close>

definition poolManages :: "'w WarmPoolReconciler \<Rightarrow> Deployment \<Rightarrow> bool" where
  "poolManages r dep \<longleftrightarrow> IsManaged (depAnnotations dep) \<and> (\<exists>sel. deploymentSelector (wpLib r) dep = Inr sel)"

lemma warmPoolReconcile_managed:
  assumes "warmPoolReconcile r ns n w = (Inr res, w')" and "getDeployment (wp_Client r) ns n w = Inr dep"
    and "IsManaged (depAnnotations dep)" and "deploymentSelector (wpLib r) dep = Inr sel"
  shows "\<not> Requeue res \<and> 0 < RequeueAfter res \<and> RequeueAfter res \<le> max (effectiveResyncPeriod r) blockedPromotionRequeueAfter \<and>
    (\<exists>q w1. reconcileOrphans r dep sel w = (Inr q, w1) \<and> (0 < q \<longrightarrow> RequeueAfter res \<le> q))"
proof -
  obtain q w1 b where o: "wrapErr ''reconcile orphaned/failed leases'' (reconcileOrphans r dep sel) w = (Inr q, w1)"
    and res: "res = resultAfter (minPositiveDuration (if b then blockedPromotionRequeueAfter else effectiveResyncPeriod r) q)"
    using assms by (simp add: warmPoolReconcile_def Let_def bnd_eq_Inr_iff) blast
  have q: "reconcileOrphans r dep sel w = (Inr q, w1)"
    using o by (simp add: mapErr_app split: prod.splits sum.splits)
  define p where "p = (if b then blockedPromotionRequeueAfter else effectiveResyncPeriod r)"
  have p: "p \<in> {blockedPromotionRequeueAfter, effectiveResyncPeriod r}" and res: "res = resultAfter (minPositiveDuration p q)"
    using res by (simp_all add: p_def)
  have "0 < p" using p effectiveResync_pos [of r] by (auto simp: blockedPromotionRequeueAfter_def Second_def)
  with q p res minPositive_bounds [of p q] minPositive_le [of q p] show ?thesis by (auto simp: resultAfter_def)
qed

lemma warmPoolReconcile_unmanaged:
  assumes "warmPoolReconcile r ns n w = (Inr res, w')"
    and "\<And>dep. getDeployment (wp_Client r) ns n w = Inr dep \<Longrightarrow> \<not> poolManages r dep"
  shows "res = resultDone \<and> w' = w"
  using assms by (auto simp: warmPoolReconcile_def poolManages_def Let_def asks_app bnd_app split: sum.splits if_splits)

section \<open>Garbage collection in a healthy cluster\<close>

locale healthy_pool = healthy_client "wp_Client r" view healthy + k8s_lib "wpLib r"
  for r :: "'w WarmPoolReconciler" and view :: "'w \<Rightarrow> View" and healthy :: "'w \<Rightarrow> bool" +
  assumes record_event: "healthy w \<Longrightarrow> wp_Recorder r = Some eventf \<Longrightarrow>
      healthy (eventf ob ty rs m w) \<and> view (eventf ob ty rs m w) = view w"
begin

lemma wpEvent_view:
  "healthy w \<Longrightarrow> healthy (wpEvent r d ty rs m w)" "healthy w \<Longrightarrow> view (wpEvent r d ty rs m w) = view w"
  by (cases "wp_Recorder r"; simp add: wpEvent_def record_event)+

lemma reclaim_young:
  assumes "age = time_sub (rt_Now (wp_Runtime r) w) (failedSince (wpLib r) l)"
    and "age < effectiveFailedLeaseRetention r"
  shows "reclaimFailedLease r d l w = (Inr (False, wrap64 (effectiveFailedLeaseRetention r - age)), w)"
  using assms by (simp add: reclaimFailedLease_def Let_def)

text \<open>The lease object as the store holds it once the finalizer is stripped.\<close>

lemma strip_healthy:
  assumes h: "healthy w" and cur: "v_leases (view w) (leaseName l) = Some l" and live: "\<not> leaseDeleting l"
    and only: "set (leaseFinalizers l) \<subseteq> {Finalizer}"
  obtains l' w' where "(if ContainsFinalizer (wpLib r) l Finalizer
      then updateLease (wp_Client r) (RemoveFinalizer (wpLib r) l Finalizer) else ret l) w = (Inr l', w')"
    and "healthy w'" and "view w' = setLease (leaseName l) (Some l') (view w)" and "leaseName l' = leaseName l"
    and "leaseFinalizers l' = []"
proof (cases "Finalizer \<in> set (leaseFinalizers l)")
  case True
  let ?l1 = "RemoveFinalizer (wpLib r) l Finalizer"
  have l1: "leaseName ?l1 = leaseName l" "leaseVersion ?l1 = leaseVersion l" "leaseFinalizers ?l1 = []" "l_Spec ?l1 = l_Spec l"
    using only by (auto simp: remove_finalizer setFinalizers_def filter_empty_conv)
  obtain v w1 where "updateLease (wp_Client r) ?l1 w = (Inr (setVersion v (setFinalizers [] l)), w1)" "healthy w1"
      "view w1 = setLease (leaseName l) (Some (setVersion v (setFinalizers [] l))) (view w)"
    using put_lease [OF h, of ?l1 l] cur l1 live by (auto simp: Let_def)
  then show ?thesis
    using that [of "setVersion v (setFinalizers [] l)" w1] True
    by (simp add: contains_finalizer setVersion_def setFinalizers_def)
next
  case False
  with only have "leaseFinalizers l = []" by (cases "leaseFinalizers l") auto
  moreover have "setLease (leaseName l) (Some l) (view w) = view w"
    using cur by (simp add: setLease_def fun_upd_idem)
  ultimately show ?thesis
    using that [of l w] False h by (simp add: contains_finalizer)
qed

lemma reclaim_old:
  assumes h: "healthy w" and cur: "v_leases (view w) (leaseName l) = Some l" and live: "\<not> leaseDeleting l"
    and only: "set (leaseFinalizers l) \<subseteq> {Finalizer}"
    and old: "effectiveFailedLeaseRetention r \<le> time_sub (rt_Now (wp_Runtime r) w) (failedSince (wpLib r) l)"
  shows "\<exists>w'. reclaimFailedLease r d l w = (Inr (True, 0), w') \<and> healthy w' \<and>
    view w' = setLease (leaseName l) None (view w)"
proof -
  let ?strip = "if ContainsFinalizer (wpLib r) l Finalizer
      then updateLease (wp_Client r) (RemoveFinalizer (wpLib r) l Finalizer) else ret l"
  obtain l' w1 where s: "?strip w = (Inr l', w1)" and h1: "healthy w1"
    and v1: "view w1 = setLease (leaseName l) (Some l') (view w)" and n: "leaseName l' = leaseName l" and f: "leaseFinalizers l' = []"
    using strip_healthy [OF h cur live only] .
  obtain w2 where del: "deleteLease (wp_Client r) l' w1 = (Inr (), w2)" and h2: "healthy w2"
    and v2: "view w2 = setLease (leaseName l) None (view w1)"
    using drop_lease [OF h1, of l' l'] v1 n f by auto
  let ?w3 = "wpEvent r d EventTypeNormal EventReasonFailedLeaseReclaimed
    (Sprintf ''reclaiming Failed GPULease %s (node %s, gpu %d) after %s: original failure reason %s: %s''
       [FStr (leaseName l), FStr (leaseNode l), FInt (leaseGPU l), FDur (effectiveFailedLeaseRetention r),
        FStr (failedLeaseFailureReason (wpLib r) l), FMsg (lt_Message (l_Status l))]) w2"
  have "reclaimFailedLease r d l w = (Inr (True, 0), ?w3)"
    using old s del by (simp add: reclaimFailedLease_def Let_def bnd_attempt_app del: if_split)
  moreover have "healthy ?w3" "view ?w3 = view w2" using h2 by (simp_all add: wpEvent_view)
  moreover have "setLease (leaseName l) None (setLease (leaseName l) (Some l') (view w)) = setLease (leaseName l) None (view w)"
    by (simp add: setLease_def)
  ultimately show ?thesis using v1 v2 by (intro exI [of _ ?w3]) simp
qed

text \<open>The identity check of the sweep: a valid claim is left alone, any other lease is deleted.\<close>

lemma getClaimPodForOrphan_healthy:
  "healthy w \<Longrightarrow> getClaimPodForOrphan r l w = Inr (v_pods (view w) (ref_Namespace (claimOf l), ref_Name (claimOf l)))"
  by (simp add: getClaimPodForOrphan_def get_pod found_def split: option.splits)

lemma deleteOrphan_valid:
  assumes "healthy w" and "claimValid (v_pods (view w) (ref_Namespace (claimOf l), ref_Name (claimOf l))) l (Some sel)"
  shows "deleteOrphan r d sel l w = (Inr (), w)"
  using assms leaseOrphanReason_valid [of _ l "Some sel"]
  by (simp add: deleteOrphan_def bnd_query_app getClaimPodForOrphan_healthy)

lemma deleteOrphan_invalid:
  assumes h: "healthy w" and cur: "v_leases (view w) (leaseName l) = Some l"
    and bad: "\<not> claimValid (v_pods (view w) (ref_Namespace (claimOf l), ref_Name (claimOf l))) l (Some sel)"
  shows "\<exists>x w'. deleteOrphan r d sel l w = (Inr (), w') \<and> healthy w' \<and>
    view w' = setLease (leaseName l) (if leaseFinalizers l = [] then None else Some x) (view w) \<and>
    leaseDeleting x \<and> l_Status x = l_Status l \<and> l_Spec x = l_Spec l"
proof -
  obtain x w1 where del: "deleteLease (wp_Client r) l w = (Inr (), w1)" "healthy w1"
      "view w1 = setLease (leaseName l) (if leaseFinalizers l = [] then None else Some x) (view w)"
      "leaseDeleting x" "l_Status x = l_Status l" "l_Spec x = l_Spec l"
    using drop_lease [OF h cur] by auto
  have "leaseOrphanReason (v_pods (view w) (ref_Namespace (claimOf l), ref_Name (claimOf l))) l (Some sel) \<noteq> ''''"
    using bad leaseOrphanReason_valid by blast
  then obtain m where "deleteOrphan r d sel l w = (Inr (), wpEvent r d EventTypeWarning EventReasonOrphanLeaseReclaimed m w1)"
    using h del(1) by (auto simp: deleteOrphan_def bnd_query_app getClaimPodForOrphan_healthy bnd_attempt_app Let_def)
  with del show ?thesis
    using wpEvent_view [OF del(2), of d EventTypeWarning EventReasonOrphanLeaseReclaimed m] by auto
qed

end

end
