(* ===== verification/EtcdHealthy.thy ===== *)
theory EtcdHealthy
  imports Etcd HealthyPool
begin

text \<open>
  The reference store, while its fault schedule is empty, is a healthy cluster for both
  reconcilers.
\<close>

definition eView :: "Cluster \<Rightarrow> View" where
  "eView w = \<lparr> v_leases = eLeases w, v_pods = map_of (e_pods w), v_workloads = map_of (e_workloads w),
     v_life = fkStateOf (e_fake w) \<rparr>"

definition podKey :: "Pod \<Rightarrow> string \<times> string" where
  "podKey p = (podNamespace p, podName p)"

definition eHealthy :: "Cluster \<Rightarrow> bool" where
  "eHealthy w \<longleftrightarrow> e_faults w = [] \<and> (\<forall>(k, p) \<in> set (e_pods w). k = podKey p)"

lemma eLeases_frame [simp]:
  "eLeases (w\<lparr>e_pods := a\<rparr>) = eLeases w" "eLeases (w\<lparr>e_workloads := b\<rparr>) = eLeases w"
  "eLeases (w\<lparr>e_fake := c\<rparr>) = eLeases w" "eLeases (w\<lparr>e_events := d\<rparr>) = eLeases w"
  "eLeases (w\<lparr>e_metrics := e\<rparr>) = eLeases w"
  by (rule view_cong; simp)+

lemma eHealthy_fields:
  "eHealthy w \<Longrightarrow> e_faults w' = e_faults w \<Longrightarrow> e_pods w' = e_pods w \<Longrightarrow> eHealthy w'"
  by (simp add: eHealthy_def)

lemma noFaults [simp]: "eHealthy w \<Longrightarrow> withFaults p w = p w"
  by (simp add: withFaults_def eHealthy_def)

lemma eView_put: "eView (putLease n l w) = setLease n (Some (stamp n (freshVersion w) l)) (eView w)"
  by (simp add: eView_def setLease_def eLeases_put) (simp add: putLease_def)

lemma eView_drop: "eView (dropLease n w) = setLease n None (eView w)"
  by (simp add: eView_def setLease_def eLeases_drop) (simp add: dropLease_def)

lemma eHealthy_put [simp]: "eHealthy (putLease n l w) = eHealthy w" "eHealthy (dropLease n w) = eHealthy w"
  by (simp_all add: eHealthy_def putLease_def dropLease_def)

lemma withMeta_key [simp]: "podNamespace (withMeta p L A) = podNamespace p" "podName (withMeta p L A) = podName p"
  by (simp_all add: withMeta_def)

lemma mergeKeys_self: "mergeKeys m m' m = m'"
  by (auto simp: mergeKeys_def fun_eq_iff)

lemma ePatch_healthy:
  assumes "eHealthy w" and "map_of (e_pods w) (podKey p) = Some p"
  shows "ePatchPod p (withMeta p L A) w =
      (Inr (withMeta p L A), w\<lparr>e_pods := AList.update (podKey p) (withMeta p L A) (e_pods w)\<rparr>)"
    and "eHealthy (w\<lparr>e_pods := AList.update (podKey p) (withMeta p L A) (e_pods w)\<rparr>)"
    and "eView (w\<lparr>e_pods := AList.update (podKey p) (withMeta p L A) (e_pods w)\<rparr>) =
      setPod (podKey p) (Some (withMeta p L A)) (eView w)"
proof -
  have "p\<lparr>p_Meta := (p_Meta p)\<lparr>om_Labels := mergeKeys (podLabels p) (podLabels (withMeta p L A)) (podLabels p),
      om_Annotations := mergeKeys (podAnnotations p) (podAnnotations (withMeta p L A)) (podAnnotations p)\<rparr>\<rparr> = withMeta p L A"
    by (simp add: mergeKeys_self) (simp add: withMeta_def)
  with assms(2) show "ePatchPod p (withMeta p L A) w =
      (Inr (withMeta p L A), w\<lparr>e_pods := AList.update (podKey p) (withMeta p L A) (e_pods w)\<rparr>)"
    by (simp add: ePatchPod_def podKey_def Let_def)
  have "set (AList.update k x xs) \<subseteq> insert (k, x) (set xs)" for k :: "string \<times> string" and x :: Pod and xs
    by (induction xs) auto
  from this [of "podKey p" "withMeta p L A" "e_pods w"] show "eHealthy (w\<lparr>e_pods := AList.update (podKey p) (withMeta p L A) (e_pods w)\<rparr>)"
    using assms(1) by (fastforce simp: eHealthy_def podKey_def)
  show "eView (w\<lparr>e_pods := AList.update (podKey p) (withMeta p L A) (e_pods w)\<rparr>) =
      setPod (podKey p) (Some (withMeta p L A)) (eView w)"
    by (simp add: eView_def setPod_def update_conv')
qed

lemma eView_workloads:
  "eView (w\<lparr>e_workloads := AList.delete k (e_workloads w)\<rparr>) = setWorkload k None (eView w)"
  by (simp add: eView_def setWorkload_def delete_conv')

interpretation ehc: healthy_client eClient eView eHealthy
proof
  fix w :: Cluster and n ns k l l0 p L A wl
  show "leaseName l = n" if "v_leases (eView w) n = Some l"
    using that eLeases_stamp(1) by (simp add: eView_def)
  show "k = (podNamespace p, podName p)" if "eHealthy w" "v_pods (eView w) k = Some p"
    using that by (auto simp: eView_def eHealthy_def podKey_def dest!: map_of_SomeD)
  show "getLease eClient n w = found (v_leases (eView w) n)"
    by (simp add: eClient_def eGetLease_def eView_def found_def)
  show "getPod eClient ns n w = found (v_pods (eView w) (ns, n))"
    and "getWorkload eClient ns n w = found (v_workloads (eView w) (ns, n))"
    by (simp_all add: eClient_def aGet_def eView_def found_def)
  show "\<exists>v w'. updateLeaseStatus eClient l w = (Inr (setVersion v (l0\<lparr>l_Status := l_Status l\<rparr>)), w') \<and> eHealthy w' \<and>
        eView w' = setLease (leaseName l) (Some (setVersion v (l0\<lparr>l_Status := l_Status l\<rparr>))) (eView w)"
    if h: "eHealthy w" and cur: "v_leases (eView w) (leaseName l) = Some l0" and v: "leaseVersion l0 = leaseVersion l"
  proof -
    have "leaseName l0 = leaseName l" using cur eLeases_stamp(1) by (simp add: eView_def)
    then have "stamp (leaseName l) x (l0\<lparr>l_Status := l_Status l\<rparr>) = setVersion x (l0\<lparr>l_Status := l_Status l\<rparr>)" for x
      by (intro stamp_setVersion) simp
    with h cur v show ?thesis
      by (intro exI [of _ "freshVersion w"]) (simp add: eClient_def eUpdateStatus_def eView_def [of w] Let_def eView_put)
  qed
  show "\<exists>v w'. let l' = setVersion v (setFinalizers (leaseFinalizers l) (l0\<lparr>l_Spec := l_Spec l\<rparr>)) in
        updateLease eClient l w = (Inr l', w') \<and> eHealthy w' \<and>
        eView w' = setLease (leaseName l) (if leaseDeleting l0 \<and> leaseFinalizers l = [] then None else Some l') (eView w)"
    if h: "eHealthy w" and cur: "v_leases (eView w) (leaseName l) = Some l0" and v: "leaseVersion l0 = leaseVersion l"
  proof -
    have "leaseName l0 = leaseName l" using cur eLeases_stamp(1) by (simp add: eView_def)
    then have "stamp (leaseName l) x (setFinalizers (leaseFinalizers l) (l0\<lparr>l_Spec := l_Spec l\<rparr>)) =
        setVersion x (setFinalizers (leaseFinalizers l) (l0\<lparr>l_Spec := l_Spec l\<rparr>))" for x
      by (intro stamp_setVersion) (simp add: setFinalizers_def)
    with h cur v show ?thesis
      by (intro exI [of _ "freshVersion w"])
        (simp add: eClient_def eUpdateLease_def eView_def [of w] Let_def eView_put eView_drop)
  qed
  show "\<exists>x w'. deleteLease eClient l w = (Inr (), w') \<and> eHealthy w' \<and>
        eView w' = setLease (leaseName l) (if leaseFinalizers l0 = [] then None else Some x) (eView w) \<and>
        leaseDeleting x \<and> l_Status x = l_Status l0 \<and> l_Spec x = l_Spec l0"
    if h: "eHealthy w" and cur: "v_leases (eView w) (leaseName l) = Some l0"
  proof -
    have cur': "eLeases w (leaseName l) = Some l0" using cur by (simp add: eView_def)
    let ?x = "if leaseDeleting l0 then l0 else stamp (leaseName l) (freshVersion w) (markDeleted (e_now w) l0)"
    have same: "setLease (leaseName l) (Some l0) (eView w) = eView w"
      using cur by (simp add: setLease_def fun_upd_idem)
    have "leaseDeleting ?x \<and> l_Status ?x = l_Status l0 \<and> l_Spec ?x = l_Spec l0"
      by (simp add: stamp_def markDeleted_def)
    moreover have "deleteLease eClient l w = (Inr (), snd (eDeleteLease l w))"
      using h cur' by (simp add: eClient_def eDeleteLease_def)
    moreover have "eHealthy (snd (eDeleteLease l w))" using h cur' by (simp add: eDeleteLease_def)
    moreover have "eView (snd (eDeleteLease l w)) =
        setLease (leaseName l) (if leaseFinalizers l0 = [] then None else Some ?x) (eView w)"
      using cur' same by (simp add: eDeleteLease_def eView_put eView_drop)
    ultimately show ?thesis by blast
  qed
  show "\<exists>w'. deleteWorkloadObj eClient ns n w =
             (if v_workloads (eView w) (ns, n) = None then Inl (ErrApi NotFound) else Inr (), w') \<and> eHealthy w' \<and>
        eView w' = setWorkload (ns, n) None (eView w)" if h: "eHealthy w"
  proof (cases "map_of (e_workloads w) (ns, n)")
    case None
    then have "setWorkload (ns, n) None (eView w) = eView w"
      by (simp add: setWorkload_def eView_def fun_upd_idem)
    with None h show ?thesis by (simp add: eClient_def eDeleteWorkload_def eView_def)
  next
    case (Some wl)
    have "eHealthy (w\<lparr>e_workloads := AList.delete (ns, n) (e_workloads w)\<rparr>)"
      using h by (simp add: eHealthy_def)
    with Some h show ?thesis
      by (simp add: eClient_def eDeleteWorkload_def eView_workloads) (simp add: eView_def)
  qed
  show "\<exists>wl' w'. createWorkloadObj eClient wl w = (Inr wl', w') \<and> eHealthy w' \<and> wl_Spec wl' = wl_Spec wl \<and>
        eView w' = setWorkload (om_Namespace (wl_Meta wl), om_Name (wl_Meta wl)) (Some wl') (eView w)"
    if h: "eHealthy w" and new: "v_workloads (eView w) (om_Namespace (wl_Meta wl), om_Name (wl_Meta wl)) = None"
  proof -
    let ?wl = "wl\<lparr>wl_Meta := (wl_Meta wl)\<lparr>om_CreationTimestamp := e_now w\<rparr>\<rparr>"
    let ?w = "w\<lparr>e_workloads := AList.update (om_Namespace (wl_Meta wl), om_Name (wl_Meta wl)) ?wl (e_workloads w)\<rparr>"
    have "createWorkloadObj eClient wl w = (Inr ?wl, ?w)"
      using h new by (simp add: eClient_def eCreateWorkload_def eView_def Let_def)
    moreover have "eHealthy ?w" using h by (simp add: eHealthy_def)
    moreover have "eView ?w = setWorkload (om_Namespace (wl_Meta wl), om_Name (wl_Meta wl)) (Some ?wl) (eView w)"
      by (simp add: eView_def setWorkload_def update_conv')
    ultimately show ?thesis by (intro exI conjI) simp_all
  qed
  show "\<exists>w'. patchPod eClient p (withMeta p L A) w = (Inr (withMeta p L A), w') \<and> eHealthy w' \<and>
        eView w' = setPod (podNamespace p, podName p) (Some (withMeta p L A)) (eView w)"
    if h: "eHealthy w" and cur: "v_pods (eView w) (podNamespace p, podName p) = Some p"
    using ePatch_healthy [OF h, of p L A] cur h by (simp add: eClient_def eView_def [of w] podKey_def)
qed

lemma onFake_eq: "onFake q w = (fst (q (e_fake w)), w\<lparr>e_fake := snd (q (e_fake w))\<rparr>)"
  by (simp add: onFake_def split: prod.splits)

lemma eView_fake: "eView (w\<lparr>e_fake := f\<rparr>) = (eView w)\<lparr>v_life := fkStateOf f\<rparr>" "eHealthy (w\<lparr>e_fake := f\<rparr>) = eHealthy w"
  by (simp_all add: eView_def eHealthy_def)

lemma fkStateOf_upd: "fkStateOf (f\<lparr>fk_pods := (fk_pods f)(ip \<mapsto> st)\<rparr>) =
    (fkStateOf f)(ip := if st = '''' then PcStateWarm else st)"
  by (auto simp: fkStateOf_def fun_eq_iff Let_def)

lemma fkStateOf_calls [simp]:
  "fkStateOf (f\<lparr>fk_ActivateCalls := cs\<rparr>) = fkStateOf f" "fkStateOf (f\<lparr>fk_ReleaseCalls := rs\<rparr>) = fkStateOf f"
  "fkStateOf (f\<lparr>fk_ActivateCalls := cs, fk_pods := ps\<rparr>) = fkStateOf (f\<lparr>fk_pods := ps\<rparr>)"
  "fkStateOf (f\<lparr>fk_ReleaseCalls := rs, fk_pods := ps\<rparr>) = fkStateOf (f\<lparr>fk_pods := ps\<rparr>)"
  by (simp_all add: fkStateOf_def fun_eq_iff)

lemma eView_life: "(eView w)\<lparr>v_life := fkStateOf (e_fake w)\<rparr> = eView w"
  by (simp add: eView_def)

lemma setLife_view: "(eView w)\<lparr>v_life := (fkStateOf (e_fake w))(ip := x)\<rparr> = setLife ip x (eView w)"
  by (simp add: eView_def setLife_def)

interpretation ehe: healthy_env eLeaseReconciler eView eHealthy
proof (intro healthy_env.intro)
  show "healthy_client (lr_Client eLeaseReconciler) eView eHealthy"
    by (simp add: eLeaseReconciler_def ehc.healthy_client_axioms)
  show "k8s_lib (lrLib eLeaseReconciler)"
    by (simp add: eLeaseReconciler_def eRuntime_def elib.k8s_lib_axioms)
  show "healthy_env_axioms eLeaseReconciler eView eHealthy"
  proof
    fix w w' :: Cluster and ip req and res :: "goerr + unit" and st eventf ob ty rs m mop l
    show "\<exists>wl. SetControllerReference (lrLib eLeaseReconciler) l (buildWorkload l) = Inr wl"
      by (simp add: eLeaseReconciler_def eRuntime_def eLib_def)
    show "eHealthy w' \<and> (res \<noteq> Inr () \<and> eView w' = eView w \<or>
        (\<exists>x \<in> {PcStateActivating, PcStateHot}. eView w' = setLife ip x (eView w)))"
      if h: "eHealthy w" and c: "cl_Activate (lr_PodClient eLeaseReconciler) ip req w = (res, w')"
    proof -
      have "res = fst (fkActivate ip req (e_fake w))" and "w' = w\<lparr>e_fake := snd (fkActivate ip req (e_fake w))\<rparr>"
        using c by (simp_all add: eLeaseReconciler_def ePodClient_def onFake_eq)
      then show ?thesis using h
        by (auto simp: eView_fake fkActivate_def Let_def fkStateOf_upd pc_state_defs eView_life setLife_view split: option.splits)
    qed
    show "eHealthy w' \<and> (res \<noteq> Inr () \<and> eView w' = eView w \<or>
        (\<exists>x. x \<notin> {PcStateActivating, PcStateHot} \<and> eView w' = setLife ip x (eView w)))"
      if h: "eHealthy w" and c: "cl_Release (lr_PodClient eLeaseReconciler) ip w = (res, w')"
    proof -
      have "res = fst (fkRelease ip (e_fake w))" and "w' = w\<lparr>e_fake := snd (fkRelease ip (e_fake w))\<rparr>"
        using c by (simp_all add: eLeaseReconciler_def ePodClient_def onFake_eq)
      then show ?thesis using h
        by (auto simp: eView_fake fkRelease_def Let_def fkStateOf_upd pc_state_defs eView_life setLife_view
            intro!: exI [of _ "''warm''"] split: option.splits)
    qed
    show "eHealthy w' \<and> eView w' = eView w \<and> (\<forall>s. st = Inr s \<longrightarrow> sr_State s = v_life (eView w) ip)"
      if h: "eHealthy w" and c: "cl_State (lr_PodClient eLeaseReconciler) ip w = (st, w')"
    proof -
      have "st = fst (fkState ip (e_fake w))" and "w' = w\<lparr>e_fake := snd (fkState ip (e_fake w))\<rparr>"
        using c by (simp_all add: eLeaseReconciler_def ePodClient_def onFake_eq)
      then show ?thesis using h
        by (auto simp: eView_fake fkState_def eView_life split: option.splits) (simp add: eView_def)
    qed
    show "eHealthy (eventf ob ty rs m w) \<and> eView (eventf ob ty rs m w) = eView w"
      if "eHealthy w" and "lr_Recorder eLeaseReconciler = Some eventf"
      using that by (auto simp: eLeaseReconciler_def eRecorder_def eHealthy_def eView_def)
    show "eHealthy (rt_Metric (lr_Runtime eLeaseReconciler) mop w) \<and>
        eView (rt_Metric (lr_Runtime eLeaseReconciler) mop w) = eView w" if "eHealthy w"
      using that by (simp add: eLeaseReconciler_def eRuntime_def eHealthy_def eView_def)
  qed
qed

interpretation ehp: healthy_pool eWarmPoolReconciler eView eHealthy
proof (intro healthy_pool.intro)
  show "healthy_client (wp_Client eWarmPoolReconciler) eView eHealthy"
    by (simp add: eWarmPoolReconciler_def ehc.healthy_client_axioms)
  show "k8s_lib (wpLib eWarmPoolReconciler)"
    by (simp add: eWarmPoolReconciler_def eRuntime_def elib.k8s_lib_axioms)
  show "healthy_pool_axioms eWarmPoolReconciler eView eHealthy"
    by unfold_locales (auto simp: eWarmPoolReconciler_def eRecorder_def eHealthy_def eView_def)
qed

text \<open>The number of leases in the store.\<close>

definition eMade :: "Cluster \<Rightarrow> nat" where
  "eMade w = card (dom (eLeases w))"

lemma eLeases_finite: "finite (dom (eLeases w))"
  by (rule finite_subset [of _ "dom (map_of (e_cur w))"])
    (auto simp: eLeases_def finite_dom_map_of split: option.splits)

lemma eCreateLease_made:
  "eCreateLease l w = (res, w') \<Longrightarrow> eMade w' = (case res of Inr _ \<Rightarrow> Suc (eMade w) | Inl _ \<Rightarrow> eMade w)"
  using eLeases_finite [of w]
  by (auto simp: eCreateLease_def eMade_def eLeases_put Let_def domIff split: option.splits)

lemma eMade_cong: "e_cur w' = e_cur w \<Longrightarrow> e_data w' = e_data w \<Longrightarrow> eMade w' = eMade w"
  using view_cong(1) [of w' w] by (simp add: eMade_def)

interpretation emade: lease_count eWarmPoolReconciler eMade
proof
  fix l l' w w' e p p' mop eventf ob ty rs m
  have c: "eMade w' = (case res of Inr _ \<Rightarrow> Suc (eMade w) | Inl _ \<Rightarrow> eMade w)"
    if "createLease (wp_Client eWarmPoolReconciler) l w = (res, w')" for res
  proof -
    have f: "eMade (w\<lparr>e_faults := fs\<rparr>) = eMade w" for fs by (rule eMade_cong) simp_all
    from that show ?thesis
      by (auto simp: f eWarmPoolReconciler_def eClient_def withFaults_def dest!: eCreateLease_made
          split: list.splits option.splits sum.splits)
  qed
  show "eMade w' = Suc (eMade w)" if "createLease (wp_Client eWarmPoolReconciler) l w = (Inr l', w')"
    using c [OF that] by simp
  show "eMade w' = eMade w \<or> eMade w' = Suc (eMade w) \<and> \<not> IsAlreadyExists e \<and> \<not> errorsIs e ErrExhausted"
    if "createLease (wp_Client eWarmPoolReconciler) l w = (Inl e, w')"
    using c [OF that] by simp
  show "eMade (snd (patchPod (wp_Client eWarmPoolReconciler) p p' w)) = eMade w"
    by (rule eMade_cong)
      (simp_all add: eWarmPoolReconciler_def eClient_def withFaults_def ePatchPod_def Let_def split: list.split option.split)
  show "eMade (rt_Metric (wp_Runtime eWarmPoolReconciler) mop w) = eMade w"
    by (rule eMade_cong) (simp_all add: eWarmPoolReconciler_def eRuntime_def)
  show "eMade (eventf ob ty rs m w) = eMade w" if "wp_Recorder eWarmPoolReconciler = Some eventf"
    using that by (intro eMade_cong) (auto simp: eWarmPoolReconciler_def eRecorder_def)
qed

end
