(* ===== verification/PodMachine.thy ===== *)
theory PodMachine
  imports Podclient "HOL-Library.Word"
begin

text \<open>
  \<open>internal/workload/state.go\<close>: the pod's lifecycle state machine. Each method is its critical
  section, a function of the fields guarded by the mutex; what the goroutine still has to do
  after unlocking (deliver the event to the hook, then arm a timer) is part of the result. The
  generation counter is a 64-bit word. \<open>sys_step\<close> puts the critical sections, the
  pending hooks and the armed timers together: they interleave in every order.
\<close>

section \<open>The machine\<close>

definition DefaultWarmupDuration :: duration where "DefaultWarmupDuration = 10 * Second"
definition DefaultTeardownDuration :: duration where "DefaultTeardownDuration = 2 * Second"

record Snapshot =
  sn_State :: string
  sn_LeaseName :: string
  sn_Node :: string
  sn_GPUID :: int32
  sn_GPUModel :: string

record Event =
  ev_Old :: string
  ev_New :: string
  ev_Snapshot :: Snapshot
  ev_ActivationDuration :: duration

record MachineConfig =
  mcfg_WarmupDuration :: duration
  mcfg_TeardownDuration :: duration

record Machine =
  mc_state :: string
  mc_leaseName :: string
  mc_node :: string
  mc_gpuID :: int32
  mc_gpuModel :: string
  mc_activationStart :: gotime
  mc_gen :: "64 word"
  mc_warmup :: duration
  mc_teardown :: duration

text \<open>The two timer callbacks, with the generation their closure captured.\<close>

datatype Timer = WarmupTimer "64 word" | TeardownTimer "64 word"

definition NewMachine :: "MachineConfig \<Rightarrow> Machine" where
  "NewMachine cfg =
     \<lparr> mc_state = StateWarm, mc_leaseName = '''', mc_node = '''', mc_gpuID = -1, mc_gpuModel = '''',
       mc_activationStart = 0, mc_gen = 0,
       mc_warmup = (if mcfg_WarmupDuration cfg \<le> 0 then DefaultWarmupDuration else mcfg_WarmupDuration cfg),
       mc_teardown = (if mcfg_TeardownDuration cfg \<le> 0 then DefaultTeardownDuration
                      else mcfg_TeardownDuration cfg) \<rparr>"

definition snapshotLocked :: "Machine \<Rightarrow> Snapshot" where
  "snapshotLocked m =
     \<lparr> sn_State = mc_state m, sn_LeaseName = mc_leaseName m, sn_Node = mc_node m,
       sn_GPUID = mc_gpuID m, sn_GPUModel = mc_gpuModel m \<rparr>"

definition IsHot :: "Machine \<Rightarrow> bool" where
  "IsHot m \<longleftrightarrow> mc_state m = StateHot"

definition clearLeaseLocked :: "Machine \<Rightarrow> Machine" where
  "clearLeaseLocked m = m\<lparr>mc_leaseName := '''', mc_node := '''', mc_gpuID := -1, mc_gpuModel := ''''\<rparr>"

text \<open>
  The result of a method: its error, or what is left to do after the unlock: the event for
  the hook and the timer to arm.
\<close>

type_synonym afterUnlock = "Event \<times> (duration \<times> Timer) option"

definition Activate ::
    "ActivateRequest \<Rightarrow> string \<Rightarrow> gotime \<Rightarrow> Machine \<Rightarrow> (goerr + afterUnlock option) \<times> Machine" where
  "Activate req ownNode now m =
     (if ar_Node req \<noteq> ownNode then (Inl ErrNodeMismatch, m)
      else if mc_state m = StateActivating \<or> mc_state m = StateHot then
        (if ar_LeaseName req = mc_leaseName m then (Inr None, m) else (Inl ErrLeaseConflict, m))
      else if mc_state m = StateReleasing then (Inl ErrLeaseConflict, m)
      else
        let old = mc_state m;
            m' = m\<lparr>mc_gen := mc_gen m + 1, mc_leaseName := ar_LeaseName req, mc_node := ar_Node req,
                   mc_gpuID := ar_GPUID req, mc_gpuModel := ar_GPUModel req,
                   mc_activationStart := now, mc_state := StateActivating\<rparr>
        in (Inr (Some (\<lparr> ev_Old = old, ev_New = StateActivating, ev_Snapshot = snapshotLocked m',
                         ev_ActivationDuration = 0 \<rparr>,
                       Some (mc_warmup m', WarmupTimer (mc_gen m')))), m'))"

definition completeWarmup :: "64 word \<Rightarrow> gotime \<Rightarrow> Machine \<Rightarrow> afterUnlock option \<times> Machine" where
  "completeWarmup gen now m =
     (if mc_gen m \<noteq> gen \<or> mc_state m \<noteq> StateActivating then (None, m)
      else
        let old = mc_state m;
            m' = m\<lparr>mc_state := StateHot\<rparr>
        in (Some (\<lparr> ev_Old = old, ev_New = StateHot, ev_Snapshot = snapshotLocked m',
                    ev_ActivationDuration = time_sub now (mc_activationStart m') \<rparr>, None), m'))"

definition Release :: "Machine \<Rightarrow> afterUnlock option \<times> Machine" where
  "Release m =
     (if mc_state m = StateWarm \<or> mc_state m = StateReleasing then (None, m)
      else if mc_state m = StateActivating then
        let old = mc_state m;
            m' = (clearLeaseLocked (m\<lparr>mc_gen := mc_gen m + 1\<rparr>))\<lparr>mc_state := StateWarm\<rparr>
        in (Some (\<lparr> ev_Old = old, ev_New = StateWarm, ev_Snapshot = snapshotLocked m',
                    ev_ActivationDuration = 0 \<rparr>, None), m')
      else
        let old = mc_state m;
            m' = m\<lparr>mc_gen := mc_gen m + 1, mc_state := StateReleasing\<rparr>
        in (Some (\<lparr> ev_Old = old, ev_New = StateReleasing, ev_Snapshot = snapshotLocked m',
                    ev_ActivationDuration = 0 \<rparr>,
                  Some (mc_teardown m', TeardownTimer (mc_gen m'))), m'))"

definition completeTeardown :: "64 word \<Rightarrow> Machine \<Rightarrow> afterUnlock option \<times> Machine" where
  "completeTeardown gen m =
     (if mc_gen m \<noteq> gen \<or> mc_state m \<noteq> StateReleasing then (None, m)
      else
        let old = mc_state m;
            m' = (clearLeaseLocked m)\<lparr>mc_state := StateWarm\<rparr>
        in (Some (\<lparr> ev_Old = old, ev_New = StateWarm, ev_Snapshot = snapshotLocked m',
                    ev_ActivationDuration = 0 \<rparr>, None), m'))"

lemmas machine_defs = Activate_def completeWarmup_def Release_def completeTeardown_def clearLeaseLocked_def
  snapshotLocked_def Let_def

text \<open>The timer goroutine's body.\<close>

fun fireTimer :: "Timer \<Rightarrow> gotime \<Rightarrow> Machine \<Rightarrow> afterUnlock option \<times> Machine" where
  "fireTimer (WarmupTimer gen) now m = completeWarmup gen now m"
| "fireTimer (TeardownTimer gen) now m = completeTeardown gen m"

fun timerGen :: "Timer \<Rightarrow> 64 word" where
  "timerGen (WarmupTimer g) = g"
| "timerGen (TeardownTimer g) = g"

lemma stateNames_distinct [simp]:
  "StateWarm \<noteq> StateActivating" "StateWarm \<noteq> StateHot" "StateWarm \<noteq> StateReleasing"
  "StateActivating \<noteq> StateWarm" "StateActivating \<noteq> StateHot" "StateActivating \<noteq> StateReleasing"
  "StateHot \<noteq> StateWarm" "StateHot \<noteq> StateActivating" "StateHot \<noteq> StateReleasing"
  "StateReleasing \<noteq> StateWarm" "StateReleasing \<noteq> StateActivating" "StateReleasing \<noteq> StateHot"
  by (simp_all add: state_defs)

section \<open>Well-formedness\<close>

text \<open>
  The state is one of the four; a warm pod holds no lease; any other holds one for its own
  node; the timer durations are positive.
\<close>

definition machine_ok :: "string \<Rightarrow> Machine \<Rightarrow> bool" where
  "machine_ok ownNode m \<longleftrightarrow>
     mc_state m \<in> {StateWarm, StateActivating, StateHot, StateReleasing} \<and>
     (if mc_state m = StateWarm
      then mc_leaseName m = '''' \<and> mc_node m = '''' \<and> mc_gpuID m = -1 \<and> mc_gpuModel m = ''''
      else mc_node m = ownNode) \<and>
     0 < mc_warmup m \<and> 0 < mc_teardown m"

lemma NewMachine_ok: "machine_ok own (NewMachine cfg)"
  by (simp add: machine_ok_def NewMachine_def DefaultWarmupDuration_def DefaultTeardownDuration_def Second_def)

lemma Activate_ok: "machine_ok own m \<Longrightarrow> machine_ok own (snd (Activate req own now m))"
  by (auto simp: machine_ok_def machine_defs)

lemma Release_ok: "machine_ok own m \<Longrightarrow> machine_ok own (snd (Release m))"
  by (auto simp: machine_ok_def machine_defs)

lemma fireTimer_ok: "machine_ok own m \<Longrightarrow> machine_ok own (snd (fireTimer t now m))"
  by (cases t) (auto simp: machine_ok_def machine_defs)

section \<open>Functional behaviour\<close>

lemma Activate_again:
  assumes "Activate req own now m = (Inr x, m')"
  shows "Activate req own now' m' = (Inr None, m')"
  using assms by (auto simp: machine_defs split: if_splits)

lemma Release_again: "Release m = (x, m') \<Longrightarrow> Release m' = (None, m')"
  by (auto simp: machine_defs split: if_splits)

lemma Release_lets_go:
  "Release m = (x, m') \<Longrightarrow> mc_state m' \<noteq> StateActivating \<and> mc_state m' \<noteq> StateHot"
  by (auto simp: machine_defs split: if_splits)

lemma Activate_commits:
  "Activate req own now m = (Inr x, m') \<Longrightarrow>
   mc_state m' \<in> {StateActivating, StateHot} \<and> mc_leaseName m' = ar_LeaseName req"
  by (auto simp: machine_defs split: if_splits)

lemma Activate_error: "Activate req own now m = (Inl e, m') \<Longrightarrow> m' = m \<and> e \<in> {ErrNodeMismatch, ErrLeaseConflict}"
  by (auto simp: machine_defs split: if_splits)

section \<open>Interleaving\<close>

text \<open>
  \<open>y_pending\<close>: goroutines that have left the critical section and not yet called the hook.
  \<open>y_timers\<close>: armed timers, each with the snapshot taken when its goroutine unlocked.
  \<open>y_log\<close>: the events delivered to the hook so far. \<open>y_bumps\<close> counts generation bumps.
\<close>

record Sys =
  y_machine :: Machine
  y_pending :: "afterUnlock list"
  y_timers :: "(Timer \<times> Snapshot) list"
  y_log :: "Event list"
  y_bumps :: nat

definition initSys :: "MachineConfig \<Rightarrow> Sys" where
  "initSys cfg = \<lparr> y_machine = NewMachine cfg, y_pending = [], y_timers = [], y_log = [], y_bumps = 0 \<rparr>"

definition spawn :: "afterUnlock option \<Rightarrow> Machine \<Rightarrow> Sys \<Rightarrow> Sys" where
  "spawn a m y = y\<lparr>y_machine := m, y_pending := y_pending y @ (case a of None \<Rightarrow> [] | Some x \<Rightarrow> [x]),
     y_bumps := (if mc_gen m = mc_gen (y_machine y) then y_bumps y else Suc (y_bumps y))\<rparr>"

fun armed :: "afterUnlock \<Rightarrow> (Timer \<times> Snapshot) list" where
  "armed (ev, None) = []"
| "armed (ev, Some (d, t)) = [(t, ev_Snapshot ev)]"

inductive sys_step :: "string \<Rightarrow> Sys \<Rightarrow> Sys \<Rightarrow> bool" for own where
  activate: "Activate req own now (y_machine y) = (Inr a, m) \<Longrightarrow> sys_step own y (spawn a m y)"
| release: "Release (y_machine y) = (a, m) \<Longrightarrow> sys_step own y (spawn a m y)"
| hook: "y_pending y = ps @ a # qs \<Longrightarrow>
     sys_step own y (y\<lparr>y_pending := ps @ qs, y_timers := y_timers y @ armed a, y_log := y_log y @ [fst a]\<rparr>)"
| fire: "y_timers y = ts @ (t, sn) # us \<Longrightarrow> fireTimer t now (y_machine y) = (a, m) \<Longrightarrow>
     sys_step own y (spawn a m (y\<lparr>y_timers := ts @ us\<rparr>))"

inductive_cases sys_stepE: "sys_step own y y'"

definition reachable :: "string \<Rightarrow> MachineConfig \<Rightarrow> Sys \<Rightarrow> bool" where
  "reachable own cfg y \<longleftrightarrow> (sys_step own)\<^sup>*\<^sup>* (initSys cfg) y"

text \<open>The timers that are armed or about to be.\<close>

definition pool :: "Sys \<Rightarrow> (Timer \<times> Snapshot) list" where
  "pool y = y_timers y @ concat (map armed (y_pending y))"

lemma spawn_sel [simp]:
  "y_machine (spawn a m y) = m" "y_log (spawn a m y) = y_log y" "y_timers (spawn a m y) = y_timers y"
  by (simp_all add: spawn_def)

lemma pool_spawn: "pool (spawn a m y) = pool y @ (case a of None \<Rightarrow> [] | Some x \<Rightarrow> armed x)"
  by (simp add: pool_def spawn_def split: option.splits)

text \<open>
  The invariant: as long as the generation has not wrapped around, the timers in the pool have
  distinct generations, none from the future, and the one of the current generation (if any)
  is a warm-up timer of the activation in progress or the teardown timer of the release in
  progress. While activating or releasing, that timer exists.
\<close>

definition pool_inv :: "Machine \<Rightarrow> nat \<Rightarrow> (Timer \<times> Snapshot) list \<Rightarrow> bool" where
  "pool_inv m n ps \<longleftrightarrow>
     of_nat n = mc_gen m \<and>
     distinct (map (timerGen \<circ> fst) ps) \<and>
     (\<forall>(t, sn) \<in> set ps. unat (timerGen t) \<le> n \<and>
        (timerGen t = mc_gen m \<longrightarrow> sn = snapshotLocked m \<and>
           mc_state m = (case t of WarmupTimer _ \<Rightarrow> StateActivating | TeardownTimer _ \<Rightarrow> StateReleasing))) \<and>
     (mc_state m = StateActivating \<longrightarrow> WarmupTimer (mc_gen m) \<in> fst ` set ps) \<and>
     (mc_state m = StateReleasing \<longrightarrow> TeardownTimer (mc_gen m) \<in> fst ` set ps)"

definition sys_inv :: "string \<Rightarrow> Sys \<Rightarrow> bool" where
  "sys_inv own y \<longleftrightarrow> machine_ok own (y_machine y) \<and> pool_inv (y_machine y) (y_bumps y) (pool y)"

lemma pool_inv_perm: "mset ps = mset qs \<Longrightarrow> pool_inv m n ps \<Longrightarrow> pool_inv m n qs"
proof -
  assume eq: "mset ps = mset qs" and inv: "pool_inv m n ps"
  have "set ps = set qs" using eq by (rule mset_eq_setD)
  moreover have "distinct (map (timerGen \<circ> fst) ps) = distinct (map (timerGen \<circ> fst) qs)"
    using eq by (intro mset_eq_imp_distinct_iff) simp
  ultimately have "pool_inv m n ps = pool_inv m n qs" by (simp only: pool_inv_def)
  with inv show ?thesis by simp
qed

lemma unat_of_nat64: "n < 2 ^ 64 \<Longrightarrow> unat (of_nat n :: 64 word) = n"
  by (simp add: unat_of_nat take_bit_nat_eq_self)

text \<open>A bump makes every timer of the pool stale.\<close>

lemma pool_inv_bump:
  assumes inv: "pool_inv m n ps" and gen: "mc_gen m' = mc_gen m + 1" and bound: "Suc n < 2 ^ 64"
    and new: "\<And>t sn. (t, sn) \<in> set new \<Longrightarrow> timerGen t = mc_gen m' \<and> sn = snapshotLocked m' \<and>
      mc_state m' = (case t of WarmupTimer _ \<Rightarrow> StateActivating | TeardownTimer _ \<Rightarrow> StateReleasing)"
    and len: "length new \<le> 1"
    and live: "mc_state m' = StateActivating \<Longrightarrow> WarmupTimer (mc_gen m') \<in> fst ` set new"
      "mc_state m' = StateReleasing \<Longrightarrow> TeardownTimer (mc_gen m') \<in> fst ` set new"
  shows "pool_inv m' (Suc n) (ps @ new)"
proof -
  have g: "of_nat (Suc n) = mc_gen m'"
    using inv gen by (simp add: pool_inv_def add.commute)
  then have u: "unat (mc_gen m') = Suc n" using unat_of_nat64 [OF bound] by metis
  have old: "unat (timerGen t) \<le> n" if "(t, sn) \<in> set ps" for t sn
    using inv that by (auto simp: pool_inv_def)
  have stale: "timerGen t \<noteq> mc_gen m'" if "(t, sn) \<in> set ps" for t sn
    using old [OF that] u by auto
  have "distinct (map (timerGen \<circ> fst) new)" using len by (cases new) auto
  moreover have "set (map (timerGen \<circ> fst) ps) \<inter> set (map (timerGen \<circ> fst) new) = {}"
    using stale new by fastforce
  ultimately have "distinct (map (timerGen \<circ> fst) (ps @ new))"
    using inv by (simp add: pool_inv_def)
  moreover have "\<forall>(t, sn) \<in> set (ps @ new). unat (timerGen t) \<le> Suc n \<and>
      (timerGen t = mc_gen m' \<longrightarrow> sn = snapshotLocked m' \<and>
       mc_state m' = (case t of WarmupTimer _ \<Rightarrow> StateActivating | TeardownTimer _ \<Rightarrow> StateReleasing))"
    using old stale new u by (fastforce simp: le_Suc_eq)
  ultimately show ?thesis using g live by (auto simp: pool_inv_def)
qed

text \<open>A timer that fires leaves the pool; it acts exactly if it is of the current generation.\<close>

lemma fireTimer_acts:
  assumes "pool_inv m n (ts @ (t, sn) # us)"
  shows "fst (fireTimer t now m) \<noteq> None \<longleftrightarrow> timerGen t = mc_gen m"
  using assms by (cases t) (auto simp: pool_inv_def machine_defs)

lemma pool_inv_idle:
  assumes "pool_inv m n qs" and "set ps \<subseteq> set qs" and "distinct (map (timerGen \<circ> fst) ps)"
    and "mc_gen m' = mc_gen m" and "\<And>t sn. (t, sn) \<in> set ps \<Longrightarrow> timerGen t \<noteq> mc_gen m"
    and "mc_state m' \<noteq> StateActivating" and "mc_state m' \<noteq> StateReleasing"
  shows "pool_inv m' n ps"
proof -
  have "unat (timerGen t) \<le> n" if "(t, sn) \<in> set ps" for t sn
    using that assms(1,2) by (auto simp: pool_inv_def)
  with assms(5) have "\<forall>(t, sn) \<in> set ps. unat (timerGen t) \<le> n \<and> timerGen t \<noteq> mc_gen m" by blast
  with assms(1,3,4,6,7) show ?thesis by (auto simp: pool_inv_def)
qed

lemma fireTimer_live:
  assumes "timerGen t = mc_gen m"
    and "mc_state m = (case t of WarmupTimer _ \<Rightarrow> StateActivating | TeardownTimer _ \<Rightarrow> StateReleasing)"
  shows "mc_gen (snd (fireTimer t now m)) = mc_gen m"
    and "mc_state (snd (fireTimer t now m)) = (case t of WarmupTimer _ \<Rightarrow> StateHot | TeardownTimer _ \<Rightarrow> StateWarm)"
    and "\<exists>ev. fst (fireTimer t now m) = Some (ev, None)"
  using assms by (cases t; simp add: machine_defs)+

lemma pool_inv_fire:
  assumes inv: "pool_inv m n (ts @ (t, sn) # us)" and fire: "fireTimer t now m = (a, m')"
  shows "pool_inv m' n (ts @ us) \<and> mc_gen m' = mc_gen m \<and> (\<forall>x. a = Some x \<longrightarrow> armed x = [])"
proof (cases "timerGen t = mc_gen m")
  case True
  have dist: "distinct (map (timerGen \<circ> fst) (ts @ (t, sn) # us))"
    using inv by (simp add: pool_inv_def)
  have others: "timerGen t' \<noteq> mc_gen m" if "(t', sn') \<in> set (ts @ us)" for t' sn'
    using dist that True by (force simp: image_iff)
  have live: "mc_state m = (case t of WarmupTimer _ \<Rightarrow> StateActivating | TeardownTimer _ \<Rightarrow> StateReleasing)"
    using inv True by (simp add: pool_inv_def)
  note acts = fireTimer_live [OF True live, of now]
  have m': "mc_gen m' = mc_gen m" "mc_state m' \<noteq> StateActivating" "mc_state m' \<noteq> StateReleasing"
    using acts(1,2) fire by (simp_all split: Timer.splits)
  have a: "\<forall>x. a = Some x \<longrightarrow> armed x = []"
    using acts(3) fire by auto
  have "pool_inv m' n (ts @ us)"
    by (rule pool_inv_idle [OF inv _ _ m'(1) _ m'(2,3)]) (use dist others in auto)
  with m'(1) a show ?thesis by blast
next
  case False
  then have same: "m' = m" and a: "a = None"
    using fire by (cases t; auto simp: machine_defs split: if_splits)+
  have "WarmupTimer (mc_gen m) \<noteq> t" and "TeardownTimer (mc_gen m) \<noteq> t" using False by auto
  with inv have "pool_inv m n (ts @ us)" by (simp add: pool_inv_def)
  with same a show ?thesis by blast
qed

lemma Activate_shape:
  assumes "Activate req own now m = (Inr a, m')"
  shows "(a = None \<and> m' = m) \<or>
    (\<exists>ev d. a = Some (ev, Some (d, WarmupTimer (mc_gen m'))) \<and> ev_Snapshot ev = snapshotLocked m' \<and>
       mc_gen m' = mc_gen m + 1 \<and> mc_state m' = StateActivating)"
  using assms by (auto simp: machine_defs split: if_splits)

lemma Release_shape:
  assumes "Release m = (a, m')"
  shows "(a = None \<and> m' = m) \<or>
    (\<exists>ev. a = Some (ev, None) \<and> mc_gen m' = mc_gen m + 1 \<and> mc_state m' = StateWarm) \<or>
    (\<exists>ev d. a = Some (ev, Some (d, TeardownTimer (mc_gen m'))) \<and> ev_Snapshot ev = snapshotLocked m' \<and>
       mc_gen m' = mc_gen m + 1 \<and> mc_state m' = StateReleasing)"
  using assms by (auto simp: machine_defs split: if_splits)

lemma bump_neq [simp]: "(g + 1 :: 64 word) \<noteq> g"
  by simp

lemma y_bumps_spawn: "y_bumps (spawn a m y) = (if mc_gen m = mc_gen (y_machine y) then y_bumps y else Suc (y_bumps y))"
  by (simp add: spawn_def)

lemma bumps_mono: "sys_step own y y' \<Longrightarrow> y_bumps y \<le> y_bumps y'"
  by (erule sys_stepE) (auto simp: spawn_def)

lemma sys_inv_step:
  assumes step: "sys_step own y y'" and inv: "sys_inv own y" and bound: "y_bumps y' < 2 ^ 64"
  shows "sys_inv own y'"
  using step
proof cases
  case (activate req now a m)
  have ok: "machine_ok own m"
    using Activate_ok [of own "y_machine y" req now] inv activate(2) by (simp add: sys_inv_def)
  have "pool_inv m (y_bumps y') (pool y')"
    using Activate_shape [OF activate(2)]
  proof (elim disjE exE conjE)
    fix ev d
    assume a: "a = Some (ev, Some (d, WarmupTimer (mc_gen m)))" "ev_Snapshot ev = snapshotLocked m"
      and g: "mc_gen m = mc_gen (y_machine y) + 1" and st: "mc_state m = StateActivating"
    have "pool_inv m (Suc (y_bumps y)) (pool y @ [(WarmupTimer (mc_gen m), snapshotLocked m)])"
      using inv g st bound activate(1)
      by (intro pool_inv_bump [of "y_machine y"]) (auto simp: sys_inv_def y_bumps_spawn)
    then show ?thesis
      using activate(1) a g by (simp add: pool_spawn y_bumps_spawn)
  qed (use inv activate(1) in \<open>simp add: sys_inv_def pool_spawn y_bumps_spawn\<close>)
  with ok activate(1) show ?thesis by (simp add: sys_inv_def)
next
  case (release a m)
  have ok: "machine_ok own m"
    using Release_ok [of own "y_machine y"] inv release(2) by (simp add: sys_inv_def)
  have "pool_inv m (y_bumps y') (pool y')"
    using Release_shape [OF release(2)]
  proof (elim disjE exE conjE)
    fix ev
    assume a: "a = Some (ev, None)" and g: "mc_gen m = mc_gen (y_machine y) + 1" and st: "mc_state m = StateWarm"
    have "pool_inv m (Suc (y_bumps y)) (pool y @ [])"
      using inv g st bound release(1)
      by (intro pool_inv_bump [of "y_machine y"]) (auto simp: sys_inv_def y_bumps_spawn)
    then show ?thesis using release(1) a g by (simp add: pool_spawn y_bumps_spawn)
  next
    fix ev d
    assume a: "a = Some (ev, Some (d, TeardownTimer (mc_gen m)))" "ev_Snapshot ev = snapshotLocked m"
      and g: "mc_gen m = mc_gen (y_machine y) + 1" and st: "mc_state m = StateReleasing"
    have "pool_inv m (Suc (y_bumps y)) (pool y @ [(TeardownTimer (mc_gen m), snapshotLocked m)])"
      using inv g st bound release(1)
      by (intro pool_inv_bump [of "y_machine y"]) (auto simp: sys_inv_def y_bumps_spawn)
    then show ?thesis using release(1) a g by (simp add: pool_spawn y_bumps_spawn)
  qed (use inv release(1) in \<open>simp add: sys_inv_def pool_spawn y_bumps_spawn\<close>)
  with ok release(1) show ?thesis by (simp add: sys_inv_def)
next
  case (hook ps a qs)
  have "mset (pool y) = mset (pool y')"
    using hook by (simp add: pool_def)
  with inv hook show ?thesis
    using pool_inv_perm [of "pool y" "pool y'"] by (auto simp: sys_inv_def)
next
  case (fire ts t sn us now a m)
  let ?y = "y\<lparr>y_timers := ts @ us\<rparr>"
  have "pool_inv (y_machine y) (y_bumps y) (ts @ (t, sn) # us @ concat (map armed (y_pending y)))"
    using inv fire(2) by (simp add: sys_inv_def pool_def)
  from pool_inv_fire [OF this fire(3)]
  have "pool_inv m (y_bumps y) (pool ?y)" and g: "mc_gen m = mc_gen (y_machine y)"
    and "\<forall>x. a = Some x \<longrightarrow> armed x = []"
    by (auto simp: pool_def)
  then have "pool_inv m (y_bumps y') (pool y')"
    using fire(1) by (auto simp: pool_spawn y_bumps_spawn split: option.splits)
  moreover have "machine_ok own m"
    using fireTimer_ok [of own "y_machine y" t now] inv fire(3) by (simp add: sys_inv_def)
  ultimately show ?thesis using fire(1) by (simp add: sys_inv_def)
qed

lemma reachable_inv:
  assumes "reachable own cfg y" and "y_bumps y < 2 ^ 64"
  shows "sys_inv own y"
  using assms unfolding reachable_def
proof (induction rule: rtranclp_induct)
  case base
  show ?case
    by (simp add: sys_inv_def initSys_def NewMachine_ok pool_inv_def pool_def) (simp add: NewMachine_def)
next
  case (step y z)
  then have "y_bumps y < 2 ^ 64" using bumps_mono by (meson le_less_trans)
  with step show ?case by (blast intro: sys_inv_step)
qed

text \<open>A scheduler: the steps as functions, so that particular interleavings can be run.\<close>

datatype Sched = SActivate ActivateRequest gotime | SRelease | SHook nat | SFire nat gotime

fun exec :: "string \<Rightarrow> Sched \<Rightarrow> Sys \<Rightarrow> Sys" where
  "exec own (SActivate req now) y =
     (case Activate req own now (y_machine y) of (Inr a, m) \<Rightarrow> spawn a m y | (Inl e, m) \<Rightarrow> y)"
| "exec own SRelease y = (case Release (y_machine y) of (a, m) \<Rightarrow> spawn a m y)"
| "exec own (SHook i) y =
     (if i < length (y_pending y)
      then y\<lparr>y_pending := take i (y_pending y) @ drop (Suc i) (y_pending y),
             y_timers := y_timers y @ armed (y_pending y ! i), y_log := y_log y @ [fst (y_pending y ! i)]\<rparr>
      else y)"
| "exec own (SFire i now) y =
     (if i < length (y_timers y)
      then (case fireTimer (fst (y_timers y ! i)) now (y_machine y) of
              (a, m) \<Rightarrow> spawn a m (y\<lparr>y_timers := take i (y_timers y) @ drop (Suc i) (y_timers y)\<rparr>))
      else y)"

definition run :: "string \<Rightarrow> MachineConfig \<Rightarrow> Sched list \<Rightarrow> Sys" where
  "run own cfg cs = fold (exec own) cs (initSys cfg)"

lemma exec_steps: "(sys_step own)\<^sup>*\<^sup>* y (exec own c y)"
proof (cases c)
  case (SActivate req now)
  then show ?thesis
    using sys_step.activate [of req own now y] by (auto split: prod.splits sum.splits)
next
  case SRelease
  then show ?thesis using sys_step.release [of y] by (auto split: prod.splits)
next
  case (SHook i)
  then show ?thesis using sys_step.hook [OF id_take_nth_drop, of i y] by auto
next
  case (SFire i now)
  then show ?thesis
    using sys_step.fire [of y "take i (y_timers y)" "fst (y_timers y ! i)" "snd (y_timers y ! i)"
        "drop (Suc i) (y_timers y)" now] id_take_nth_drop [of i "y_timers y"]
    by (auto split: prod.splits)
qed

lemma run_reachable: "reachable own cfg (run own cfg cs)"
proof -
  have "(sys_step own)\<^sup>*\<^sup>* y (fold (exec own) cs y)" for y
    by (induction cs arbitrary: y) (auto intro: rtranclp_trans exec_steps)
  then show ?thesis by (simp add: reachable_def run_def)
qed

section \<open>Properties\<close>

text \<open>
  The goroutine of a pool entry can always be brought to firing: a pending one calls its hook
  first, and that is a step.
\<close>

lemma pool_entry_fires:
  assumes "(t, sn) \<in> set (pool y)"
  obtains y' ts us where "(sys_step own)\<^sup>*\<^sup>* y y'" and "y_machine y' = y_machine y"
    and "y_timers y' = ts @ (t, sn) # us" and "y_bumps y' = y_bumps y"
proof (cases "(t, sn) \<in> set (y_timers y)")
  case True
  then obtain ts us where "y_timers y = ts @ (t, sn) # us" by (meson split_list)
  then show ?thesis using that [of y] by blast
next
  case False
  then obtain a where a: "a \<in> set (y_pending y)" and arm: "(t, sn) \<in> set (armed a)"
    using assms by (auto simp: pool_def)
  then obtain ps qs where pend: "y_pending y = ps @ a # qs" by (meson split_list)
  let ?y = "y\<lparr>y_pending := ps @ qs, y_timers := y_timers y @ armed a, y_log := y_log y @ [fst a]\<rparr>"
  have "armed a = [(t, sn)]" using arm by (cases a rule: armed.cases) auto
  then have "y_timers ?y = y_timers y @ (t, sn) # []" by simp
  moreover have "sys_step own y ?y" using pend by (rule sys_step.hook)
  ultimately show ?thesis using that [of ?y] by auto
qed

lemma pool_live_reaches:
  assumes "(t, sn) \<in> set (pool y)" and "timerGen t = mc_gen (y_machine y)"
    and "mc_state (y_machine y) = (case t of WarmupTimer _ \<Rightarrow> StateActivating | TeardownTimer _ \<Rightarrow> StateReleasing)"
  shows "\<exists>y'. (sys_step own)\<^sup>*\<^sup>* y y' \<and> y_bumps y' = y_bumps y \<and>
    y_machine y' = snd (fireTimer t now (y_machine y))"
proof -
  obtain y1 ts us where steps: "(sys_step own)\<^sup>*\<^sup>* y y1" and m: "y_machine y1 = y_machine y"
    and t: "y_timers y1 = ts @ (t, sn) # us" and b: "y_bumps y1 = y_bumps y"
    using pool_entry_fires [OF assms(1)] .
  obtain a m' where fire: "fireTimer t now (y_machine y1) = (a, m')" by (cases "fireTimer t now (y_machine y1)")
  let ?y = "spawn a m' (y1\<lparr>y_timers := ts @ us\<rparr>)"
  have "sys_step own y1 ?y" using t fire by (rule sys_step.fire)
  moreover have "mc_gen m' = mc_gen (y_machine y1)"
    using fireTimer_live(1) [OF assms(2,3), of now] fire m by simp
  ultimately show ?thesis
    using steps m b fire by (intro exI [of _ ?y]) (auto simp: y_bumps_spawn)
qed

text \<open>
  C16: retries of the lease API are harmless. An activation that is refused changes nothing, and
  is refused for one of two reasons; one that is accepted leaves the pod committed to that lease,
  on its way to hot or hot, and repeating it at any time is accepted again and changes nothing
  more. A release always leaves the pod neither activating nor hot, and repeating it changes
  nothing more.
\<close>

theorem retries_are_harmless:
  "(case Activate req own now m of
      (Inl e, m') \<Rightarrow> m' = m \<and> (e = ErrNodeMismatch \<or> e = ErrLeaseConflict)
    | (Inr x, m') \<Rightarrow> mc_state m' \<in> {StateActivating, StateHot} \<and> mc_leaseName m' = ar_LeaseName req \<and>
        Activate req own now' m' = (Inr None, m')) \<and>
   (case Release m of (x, m') \<Rightarrow> mc_state m' \<notin> {StateActivating, StateHot} \<and> Release m' = (None, m'))"
  using Activate_error [of req own now m] Activate_commits [of req own now m] Activate_again [of req own now m]
    Release_lets_go [of m] Release_again [of m]
  by (auto split: prod.splits sum.splits)

text \<open>
  C14: a timer that acts, acts for the activation or release that armed it. In every reachable
  state of every interleaving, while the generation counter has not wrapped around, a timer
  callback that changes the machine finds it exactly in the state its own goroutine left it in:
  a cancelled warm-up never makes the pod hot, a stale teardown never releases a later lease.
\<close>

theorem timer_acts_for_its_lease:
  assumes "reachable own cfg y" and "y_bumps y < 2 ^ 64"
    and "(t, sn) \<in> set (y_timers y)" and "fst (fireTimer t now (y_machine y)) \<noteq> None"
  shows "sn = snapshotLocked (y_machine y)"
proof -
  have inv: "pool_inv (y_machine y) (y_bumps y) (pool y)"
    using reachable_inv [OF assms(1,2)] by (simp add: sys_inv_def)
  obtain ts us where split: "pool y = ts @ (t, sn) # us"
    using assms(3) by (auto simp: pool_def dest: split_list)
  have "timerGen t = mc_gen (y_machine y)"
    using fireTimer_acts [of _ _ ts t sn us now] inv split assms(4) by simp
  with inv split show ?thesis by (auto simp: pool_inv_def)
qed

text \<open>
  C15: the lifecycle is never stuck: from every reachable activating state the pod can still
  become hot holding the same lease, and from every reachable releasing state it can become
  warm again, without any further request.
\<close>

theorem lifecycle_never_stuck:
  assumes "reachable own cfg y" and "y_bumps y < 2 ^ 64"
  shows "(mc_state (y_machine y) = StateActivating \<longrightarrow>
      (\<exists>y'. (sys_step own)\<^sup>*\<^sup>* y y' \<and> IsHot (y_machine y') \<and>
         mc_leaseName (y_machine y') = mc_leaseName (y_machine y))) \<and>
    (mc_state (y_machine y) = StateReleasing \<longrightarrow>
      (\<exists>y'. (sys_step own)\<^sup>*\<^sup>* y y' \<and> mc_state (y_machine y') = StateWarm \<and> mc_gpuID (y_machine y') = -1))"
proof (intro conjI impI)
  let ?m = "y_machine y"
  have inv: "pool_inv ?m (y_bumps y) (pool y)"
    using reachable_inv [OF assms] by (simp add: sys_inv_def)
  show "\<exists>y'. (sys_step own)\<^sup>*\<^sup>* y y' \<and> IsHot (y_machine y') \<and> mc_leaseName (y_machine y') = mc_leaseName ?m"
    if st: "mc_state ?m = StateActivating"
  proof -
    obtain sn where "(WarmupTimer (mc_gen ?m), sn) \<in> set (pool y)" using inv st by (auto simp: pool_inv_def)
    from pool_live_reaches [OF this, of own 0] st show ?thesis
      by (auto simp: machine_defs IsHot_def)
  qed
  show "\<exists>y'. (sys_step own)\<^sup>*\<^sup>* y y' \<and> mc_state (y_machine y') = StateWarm \<and> mc_gpuID (y_machine y') = -1"
    if st: "mc_state ?m = StateReleasing"
  proof -
    obtain sn where "(TeardownTimer (mc_gen ?m), sn) \<in> set (pool y)" using inv st by (auto simp: pool_inv_def)
    from pool_live_reaches [OF this, of own 0] st show ?thesis
      by (auto simp: machine_defs)
  qed
qed

section \<open>Witnesses\<close>

definition exampleRequest :: ActivateRequest where
  "exampleRequest = \<lparr> ar_LeaseName = ''n1-gpu-0'', ar_Node = ''n1'', ar_GPUID = 0, ar_GPUModel = ''H100'' \<rparr>"

definition exampleConfig :: MachineConfig where
  "exampleConfig = \<lparr> mcfg_WarmupDuration = 0, mcfg_TeardownDuration = 0 \<rparr>"

text \<open>An activation whose warm-up timer is armed, and a release of the hot pod.\<close>

definition exampleActivating :: Sys where
  "exampleActivating = run ''n1'' exampleConfig [SActivate exampleRequest 0, SHook 0]"

lemmas example_run_defs = exampleActivating_def run_def initSys_def NewMachine_def exampleConfig_def
  exampleRequest_def spawn_def machine_defs

lemma exampleActivating_eq:
  "y_machine exampleActivating =
     \<lparr> mc_state = StateActivating, mc_leaseName = ''n1-gpu-0'', mc_node = ''n1'', mc_gpuID = 0, mc_gpuModel = ''H100'',
       mc_activationStart = 0, mc_gen = 1, mc_warmup = DefaultWarmupDuration, mc_teardown = DefaultTeardownDuration \<rparr>"
  "y_timers exampleActivating =
     [(WarmupTimer 1, \<lparr> sn_State = StateActivating, sn_LeaseName = ''n1-gpu-0'', sn_Node = ''n1'', sn_GPUID = 0,
                         sn_GPUModel = ''H100'' \<rparr>)]"
  "y_bumps exampleActivating = 1"
  by (simp_all add: example_run_defs)

theorem timer_acts_witness:
  "\<lparr> sn_State = StateActivating, sn_LeaseName = ''n1-gpu-0'', sn_Node = ''n1'', sn_GPUID = 0, sn_GPUModel = ''H100'' \<rparr> =
   snapshotLocked (y_machine exampleActivating)"
proof (rule timer_acts_for_its_lease [of "''n1''" exampleConfig exampleActivating "WarmupTimer 1" _ 5])
  show "reachable ''n1'' exampleConfig exampleActivating"
    unfolding exampleActivating_def by (rule run_reachable)
qed (simp_all add: exampleActivating_eq machine_defs)

theorem lifecycle_never_stuck_witness:
  "\<exists>y'. (sys_step ''n1'')\<^sup>*\<^sup>* exampleActivating y' \<and> IsHot (y_machine y') \<and>
     mc_leaseName (y_machine y') = ''n1-gpu-0''"
  using lifecycle_never_stuck [of "''n1''" exampleConfig exampleActivating]
    run_reachable [of "''n1''" exampleConfig "[SActivate exampleRequest 0, SHook 0]"]
  by (simp add: exampleActivating_eq) (simp add: exampleActivating_def)

end
