(* ===== verification/PodMetrics.thy ===== *)
theory PodMetrics
  imports PodMachine
begin

text \<open>
  \<open>internal/workload/metrics.go\<close>: the six metrics of a pod. A gauge is its current value, a
  counter vector its value per label, a histogram the list of its observations (durations, not
  yet divided into seconds). The demand gauge holds a \<open>float64\<close>, kept as an abstract type \<open>'f\<close>
  with a zero.
\<close>

section \<open>Operations\<close>

definition metricPodHot :: string where "metricPodHot = ''gpulease_pod_hot''"
definition metricPodCapacityRPS :: string where "metricPodCapacityRPS = ''gpulease_pod_capacity_rps''"
definition metricPodGPUID :: string where "metricPodGPUID = ''gpulease_pod_gpu_id''"
definition metricDemandRPS :: string where "metricDemandRPS = ''gpulease_demand_rps''"
definition metricRequestsTotal :: string where "metricRequestsTotal = ''gpulease_requests_total''"
definition metricActivationSecond :: string where "metricActivationSecond = ''gpulease_activation_seconds''"

lemmas metric_name_defs = metricPodHot_def metricPodCapacityRPS_def metricPodGPUID_def metricDemandRPS_def
  metricRequestsTotal_def metricActivationSecond_def

text \<open>
  The collectors \<open>NewMetrics\<close> registers with its own, empty registry, which refuses a name it already
  has: \<open>MustRegister\<close> does not panic.
\<close>

definition podCollectors :: "string list" where
  "podCollectors = [metricPodHot, metricPodCapacityRPS, metricPodGPUID, metricDemandRPS, metricRequestsTotal,
     metricActivationSecond]"

lemma podCollectors_distinct: "distinct podCollectors"
  by (simp add: podCollectors_def metric_name_defs)

record 'f Metrics =
  pm_podLabels :: "(string \<times> string) list"
  pm_demandLabels :: "(string \<times> string) list"
  pm_podHot :: int
  pm_podCapacityRPS :: int
  pm_podGPUID :: int
  pm_demandRPS :: 'f
  pm_requestsTotal :: "string \<Rightarrow> nat"
  pm_activationSecs :: "duration list"

definition NewMetrics :: "string \<Rightarrow> string \<Rightarrow> string \<Rightarrow> ('f::zero) Metrics" where
  "NewMetrics deployment pod node =
     \<lparr> pm_podLabels = [(''deployment'', deployment), (''pod'', pod), (''node'', node)],
       pm_demandLabels = [(''deployment'', deployment)],
       pm_podHot = 0, pm_podCapacityRPS = 0, pm_podGPUID = -1, pm_demandRPS = 0,
       pm_requestsTotal = (\<lambda>_. 0), pm_activationSecs = [] \<rparr>"

definition ApplyEvent :: "Event \<Rightarrow> int32 \<Rightarrow> 'f Metrics \<Rightarrow> 'f Metrics" where
  "ApplyEvent ev capacityRPS m =
     (let m = (if ev_New ev = StateHot
               then m\<lparr>pm_podHot := 1, pm_podCapacityRPS := capacityRPS, pm_podGPUID := sn_GPUID (ev_Snapshot ev)\<rparr>
               else let m = m\<lparr>pm_podHot := 0, pm_podCapacityRPS := 0\<rparr>
                    in if ev_New ev = StateWarm then m\<lparr>pm_podGPUID := -1\<rparr> else m)
      in if ev_ActivationDuration ev > 0
         then m\<lparr>pm_activationSecs := pm_activationSecs m @ [ev_ActivationDuration ev]\<rparr> else m)"

definition SetDemandRPS :: "'f \<Rightarrow> 'f Metrics \<Rightarrow> 'f Metrics" where
  "SetDemandRPS v m = m\<lparr>pm_demandRPS := v\<rparr>"

definition ObserveRequest :: "int \<Rightarrow> 'f Metrics \<Rightarrow> 'f Metrics" where
  "ObserveRequest code m =
     m\<lparr>pm_requestsTotal := (pm_requestsTotal m)(showInt code := pm_requestsTotal m (showInt code) + 1)\<rparr>"

text \<open>All events the hook has received, in the order of delivery.\<close>

definition gauges :: "int32 \<Rightarrow> Event list \<Rightarrow> ('f::zero) Metrics \<Rightarrow> 'f Metrics" where
  "gauges cap evs m = fold (\<lambda>ev. ApplyEvent ev cap) evs m"

lemma gauges_simps [simp]:
  "gauges cap [] m = m" "gauges cap (evs @ [ev]) m = ApplyEvent ev cap (gauges cap evs m)"
  by (simp_all add: gauges_def)

section \<open>The gauges and the state\<close>

text \<open>What the help texts promise of the three pod gauges.\<close>

definition gauges_agree :: "int32 \<Rightarrow> Machine \<Rightarrow> 'f Metrics \<Rightarrow> bool" where
  "gauges_agree cap m g \<longleftrightarrow>
     pm_podHot g = (if IsHot m then 1 else 0) \<and>
     pm_podCapacityRPS g = (if IsHot m then cap else 0) \<and>
     (IsHot m \<longrightarrow> pm_podGPUID g = mc_gpuID m) \<and>
     (mc_state m = StateWarm \<longrightarrow> pm_podGPUID g = -1)"

lemma NewMetrics_agree: "gauges_agree cap (NewMachine cfg) (NewMetrics d p n)"
  by (simp add: gauges_agree_def NewMachine_def NewMetrics_def IsHot_def)

lemma ApplyEvent_agree:
  assumes "ev_New ev = mc_state m" and "ev_Snapshot ev = snapshotLocked m"
  shows "gauges_agree cap m (ApplyEvent ev cap g)"
  using assms by (simp add: gauges_agree_def ApplyEvent_def IsHot_def snapshotLocked_def Let_def)

text \<open>
  Hooks in order: the step relation restricted to delivering the oldest pending event. Between
  a critical section and its hook the gauges lag behind; \<open>lag\<close> is what they will show when all
  pending hooks have run.
\<close>

inductive fifo_step :: "string \<Rightarrow> Sys \<Rightarrow> Sys \<Rightarrow> bool" for own where
  activate: "Activate req own now (y_machine y) = (Inr a, m) \<Longrightarrow> fifo_step own y (spawn a m y)"
| release: "Release (y_machine y) = (a, m) \<Longrightarrow> fifo_step own y (spawn a m y)"
| hook: "y_pending y = a # qs \<Longrightarrow>
     fifo_step own y (y\<lparr>y_pending := qs, y_timers := y_timers y @ armed a, y_log := y_log y @ [fst a]\<rparr>)"
| fire: "y_timers y = ts @ (t, sn) # us \<Longrightarrow> fireTimer t now (y_machine y) = (a, m) \<Longrightarrow>
     fifo_step own y (spawn a m (y\<lparr>y_timers := ts @ us\<rparr>))"

lemma fifo_is_step: "fifo_step own y y' \<Longrightarrow> sys_step own y y'"
proof (induction rule: fifo_step.induct)
  case (hook y a qs)
  then show ?case using sys_step.hook [of y "[]" a qs] by simp
qed (auto intro: sys_step.intros)

definition lag :: "Sys \<Rightarrow> Event list" where
  "lag y = y_log y @ map fst (y_pending y)"

lemma lag_spawn: "lag (spawn a m y) = lag y @ (case a of None \<Rightarrow> [] | Some x \<Rightarrow> [fst x])"
  by (simp add: lag_def spawn_def split: option.splits)

text \<open>Each critical section changes the machine and emits one event describing it, or does neither.\<close>

lemma event_describes:
  "Activate req own now m = (Inr (Some x), m') \<Longrightarrow> ev_New (fst x) = mc_state m' \<and> ev_Snapshot (fst x) = snapshotLocked m'"
  "Release m = (Some x, m') \<Longrightarrow> ev_New (fst x) = mc_state m' \<and> ev_Snapshot (fst x) = snapshotLocked m'"
  "fireTimer t now m = (Some x, m') \<Longrightarrow> ev_New (fst x) = mc_state m' \<and> ev_Snapshot (fst x) = snapshotLocked m'"
  by (auto simp: machine_defs split: if_splits) (cases t; auto simp: machine_defs split: if_splits)+

lemma no_event_no_change:
  "Activate req own now m = (Inr None, m') \<Longrightarrow> m' = m"
  "Release m = (None, m') \<Longrightarrow> m' = m"
  "fireTimer t now m = (None, m') \<Longrightarrow> m' = m"
  by (auto simp: machine_defs split: if_splits) (cases t; auto simp: machine_defs split: if_splits)+

lemma spawn_agree:
  assumes "gauges_agree cap (y_machine y) (gauges cap (lag y) g)"
    and "\<And>x. a = Some x \<Longrightarrow> ev_New (fst x) = mc_state m \<and> ev_Snapshot (fst x) = snapshotLocked m"
    and "a = None \<Longrightarrow> m = y_machine y"
  shows "gauges_agree cap (y_machine (spawn a m y)) (gauges cap (lag (spawn a m y)) g)"
  using assms by (cases a) (auto simp: lag_spawn ApplyEvent_agree)

lemma fifo_agree:
  assumes "fifo_step own y y'" and "gauges_agree cap (y_machine y) (gauges cap (lag y) g)"
  shows "gauges_agree cap (y_machine y') (gauges cap (lag y') g)"
  using assms(1)
proof cases
  case (activate req now a m)
  show ?thesis
    unfolding activate(1) by (rule spawn_agree [OF assms(2)])
      (use activate(2) event_describes(1) no_event_no_change(1) in blast)+
next
  case (release a m)
  show ?thesis
    unfolding release(1) by (rule spawn_agree [OF assms(2)])
      (use release(2) event_describes(2) no_event_no_change(2) in blast)+
next
  case (hook a qs)
  then show ?thesis using assms(2) by (simp add: lag_def)
next
  case (fire ts t sn us now a m)
  let ?y = "y\<lparr>y_timers := ts @ us\<rparr>"
  have m: "y_machine ?y = y_machine y" and "gauges_agree cap (y_machine ?y) (gauges cap (lag ?y) g)"
    using assms(2) by (simp_all add: lag_def)
  from this(2) show ?thesis
    unfolding fire(1) by (rule spawn_agree)
      (use fire(3) m event_describes(3) no_event_no_change(3) in \<open>auto simp only:\<close>)
qed

section \<open>Properties\<close>

text \<open>
  C33: whenever hooks are delivered in the order of the transitions, a pod whose hooks have all
  run shows its state truthfully: \<open>gpulease_pod_hot\<close> is 1 exactly while hot,
  \<open>gpulease_pod_capacity_rps\<close> is the configured capacity exactly then and 0 otherwise, and
  \<open>gpulease_pod_gpu_id\<close> is the index of the held GPU while hot and -1 while warm.
\<close>

theorem gauges_show_state:
  assumes "(fifo_step own)\<^sup>*\<^sup>* (initSys cfg) y" and "y_pending y = []"
  shows "gauges_agree cap (y_machine y) (gauges cap (y_log y) (NewMetrics d p n))"
proof -
  have "gauges_agree cap (y_machine y) (gauges cap (lag y) (NewMetrics d p n))"
    using assms(1)
  proof (induction rule: rtranclp_induct)
    case base
    show ?case by (simp add: initSys_def lag_def NewMetrics_agree)
  qed (rule fifo_agree)
  with assms(2) show ?thesis by (simp add: lag_def)
qed

text \<open>
  Nothing in the code enforces that order, and without it the gauges can go wrong for good:
  some interleaving ends with the pod warm, holding no lease, no hook pending and no timer
  armed, while \<open>gpulease_pod_hot\<close> stays 1.
\<close>

lemma late_hook_leaves_stale_gauge:
  "\<exists>y. reachable ''n1'' exampleConfig y \<and> y_pending y = [] \<and> y_timers y = [] \<and>
     mc_state (y_machine y) = StateWarm \<and>
     pm_podHot (gauges 10 (y_log y) (NewMetrics ''app'' ''pod-0'' ''n1'' :: int Metrics)) = 1"
proof -
  let ?y = "run ''n1'' exampleConfig
    [SActivate exampleRequest 0, SHook 0, SFire 0 5, SRelease, SHook 1, SFire 0 9, SHook 1, SHook 0]"
  have "y_pending ?y = [] \<and> y_timers ?y = [] \<and> mc_state (y_machine ?y) = StateWarm \<and>
     pm_podHot (gauges 10 (y_log ?y) (NewMetrics ''app'' ''pod-0'' ''n1'' :: int Metrics)) = 1"
    by (simp add: run_def initSys_def NewMachine_def exampleConfig_def exampleRequest_def spawn_def machine_defs
        gauges_def ApplyEvent_def NewMetrics_def)
  then show ?thesis using run_reachable by blast
qed

section \<open>Witnesses\<close>

theorem gauges_show_state_witness:
  "\<exists>y. (fifo_step ''n1'')\<^sup>*\<^sup>* (initSys exampleConfig) y \<and> y_pending y = [] \<and>
     gauges_agree 10 (y_machine y) (gauges 10 (y_log y) (NewMetrics ''app'' ''pod-0'' ''n1'' :: int Metrics)) \<and>
     mc_state (y_machine y) = StateActivating"
proof -
  let ?m = "snd (Activate exampleRequest ''n1'' 0 (NewMachine exampleConfig))"
  let ?a = "case fst (Activate exampleRequest ''n1'' 0 (NewMachine exampleConfig)) of Inr a \<Rightarrow> a | Inl _ \<Rightarrow> None"
  let ?y1 = "spawn ?a ?m (initSys exampleConfig)"
  have "Activate exampleRequest ''n1'' 0 (y_machine (initSys exampleConfig)) = (Inr ?a, ?m)"
    by (simp add: initSys_def NewMachine_def exampleRequest_def machine_defs)
  then have s1: "fifo_step ''n1'' (initSys exampleConfig) ?y1" by (rule fifo_step.activate)
  have pend: "y_pending ?y1 = hd (y_pending ?y1) # []"
    by (simp add: initSys_def NewMachine_def exampleRequest_def machine_defs spawn_def)
  let ?y2 = "?y1\<lparr>y_pending := [], y_timers := y_timers ?y1 @ armed (hd (y_pending ?y1)),
    y_log := y_log ?y1 @ [fst (hd (y_pending ?y1))]\<rparr>"
  have s2: "fifo_step ''n1'' ?y1 ?y2" using pend by (rule fifo_step.hook)
  have steps: "(fifo_step ''n1'')\<^sup>*\<^sup>* (initSys exampleConfig) ?y2" using s1 s2 by auto
  have "gauges_agree 10 (y_machine ?y2) (gauges 10 (y_log ?y2) (NewMetrics ''app'' ''pod-0'' ''n1'' :: int Metrics))"
    by (rule gauges_show_state [OF steps]) simp
  moreover have "mc_state (y_machine ?y2) = StateActivating"
    by (simp add: initSys_def NewMachine_def exampleRequest_def machine_defs)
  ultimately show ?thesis using steps by (intro exI [of _ ?y2]) simp
qed

end
