(* ===== verification/Demand.thy ===== *)
theory Demand
  imports PodMetrics
begin

text \<open>
  \<open>internal/workload/demand.go\<close>: the watcher that republishes the demand of a ConfigMap. The
  informer of client-go is the sequence of events it delivers. \<open>strconv.ParseFloat\<close> is the
  argument \<open>parseFloat\<close>, so what is shown holds for every parser; warnings are compared as
  unrendered messages, which for one watcher differ exactly when their renderings do.
\<close>

section \<open>Operations\<close>

definition DefaultDemandConfigMapName :: string where
  "DefaultDemandConfigMapName = ''gpu-lease-demand''"

text \<open>\<open>'s\<close> is the state the \<open>onUpdate\<close> callback writes to; \<open>dw_logged\<close> are the warnings logged.\<close>

record ('f, 's) DemandWatcher =
  dw_namespace :: string
  dw_cmName :: string
  dw_deployment :: string
  dw_onUpdate :: "('f \<Rightarrow> 's \<Rightarrow> 's) option"
  dw_value :: 'f
  dw_lastWarning :: msg
  dw_logged :: "msg list"

definition NewDemandWatcher ::
    "string \<Rightarrow> string \<Rightarrow> string \<Rightarrow> ('f \<Rightarrow> 's \<Rightarrow> 's) option \<Rightarrow> ('f::zero, 's) DemandWatcher" where
  "NewDemandWatcher namespace cmName deployment onUpdate =
     \<lparr> dw_namespace = namespace,
       dw_cmName = (if cmName = '''' then DefaultDemandConfigMapName else cmName),
       dw_deployment = deployment, dw_onUpdate = onUpdate, dw_value = 0, dw_lastWarning = Lit '''', dw_logged = [] \<rparr>"

definition Value :: "('f, 's) DemandWatcher \<Rightarrow> 'f" where
  "Value w = dw_value w"

definition publish :: "('f, 's) DemandWatcher \<Rightarrow> 'f \<Rightarrow> 's \<Rightarrow> 's" where
  "publish w v s = (case dw_onUpdate w of None \<Rightarrow> s | Some f \<Rightarrow> f v s)"

definition warnOnce :: "msg \<Rightarrow> ('f, 's) DemandWatcher \<Rightarrow> ('f, 's) DemandWatcher" where
  "warnOnce message w =
     (if dw_lastWarning w = message then w
      else w\<lparr>dw_lastWarning := message, dw_logged := dw_logged w @ [message]\<rparr>)"

definition fallback :: "('f, 's) DemandWatcher \<Rightarrow> 'f" where
  "fallback w = dw_value w"

definition missingKey :: "('f, 's) DemandWatcher \<Rightarrow> msg" where
  "missingKey w = Sprintf ''configmap %s/%s has no key %q; keeping last known demand''
     [FStr (dw_namespace w), FStr (dw_cmName w), FStr (dw_deployment w)]"

definition badValue :: "('f, 's) DemandWatcher \<Rightarrow> string \<Rightarrow> msg" where
  "badValue w raw = Sprintf ''configmap %s/%s key %q value %q is not a number; keeping last known demand''
     [FStr (dw_namespace w), FStr (dw_cmName w), FStr (dw_deployment w), FStr raw]"

definition applyConfigMap ::
    "(string \<Rightarrow> 'f option) \<Rightarrow> strmap \<Rightarrow> ('f, 's) DemandWatcher \<times> 's \<Rightarrow> ('f, 's) DemandWatcher \<times> 's" where
  "applyConfigMap parseFloat cm ws =
     (let (w, s) = ws in
      case cm (dw_deployment w) of
        None \<Rightarrow> let w = warnOnce (missingKey w) w in (w, publish w (fallback w) s)
      | Some raw \<Rightarrow>
          (case parseFloat raw of
             None \<Rightarrow> let w = warnOnce (badValue w raw) w in (w, publish w (fallback w) s)
           | Some v \<Rightarrow> let w = w\<lparr>dw_value := v, dw_lastWarning := Lit ''''\<rparr> in (w, publish w v s)))"

text \<open>What the informer hands to its callbacks: ConfigMaps, or (on deletion) tombstones.\<close>

datatype InformerObj = ConfigMapObj strmap | OtherObj
datatype InformerEvent = Added InformerObj | Updated InformerObj InformerObj | Deleted InformerObj

fun handleObj ::
    "(string \<Rightarrow> 'f option) \<Rightarrow> InformerObj \<Rightarrow> ('f, 's) DemandWatcher \<times> 's \<Rightarrow> ('f, 's) DemandWatcher \<times> 's" where
  "handleObj pf (ConfigMapObj cm) ws = applyConfigMap pf cm ws"
| "handleObj pf OtherObj ws = ws"

fun informerStep ::
    "(string \<Rightarrow> 'f option) \<Rightarrow> InformerEvent \<Rightarrow> ('f, 's) DemandWatcher \<times> 's \<Rightarrow> ('f, 's) DemandWatcher \<times> 's" where
  "informerStep pf (Added ob) ws = handleObj pf ob ws"
| "informerStep pf (Updated old ob) ws = handleObj pf ob ws"
| "informerStep pf (Deleted ob) ws = ws"

definition demandRun ::
    "(string \<Rightarrow> 'f option) \<Rightarrow> InformerEvent list \<Rightarrow> ('f, 's) DemandWatcher \<times> 's \<Rightarrow> ('f, 's) DemandWatcher \<times> 's" where
  "demandRun pf evs ws = fold (informerStep pf) evs ws"

section \<open>Last known good value\<close>

lemma warnOnce_sel [simp]:
  "dw_value (warnOnce m w) = dw_value w" "dw_deployment (warnOnce m w) = dw_deployment w"
  "dw_onUpdate (warnOnce m w) = dw_onUpdate w" "dw_namespace (warnOnce m w) = dw_namespace w"
  "dw_cmName (warnOnce m w) = dw_cmName w"
  by (simp_all add: warnOnce_def)

lemma applyConfigMap_sel [simp]:
  "dw_deployment (fst (applyConfigMap pf cm ws)) = dw_deployment (fst ws)"
  "dw_onUpdate (fst (applyConfigMap pf cm ws)) = dw_onUpdate (fst ws)"
  by (auto simp: applyConfigMap_def Let_def split: prod.splits option.splits)

text \<open>The readings of an event sequence: the parseable values of the watched key, in order.\<close>

fun eventObj :: "InformerEvent \<Rightarrow> InformerObj" where
  "eventObj (Added ob) = ob"
| "eventObj (Updated old ob) = ob"
| "eventObj (Deleted ob) = OtherObj"

fun reading :: "(string \<Rightarrow> 'f option) \<Rightarrow> string \<Rightarrow> InformerObj \<Rightarrow> 'f option" where
  "reading pf dep (ConfigMapObj cm) = Option.bind (cm dep) pf"
| "reading pf dep OtherObj = None"

definition readings :: "(string \<Rightarrow> 'f option) \<Rightarrow> string \<Rightarrow> InformerEvent list \<Rightarrow> 'f list" where
  "readings pf dep evs = List.map_filter (reading pf dep \<circ> eventObj) evs"

lemma informerStep_obj: "informerStep pf ev ws = handleObj pf (eventObj ev) ws"
  by (cases ev) simp_all

lemma handleObj_value:
  "dw_value (fst (handleObj pf ob ws)) =
     (case reading pf (dw_deployment (fst ws)) ob of None \<Rightarrow> dw_value (fst ws) | Some v \<Rightarrow> v)"
  "dw_deployment (fst (handleObj pf ob ws)) = dw_deployment (fst ws)"
  "dw_onUpdate (fst (handleObj pf ob ws)) = dw_onUpdate (fst ws)"
  by (cases ob; auto simp: applyConfigMap_def Let_def split: prod.splits option.splits bind_splits)+

lemma demandRun_Cons: "demandRun pf (ev # evs) ws = demandRun pf evs (handleObj pf (eventObj ev) ws)"
  by (simp add: demandRun_def informerStep_obj)

lemma readings_simps [simp]:
  "readings pf dep [] = []"
  "readings pf dep (ev # evs) =
     (case reading pf dep (eventObj ev) of None \<Rightarrow> readings pf dep evs | Some v \<Rightarrow> v # readings pf dep evs)"
  by (simp_all add: readings_def map_filter_simps split: option.splits)

lemma demandRun_value:
  "dw_value (fst (demandRun pf evs ws)) = last (dw_value (fst ws) # readings pf (dw_deployment (fst ws)) evs)"
proof (induction evs arbitrary: ws)
  case Nil
  show ?case by (simp add: demandRun_def)
next
  case (Cons ev evs)
  show ?case
    by (auto simp: demandRun_Cons Cons.IH handleObj_value split: option.splits)
qed

section \<open>Warnings\<close>

lemma applyConfigMap_fst:
  "fst (applyConfigMap pf cm (w, s)) =
     (case cm (dw_deployment w) of
        None \<Rightarrow> warnOnce (missingKey w) w
      | Some raw \<Rightarrow> (case pf raw of
            None \<Rightarrow> warnOnce (badValue w raw) w
          | Some v \<Rightarrow> w\<lparr>dw_value := v, dw_lastWarning := Lit ''''\<rparr>))"
  by (simp add: applyConfigMap_def Let_def split: option.splits)

lemma warnOnce_again: "warnOnce m (warnOnce m w) = warnOnce m w"
  by (simp add: warnOnce_def)

lemma message_warnOnce [simp]: "missingKey (warnOnce m w) = missingKey w" "badValue (warnOnce m w) raw = badValue w raw"
  by (simp_all add: missingKey_def badValue_def)

lemma applyConfigMap_again:
  "fst (applyConfigMap pf cm (fst (applyConfigMap pf cm (w, s)), s')) = fst (applyConfigMap pf cm (w, s))"
  by (simp add: applyConfigMap_fst warnOnce_again split: option.splits)

section \<open>Properties\<close>

text \<open>
  The gauge \<open>gpulease_demand_rps\<close> follows the watcher: however many events have been
  handled since the metrics were created, the gauge the watcher publishes to holds exactly the
  watcher's value.
\<close>

lemma demand_gauge_follows:
  "case demandRun pf evs (NewDemandWatcher ns cm dep (Some SetDemandRPS), NewMetrics d p n) of
     (w, m) \<Rightarrow> pm_demandRPS m = dw_value w"
proof -
  have step: "pm_demandRPS (snd (handleObj pf ob ws)) = dw_value (fst (handleObj pf ob ws))"
    if "dw_onUpdate (fst ws) = Some SetDemandRPS" and "pm_demandRPS (snd ws) = dw_value (fst ws)"
    for ob and ws :: "('a, 'a Metrics) DemandWatcher \<times> 'a Metrics"
    using that by (cases ob)
      (auto simp: applyConfigMap_def Let_def publish_def SetDemandRPS_def fallback_def split: prod.splits option.splits)
  have "pm_demandRPS (snd (demandRun pf evs ws)) = dw_value (fst (demandRun pf evs ws))"
    if "dw_onUpdate (fst ws) = Some SetDemandRPS" and "pm_demandRPS (snd ws) = dw_value (fst ws)"
    for ws :: "('a, 'a Metrics) DemandWatcher \<times> 'a Metrics"
    using that
  proof (induction evs arbitrary: ws)
    case (Cons ev evs)
    then show ?case by (simp add: demandRun_Cons step handleObj_value(3))
  qed (simp add: demandRun_def)
  from this [of "(NewDemandWatcher ns cm dep (Some SetDemandRPS), NewMetrics d p n)"]
  show ?thesis by (auto simp: NewDemandWatcher_def NewMetrics_def split: prod.splits)
qed

text \<open>
  C34: whatever sequence of additions, updates, deletions and tombstones the informer delivers,
  the watcher's value is the last parseable reading of its deployment's key, and 0 when there
  has been none: an absent ConfigMap, an absent key, an unparseable value and a deletion all
  keep the last known good demand. The gauge \<open>gpulease_demand_rps\<close> that the server lets the watcher
  set shows this value.
\<close>

theorem demand_last_known_good:
  "case demandRun pf evs (NewDemandWatcher ns cm dep (Some SetDemandRPS), NewMetrics d p n) of (w, m) \<Rightarrow>
     Value w = last (0 # readings pf dep evs) \<and> pm_demandRPS m = Value w"
  using demand_gauge_follows [of pf evs ns cm dep d p n]
    demandRun_value [of pf evs "(NewDemandWatcher ns cm dep (Some SetDemandRPS), NewMetrics d p n)"]
  by (auto simp: Value_def NewDemandWatcher_def)

text \<open>
  A persistently bad ConfigMap does not spam the log: handling the same ConfigMap any number
  of further times logs nothing more and leaves the value unchanged.
\<close>

lemma demand_warns_once:
  "fst ((applyConfigMap pf cm ^^ Suc k) ws) = fst (applyConfigMap pf cm ws)"
proof (induction k)
  case (Suc k)
  have "fst ((applyConfigMap pf cm ^^ Suc (Suc k)) ws) =
      fst (applyConfigMap pf cm (fst ((applyConfigMap pf cm ^^ Suc k) ws), snd ((applyConfigMap pf cm ^^ Suc k) ws)))"
    by simp
  also have "\<dots> = fst (applyConfigMap pf cm (fst (applyConfigMap pf cm (fst ws, snd ws)),
      snd ((applyConfigMap pf cm ^^ Suc k) ws)))"
    using Suc by simp
  also have "\<dots> = fst (applyConfigMap pf cm (fst ws, snd ws))" by (rule applyConfigMap_again)
  finally show ?case by simp
qed simp

end
