(* ===== verification/PodServer.thy ===== *)
theory PodServer
  imports Demand
begin

text \<open>
  \<open>internal/workload/server.go\<close>: the pod's HTTP server, and the network between it and the
  controller's \<open>HTTPClient\<close>. A handler is a function of the request, the current time and the
  server; a method's critical section, its hook and the arming of its timer run in sequence
  here (their interleavings are the subject of the machine's own theory). Sockets and the
  shutdown of the HTTP library are arguments of \<open>ListenAndServe\<close>.
\<close>

section \<open>The server\<close>

record Config =
  cfg_NodeName :: string
  cfg_PodName :: string
  cfg_PodNamespace :: string
  cfg_DeploymentName :: string
  cfg_PodCapacityRPS :: int32
  cfg_WarmupDuration :: duration
  cfg_TeardownDuration :: duration
  cfg_DemandConfigMapName :: string

text \<open>\<open>sv_timers\<close>: the armed \<open>time.AfterFunc\<close> callbacks with the instant they are due.\<close>

record 'f Server =
  sv_cfg :: Config
  sv_machine :: Machine
  sv_metrics :: "'f Metrics"
  sv_demand :: "('f, 'f Metrics) DemandWatcher option"
  sv_timers :: "(gotime \<times> Timer) list"

definition NewServer :: "Config \<Rightarrow> bool \<Rightarrow> ('f::zero) Server" where
  "NewServer cfg hasClient =
     \<lparr> sv_cfg = cfg,
       sv_machine = NewMachine \<lparr> mcfg_WarmupDuration = cfg_WarmupDuration cfg,
                                 mcfg_TeardownDuration = cfg_TeardownDuration cfg \<rparr>,
       sv_metrics = NewMetrics (cfg_DeploymentName cfg) (cfg_PodName cfg) (cfg_NodeName cfg),
       sv_demand = (if hasClient
                    then Some (NewDemandWatcher (cfg_PodNamespace cfg) (cfg_DemandConfigMapName cfg)
                                 (cfg_DeploymentName cfg) (Some SetDemandRPS))
                    else None),
       sv_timers = [] \<rparr>"

definition onTransition :: "Event \<Rightarrow> 'f Server \<Rightarrow> 'f Server" where
  "onTransition ev s = s\<lparr>sv_metrics := ApplyEvent ev (cfg_PodCapacityRPS (sv_cfg s)) (sv_metrics s)\<rparr>"

text \<open>What a method does after its critical section: the hook, then \<open>AfterFunc\<close>.\<close>

definition finish :: "gotime \<Rightarrow> afterUnlock option \<Rightarrow> Machine \<Rightarrow> 'f Server \<Rightarrow> 'f Server" where
  "finish now a m s =
     (let s = s\<lparr>sv_machine := m\<rparr> in
      case a of
        None \<Rightarrow> s
      | Some (ev, arm) \<Rightarrow>
          let s = onTransition ev s
          in case arm of None \<Rightarrow> s | Some (d, t) \<Rightarrow> s\<lparr>sv_timers := sv_timers s @ [(now + d, t)]\<rparr>)"

section \<open>Handlers\<close>

definition httpError :: "msg \<Rightarrow> int \<Rightarrow> HttpResponse" where
  "httpError body code = \<lparr> hs_StatusCode = code, hs_Body = Text body \<rparr>"

definition handleActivate :: "HttpRequest \<Rightarrow> gotime \<Rightarrow> 'f Server \<Rightarrow> HttpResponse \<times> 'f Server" where
  "handleActivate r now s =
     (case decodeActivate (hq_Body r) of
        None \<Rightarrow> (httpError (Lit ''invalid request body'') StatusBadRequest, s)
      | Some req \<Rightarrow>
          (case Activate req (cfg_NodeName (sv_cfg s)) now (sv_machine s) of
             (Inr a, m) \<Rightarrow> (\<lparr> hs_StatusCode = StatusAccepted, hs_Body = NoBody \<rparr>, finish now a m s)
           | (Inl err, m) \<Rightarrow>
               let s = s\<lparr>sv_machine := m\<rparr> in
               if errorsIs err ErrNodeMismatch then (httpError (Sprintf ''node mismatch: pod is on %q, lease is for %q''
                    [FStr (cfg_NodeName (sv_cfg s)), FStr (ar_Node req)]) StatusConflict, s)
               else if errorsIs err ErrLeaseConflict then (httpError (Sprintf ''lease conflict: pod is already committed to lease %q''
                    [FStr (sn_LeaseName (snapshotLocked m))]) StatusConflict, s)
               else (httpError (Sprintf ''%v'' [FErr err]) StatusInternalServerError, s)))"

definition handleRelease :: "HttpRequest \<Rightarrow> gotime \<Rightarrow> 'f Server \<Rightarrow> HttpResponse \<times> 'f Server" where
  "handleRelease r now s =
     (case Release (sv_machine s) of
        (a, m) \<Rightarrow> (\<lparr> hs_StatusCode = StatusNoContent, hs_Body = NoBody \<rparr>, finish now a m s))"

definition handleState :: "HttpRequest \<Rightarrow> gotime \<Rightarrow> 'f Server \<Rightarrow> HttpResponse \<times> 'f Server" where
  "handleState r now s =
     (let snap = snapshotLocked (sv_machine s)
      in (\<lparr> hs_StatusCode = StatusOK,
            hs_Body = JsonState \<lparr> sr_State = sn_State snap, sr_LeaseName = sn_LeaseName snap,
                                  sr_Node = sn_Node snap, sr_GPUID = sn_GPUID snap \<rparr> \<rparr>, s))"

text \<open>
  What a handler meets besides the server: \<open>se_Gone\<close>, the request's context is done after that time of
  the simulated latency; \<open>se_IntN\<close>, the draw of \<open>rand.IntN(20)\<close>; \<open>se_Meanwhile\<close>, what becomes of the
  server while the handler sleeps (other requests, timers); \<open>se_PromHTTP\<close>, the text \<open>promhttp\<close> renders.
\<close>

record 'f ServeEnv =
  se_Gone :: "duration option"
  se_IntN :: int
  se_Meanwhile :: "duration \<Rightarrow> 'f Server \<Rightarrow> 'f Server"
  se_PromHTTP :: "'f Metrics \<Rightarrow> msg"

definition simulatedInferLatencyBase :: duration where
  "simulatedInferLatencyBase = 20 * Millisecond"

text \<open>Hotness is tested once, before the sleep; without a response the result is \<open>None\<close>.\<close>

definition handleInfer ::
    "'f ServeEnv \<Rightarrow> HttpRequest \<Rightarrow> gotime \<Rightarrow> 'f Server \<Rightarrow> HttpResponse option \<times> 'f Server" where
  "handleInfer env r now s =
     (if \<not> IsHot (sv_machine s)
      then (Some (httpError (Lit ''no GPU lease'') StatusServiceUnavailable),
            s\<lparr>sv_metrics := ObserveRequest StatusServiceUnavailable (sv_metrics s)\<rparr>)
      else
        let jitter = se_IntN env * Millisecond in
        case se_Gone env of
          Some d \<Rightarrow> (None, se_Meanwhile env d s)
        | None \<Rightarrow>
            let s = se_Meanwhile env (simulatedInferLatencyBase + jitter) s
            in (Some \<lparr> hs_StatusCode = StatusOK, hs_Body = Text (Lit ''ok'') \<rparr>,
                s\<lparr>sv_metrics := ObserveRequest StatusOK (sv_metrics s)\<rparr>))"

definition handleHealthz :: "HttpRequest \<Rightarrow> gotime \<Rightarrow> 'f Server \<Rightarrow> HttpResponse \<times> 'f Server" where
  "handleHealthz r now s = (\<lparr> hs_StatusCode = StatusOK, hs_Body = Text (Lit ''ok'') \<rparr>, s)"

section \<open>Routing\<close>

datatype Route = RActivate | RRelease | RState | RInfer | RHealthz | RMetrics | RMethodNotAllowed | RNotFound

text \<open>
  The mux of \<open>NewServer\<close>: a pattern names a method (GET also serves HEAD) and a path; a known
  path with another method is 405, an unknown path 404.
\<close>

definition route :: "string \<Rightarrow> string \<Rightarrow> Route" where
  "route meth path =
     (let get = (meth = ''GET'' \<or> meth = ''HEAD'') in
      if path = ''/lease'' then
        (if meth = ''POST'' then RActivate else if meth = ''DELETE'' then RRelease else RMethodNotAllowed)
      else if path = ''/state'' then (if get then RState else RMethodNotAllowed)
      else if path = ''/infer'' then (if meth = ''POST'' then RInfer else RMethodNotAllowed)
      else if path = ''/healthz'' \<or> path = ''/readyz'' then (if get then RHealthz else RMethodNotAllowed)
      else if path = ''/metrics'' then (if get then RMetrics else RMethodNotAllowed)
      else RNotFound)"

definition serve :: "'f ServeEnv \<Rightarrow> string \<Rightarrow> HttpRequest \<Rightarrow> gotime \<Rightarrow> 'f Server \<Rightarrow> HttpResponse option \<times> 'f Server" where
  "serve env path r now s =
     (case route (hq_Method r) path of
        RActivate \<Rightarrow> apfst Some (handleActivate r now s)
      | RRelease \<Rightarrow> apfst Some (handleRelease r now s)
      | RState \<Rightarrow> apfst Some (handleState r now s)
      | RInfer \<Rightarrow> handleInfer env r now s
      | RHealthz \<Rightarrow> apfst Some (handleHealthz r now s)
      | RMetrics \<Rightarrow> (Some \<lparr> hs_StatusCode = StatusOK, hs_Body = Text (se_PromHTTP env (sv_metrics s)) \<rparr>, s)
      | RMethodNotAllowed \<Rightarrow> (Some (httpError (Lit ''Method Not Allowed'') 405), s)
      | RNotFound \<Rightarrow> (Some (httpError (Lit ''404 page not found'') 404), s))"

section \<open>ListenAndServe\<close>

text \<open>
  What ends the wait of \<open>ListenAndServe\<close>: the context is cancelled and the HTTP server shut down,
  with or without an error, or the HTTP server returned on its own.
\<close>

datatype ServerEnd = ContextDone "goerr option" | ServeReturned "goerr option"

text \<open>The result says whether the demand watcher was started, and the error returned, if any.\<close>

definition ListenAndServe :: "'f Server \<Rightarrow> ServerEnd \<Rightarrow> bool \<times> goerr option" where
  "ListenAndServe s stop =
     (sv_demand s \<noteq> None,
      case stop of
        ContextDone shutdownErr \<Rightarrow> shutdownErr
      | ServeReturned None \<Rightarrow> None
      | ServeReturned (Some err) \<Rightarrow> if \<not> errorsIs err ErrServerClosed then Some err else None)"

section \<open>Timers\<close>

text \<open>\<open>fireDue\<close>: the timers due by \<open>now\<close> fire, in the order they were armed.\<close>

fun fireAll :: "gotime \<Rightarrow> Timer list \<Rightarrow> 'f Server \<Rightarrow> 'f Server" where
  "fireAll now [] s = s"
| "fireAll now (t # ts) s =
     fireAll now ts (case fireTimer t now (sv_machine s) of (a, m) \<Rightarrow> finish now a m s)"

definition fireDue :: "gotime \<Rightarrow> 'f Server \<Rightarrow> 'f Server" where
  "fireDue now s =
     fireAll now (map snd (filter (\<lambda>(due, t). due \<le> now) (sv_timers s)))
       (s\<lparr>sv_timers := filter (\<lambda>(due, t). \<not> due \<le> now) (sv_timers s)\<rparr>)"

lemma finish_machine [simp]: "sv_machine (finish now a m s) = m"
  by (simp add: finish_def onTransition_def Let_def split: option.splits prod.splits)

lemma finish_cfg [simp]: "sv_cfg (finish now a m s) = sv_cfg s"
  by (simp add: finish_def onTransition_def Let_def split: option.splits prod.splits)

section \<open>The network\<close>

text \<open>
  Pods reachable by IP, each listening on \<open>DefaultPort\<close>; \<open>nw_down\<close> lists the addresses that do
  not answer, \<open>nw_lost\<close> those whose answers do not arrive within the client's timeout, although the
  server acted on the request (a request that reaches the server only after the client gave up is not
  modelled); \<open>nw_env\<close> is what the handlers meet. The authority of a URL is split
  from the path at the first slash, and the host from the port at the first colon.
\<close>

record 'f Net =
  nw_now :: gotime
  nw_pods :: "string \<Rightarrow> 'f Server option"
  nw_down :: "string list"
  nw_lost :: "string list"
  nw_env :: "'f ServeEnv"

definition urlAuthority :: "string \<Rightarrow> string" where
  "urlAuthority url = takeWhile (\<lambda>c. c \<noteq> CHR ''/'') (drop 7 url)"

definition urlPath :: "string \<Rightarrow> string" where
  "urlPath url = dropWhile (\<lambda>c. c \<noteq> CHR ''/'') (drop 7 url)"

definition urlHost :: "string \<Rightarrow> string" where
  "urlHost url = takeWhile (\<lambda>c. c \<noteq> CHR '':'') (urlAuthority url)"

definition urlPort :: "string \<Rightarrow> string" where
  "urlPort url = tl (dropWhile (\<lambda>c. c \<noteq> CHR '':'') (urlAuthority url))"

definition netDo :: "('f Net) Transport" where
  "netDo r w =
     (if take 7 (hq_URL r) \<noteq> ''http://'' \<or> urlPort (hq_URL r) \<noteq> showInt DefaultPort then (Inl (ErrNet ''dial''), w)
      else if urlHost (hq_URL r) \<in> set (nw_down w) then (Inl (ErrNet ''timeout''), w)
      else case nw_pods w (urlHost (hq_URL r)) of
             None \<Rightarrow> (Inl (ErrNet ''no route to host''), w)
           | Some s \<Rightarrow>
               (case serve (nw_env w) (urlPath (hq_URL r)) r (nw_now w) s of
                  (resp, s') \<Rightarrow>
                    (if urlHost (hq_URL r) \<in> set (nw_lost w) then Inl (ErrNet ''Client.Timeout exceeded while awaiting headers'')
                     else case resp of None \<Rightarrow> Inl (ErrNet ''EOF'') | Some x \<Rightarrow> Inr x,
                     w\<lparr>nw_pods := (nw_pods w)(urlHost (hq_URL r) \<mapsto> s')\<rparr>)))"

text \<open>The controller's client over this network; \<open>valid\<close> is what \<open>http.NewRequest\<close> accepts.\<close>

definition netClient :: "(string \<Rightarrow> bool) \<Rightarrow> ('f Net) HTTPClient" where
  "netClient valid = \<lparr> hc_Do = Some netDo, hc_Port = 0, hc_DefaultDo = netDo, hc_ValidURL = valid \<rparr>"

definition netLifecycle :: "'f Net \<Rightarrow> string \<Rightarrow> string" where
  "netLifecycle w ip = (case nw_pods w ip of None \<Rightarrow> '''' | Some s \<Rightarrow> mc_state (sv_machine s))"

text \<open>An address without a colon or slash is found again in the URL; any other is not served.\<close>

definition plainHost :: "string \<Rightarrow> bool" where
  "plainHost ip \<longleftrightarrow> CHR '':'' \<notin> set ip \<and> CHR ''/'' \<notin> set ip"

lemma baseURL_netClient: "baseURL (netClient valid) ip = ''http://'' @ ip @ '':'' @ showInt DefaultPort"
  by (simp add: baseURL_def netClient_def hcPort_def)

lemma digitChar_port: "digitChar 8 = CHR ''8''" "digitChar 0 = CHR ''0''"
  by code_simp+

lemma showPort: "showInt DefaultPort = ''8000''"
  by (simp add: DefaultPort_def showInt_def showNat.simps digitChar_port)

text \<open>The URL the client builds for a pod's address and a path.\<close>

definition podURL :: "string \<Rightarrow> string \<Rightarrow> string" where
  "podURL ip p = ''http://'' @ ip @ '':8000'' @ CHR ''/'' # p"

lemma podURL_scheme [simp]: "take 7 (podURL ip p) = ''http://''"
  by (simp add: podURL_def)

lemma baseURL_path: "baseURL (netClient valid) ip @ CHR ''/'' # p = podURL ip p"
  by (simp add: baseURL_netClient showPort podURL_def)

lemma url_parts:
  assumes "CHR ''/'' \<notin> set ip"
  shows "urlAuthority (podURL ip p) = ip @ '':8000''"
    and "urlPath (podURL ip p) = CHR ''/'' # p"
  using assms by (auto simp: podURL_def urlAuthority_def urlPath_def takeWhile_append dropWhile_append)

lemma url_plain:
  assumes "plainHost ip"
  shows "urlHost (podURL ip p) = ip"
    and "urlPort (podURL ip p) = ''8000''"
    and "urlPath (podURL ip p) = CHR ''/'' # p"
proof -
  have *: "CHR ''/'' \<notin> set ip" "\<forall>c \<in> set ip. c \<noteq> CHR '':''"
    using assms by (auto simp: plainHost_def)
  show "urlHost (podURL ip p) = ip"
    using url_parts(1) [OF *(1)] *(2) by (simp add: urlHost_def takeWhile_append)
  show "urlPort (podURL ip p) = ''8000''"
    using url_parts(1) [OF *(1)] *(2) by (simp add: urlPort_def dropWhile_append)
  show "urlPath (podURL ip p) = CHR ''/'' # p"
    using url_parts(2) [OF *(1)] .
qed

lemma dropWhile_notin: "x \<notin> set xs \<Longrightarrow> dropWhile (\<lambda>c. c \<noteq> x) (xs @ x # ys) = x # ys"
  by (induction xs) auto

text \<open>A host that is not plain is not dialled, or is asked for a path that no route serves.\<close>

lemma url_not_plain:
  assumes "\<not> plainHost ip"
  shows "urlPort (podURL ip p) \<noteq> ''8000'' \<or>
    length (CHR ''/'' # p) < length (urlPath (podURL ip p))"
proof (cases "CHR ''/'' \<in> set ip")
  case True
  then obtain a b where ip: "ip = a @ CHR ''/'' # b" and a: "CHR ''/'' \<notin> set a"
    by (metis split_list_first)
  have "urlPath (podURL ip p) = CHR ''/'' # b @ '':8000'' @ CHR ''/'' # p"
    using dropWhile_notin [OF a] by (simp add: podURL_def urlPath_def ip)
  then show ?thesis by simp
next
  case False
  then have colon: "CHR '':'' \<in> set ip" using assms by (simp add: plainHost_def)
  then obtain a b where ip: "ip = a @ CHR '':'' # b" and a: "CHR '':'' \<notin> set a"
    by (metis split_list_first)
  have "urlPort (podURL ip p) = b @ '':8000''"
    using url_parts(1) [OF False] dropWhile_notin [OF a] by (simp add: urlPort_def ip)
  then show ?thesis by (auto dest: arg_cong [where f = length])
qed

section \<open>The HTTP client over the network\<close>

lemma netDo_plain:
  assumes "plainHost ip"
  shows "netDo \<lparr> hq_Method = m, hq_URL = podURL ip p, hq_Body = b \<rparr> w =
    (if ip \<in> set (nw_down w) then (Inl (ErrNet ''timeout''), w)
     else case nw_pods w ip of
       None \<Rightarrow> (Inl (ErrNet ''no route to host''), w)
     | Some s \<Rightarrow>
         (case serve (nw_env w) (CHR ''/'' # p) \<lparr> hq_Method = m, hq_URL = podURL ip p,
                hq_Body = b \<rparr> (nw_now w) s of
            (resp, s') \<Rightarrow> (if ip \<in> set (nw_lost w) then Inl (ErrNet ''Client.Timeout exceeded while awaiting headers'')
                           else case resp of None \<Rightarrow> Inl (ErrNet ''EOF'') | Some x \<Rightarrow> Inr x,
                           w\<lparr>nw_pods := (nw_pods w)(ip \<mapsto> s')\<rparr>)))"
  using url_plain [OF assms, of p] by (simp add: netDo_def showPort cong: option.case_cong)

lemma route_unknown:
  "path \<notin> {''/lease'', ''/state'', ''/infer'', ''/healthz'', ''/readyz'', ''/metrics''} \<Longrightarrow> route meth path = RNotFound"
  by (simp add: route_def)

lemma route_long: "8 < length path \<Longrightarrow> route meth path = RNotFound"
  by (rule route_unknown) auto

text \<open>To any other address a request has no effect, and its answer is no success.\<close>

lemma netDo_not_plain:
  assumes "\<not> plainHost ip" and "netDo \<lparr> hq_Method = m, hq_URL = podURL ip p,
      hq_Body = b \<rparr> w = (res, w')"
    and "route m (urlPath (podURL ip p)) = RNotFound \<or>
      urlPort (podURL ip p) \<noteq> ''8000''"
  shows "nw_pods w' = nw_pods w \<and> (\<forall>x. res = Inr x \<longrightarrow> hs_StatusCode x = 404)"
  using assms(2,3)
  by (auto simp: netDo_def showPort serve_def httpError_def split: if_splits option.splits)

lemma not_plain_unrouted:
  assumes "\<not> plainHost ip" and "p \<in> {''lease'', ''state''}"
  shows "route m (urlPath (podURL ip p)) = RNotFound \<or>
    urlPort (podURL ip p) \<noteq> ''8000''"
proof -
  let ?u = "podURL ip p"
  have "length p + 6 \<le> length (urlPath ?u)" if "urlPort ?u = ''8000''"
  proof (cases "CHR ''/'' \<in> set ip")
    case True
    then obtain a b where ip: "ip = a @ CHR ''/'' # b" and a: "CHR ''/'' \<notin> set a" by (metis split_list_first)
    have "urlPath ?u = CHR ''/'' # b @ '':8000'' @ CHR ''/'' # p"
      using dropWhile_notin [OF a] by (simp add: podURL_def urlPath_def ip)
    then show ?thesis by simp
  next
    case False
    then show ?thesis using url_not_plain [OF assms(1), of p] url_parts(2) [OF False, of p] that by simp
  qed
  then show ?thesis using assms(2) route_long [of "urlPath ?u" m] by auto
qed

lemma netClient_call:
  "hcClient (netClient valid) = netDo"
  by (simp add: hcClient_def netClient_def)

lemma newRequest_app:
  "newRequest (netClient valid) m url b w =
   (if valid url then (Inr \<lparr> hq_Method = m, hq_URL = url, hq_Body = b \<rparr>, w) else (Inl (Errorf ''build request''), w))"
  by (simp add: newRequest_def netClient_def)

lemma state_names: "PcStateActivating = StateActivating" "PcStateHot = StateHot" "PcStateWarm = StateWarm"
  by (simp_all add: pc_state_defs state_defs)

lemma url_lease: "baseURL (netClient valid) ip @ ''/lease'' = podURL ip ''lease''"
  and url_state: "baseURL (netClient valid) ip @ ''/state'' = podURL ip ''state''"
  by (rule baseURL_path)+

lemma handleActivate_error:
  "Activate req (cfg_NodeName (sv_cfg s)) now (sv_machine s) = (Inl e, m) \<Longrightarrow> s\<lparr>sv_machine := m\<rparr> = s"
  by (drule Activate_error) simp

lemma serve_lease:
  "serve env ''/lease'' \<lparr> hq_Method = ''POST'', hq_URL = u, hq_Body = b \<rparr> now s =
     apfst Some (handleActivate \<lparr> hq_Method = ''POST'', hq_URL = u, hq_Body = b \<rparr> now s)"
  "serve env ''/lease'' \<lparr> hq_Method = ''DELETE'', hq_URL = u, hq_Body = b \<rparr> now s =
     apfst Some (handleRelease \<lparr> hq_Method = ''DELETE'', hq_URL = u, hq_Body = b \<rparr> now s)"
  "serve env ''/state'' \<lparr> hq_Method = ''GET'', hq_URL = u, hq_Body = b \<rparr> now s =
     apfst Some (handleState \<lparr> hq_Method = ''GET'', hq_URL = u, hq_Body = b \<rparr> now s)"
  by (simp_all add: serve_def route_def)

text \<open>
  An activation over the network: an error changes no pod unless the answer was lost, success is the
  machine's.
\<close>

lemma hcActivate_net:
  assumes "hcActivate (netClient valid) ip req w = (res, w')"
  shows "(\<exists>e. res = Inl e) \<and> nw_pods w' = nw_pods w \<or>
    (\<exists>s a m. (res = Inr () \<or> ip \<in> set (nw_lost w) \<and> (\<exists>e. res = Inl e)) \<and> nw_pods w ip = Some s \<and>
       Activate req (cfg_NodeName (sv_cfg s)) (nw_now w) (sv_machine s) = (Inr a, m) \<and>
       nw_pods w' = (nw_pods w)(ip \<mapsto> finish (nw_now w) a m s))"
proof (cases "plainHost ip")
  case True
  show ?thesis
  proof (cases "nw_pods w ip")
    case (Some s)
    then show ?thesis
      using assms True handleActivate_error [of req s "nw_now w"]
      by (auto simp: hcActivate_def bnd_app mapErr_app newRequest_app netClient_call url_lease netDo_plain serve_lease
          handleActivate_def httpError_def status_code_defs Let_def fun_upd_idem split: if_splits prod.splits sum.splits)
  qed (use assms True in \<open>auto simp: hcActivate_def bnd_app mapErr_app newRequest_app netClient_call url_lease
        netDo_plain split: if_splits\<close>)
next
  case False
  obtain res1 w1 where d: "netDo \<lparr> hq_Method = ''POST'', hq_URL = podURL ip ''lease'', hq_Body = JsonActivate req \<rparr> w = (res1, w1)"
    by fastforce
  have "nw_pods w1 = nw_pods w \<and> (\<forall>x. res1 = Inr x \<longrightarrow> hs_StatusCode x = 404)"
    using netDo_not_plain [OF False d] not_plain_unrouted [OF False] by blast
  then show ?thesis
    using assms d by (auto simp: hcActivate_def bnd_app mapErr_app newRequest_app netClient_call url_lease
        status_code_defs split: if_splits sum.splits)
qed

lemma hcRelease_net:
  assumes "hcRelease (netClient valid) ip w = (res, w')"
  shows "(\<exists>e. res = Inl e) \<and> nw_pods w' = nw_pods w \<or>
    (\<exists>s a m. (res = Inr () \<or> ip \<in> set (nw_lost w) \<and> (\<exists>e. res = Inl e)) \<and> nw_pods w ip = Some s \<and> Release (sv_machine s) = (a, m) \<and>
       nw_pods w' = (nw_pods w)(ip \<mapsto> finish (nw_now w) a m s))"
proof (cases "plainHost ip")
  case True
  then show ?thesis
    using assms
    by (cases "nw_pods w ip") (auto simp: hcRelease_def bnd_app mapErr_app newRequest_app netClient_call url_lease
        netDo_plain serve_lease handleRelease_def status_code_defs split: if_splits prod.splits)
next
  case False
  obtain res1 w1 where d: "netDo \<lparr> hq_Method = ''DELETE'', hq_URL = podURL ip ''lease'', hq_Body = NoBody \<rparr> w = (res1, w1)"
    by fastforce
  have "nw_pods w1 = nw_pods w \<and> (\<forall>x. res1 = Inr x \<longrightarrow> hs_StatusCode x = 404)"
    using netDo_not_plain [OF False d] not_plain_unrouted [OF False] by blast
  then show ?thesis
    using assms d by (auto simp: hcRelease_def bnd_app mapErr_app newRequest_app netClient_call url_lease
        split: if_splits sum.splits)
qed

lemma hcState_net:
  assumes "hcState (netClient valid) ip w = (res, w')"
  shows "nw_pods w' = nw_pods w \<and>
    (\<forall>x. res = Inr x \<longrightarrow> (\<exists>s. nw_pods w ip = Some s \<and> sr_State x = mc_state (sv_machine s) \<and>
       sr_LeaseName x = mc_leaseName (sv_machine s)))"
proof (cases "plainHost ip")
  case True
  then show ?thesis
    using assms
    by (cases "nw_pods w ip") (auto simp: hcState_def bnd_app mapErr_app newRequest_app netClient_call url_state
        netDo_plain serve_lease handleState_def snapshotLocked_def fun_upd_idem split: if_splits prod.splits)
next
  case False
  obtain res1 w1 where d: "netDo \<lparr> hq_Method = ''GET'', hq_URL = podURL ip ''state'', hq_Body = NoBody \<rparr> w = (res1, w1)"
    by fastforce
  have "nw_pods w1 = nw_pods w \<and> (\<forall>x. res1 = Inr x \<longrightarrow> hs_StatusCode x = 404)"
    using netDo_not_plain [OF False d] not_plain_unrouted [OF False] by blast
  then show ?thesis
    using assms d by (auto simp: hcState_def bnd_app mapErr_app newRequest_app netClient_call url_state
        status_code_defs split: if_splits sum.splits)
qed

lemma netLifecycle_same: "nw_pods w' = nw_pods w \<Longrightarrow> netLifecycle w' = netLifecycle w"
  by (simp add: netLifecycle_def fun_eq_iff)

interpretation http: lease_endpoint "httpPodClient (netClient valid)" netLifecycle for valid
proof
  fix ip ip' req and w w' :: "'a Net" and e res s rs
  show "netLifecycle w' ip \<in> {PcStateActivating, PcStateHot}"
    if "cl_Activate (httpPodClient (netClient valid)) ip req w = (Inr (), w')"
    using hcActivate_net [of valid ip req w "Inr ()" w'] that
    by (auto simp: httpPodClient_def netLifecycle_def state_names dest: Activate_commits)
  show "netLifecycle w' ip = netLifecycle w ip \<or> netLifecycle w' ip \<in> {PcStateActivating, PcStateHot}"
    if "cl_Activate (httpPodClient (netClient valid)) ip req w = (Inl e, w')"
    using hcActivate_net [of valid ip req w "Inl e" w'] that
    by (auto simp: httpPodClient_def netLifecycle_def state_names dest: Activate_commits)
  show "netLifecycle w' ip' = netLifecycle w ip'"
    if "cl_Activate (httpPodClient (netClient valid)) ip req w = (res, w')" and "ip' \<noteq> ip"
    using hcActivate_net [of valid ip req w res w'] that
    by (auto simp: httpPodClient_def netLifecycle_def)
  show "netLifecycle w' ip \<notin> {PcStateActivating, PcStateHot}"
    if "cl_Release (httpPodClient (netClient valid)) ip w = (Inr (), w')"
    using hcRelease_net [of valid ip w "Inr ()" w'] that
    by (auto simp: httpPodClient_def netLifecycle_def state_names dest: Release_lets_go)
  show "netLifecycle w' ip = netLifecycle w ip \<or> netLifecycle w' ip \<notin> {PcStateActivating, PcStateHot}"
    if "cl_Release (httpPodClient (netClient valid)) ip w = (Inl e, w')"
    using hcRelease_net [of valid ip w "Inl e" w'] that
    by (auto simp: httpPodClient_def netLifecycle_def state_names dest: Release_lets_go)
  show "netLifecycle w' ip' = netLifecycle w ip'"
    if "cl_Release (httpPodClient (netClient valid)) ip w = (res, w')" and "ip' \<noteq> ip"
    using hcRelease_net [of valid ip w res w'] that
    by (auto simp: httpPodClient_def netLifecycle_def)
  show "sr_State s = netLifecycle w ip"
    if "cl_State (httpPodClient (netClient valid)) ip w = (Inr s, w')"
    using hcState_net [of valid ip w "Inr s" w'] that
    by (auto simp: httpPodClient_def netLifecycle_def)
  show "netLifecycle w' = netLifecycle w"
    if "cl_State (httpPodClient (netClient valid)) ip w = (rs, w')"
    using hcState_net [of valid ip w rs w'] that
    by (auto simp: httpPodClient_def intro: netLifecycle_same)
qed

section \<open>Properties\<close>

lemma fireAll_append: "fireAll now (ts @ us) s = fireAll now us (fireAll now ts s)"
  by (induction ts arbitrary: s) simp_all

text \<open>
  C17: the controller's HTTP client and the pod's server together keep the contract of the pod
  client. After a release call that returned without error the pod does not report hot; after
  an accepted activation it reports activating or hot, and for the requested lease. A call that
  returned an error left every pod as it was, or the pod acted on it and only the answer was lost:
  then the pod is committed to the requested lease, or has let go of its lease, as after a call that
  succeeded. No call touches any other pod.
\<close>

theorem http_contract:
  "(hcRelease (netClient valid) ip w = (Inr (), w') \<longrightarrow> hcState (netClient valid) ip w' = (Inr s, w'') \<longrightarrow>
      sr_State s \<notin> {PcStateActivating, PcStateHot}) \<and>
   (hcActivate (netClient valid) ip req w = (Inr (), w') \<longrightarrow> hcState (netClient valid) ip w' = (Inr s, w'') \<longrightarrow>
      sr_State s \<in> {PcStateActivating, PcStateHot} \<and> sr_LeaseName s = ar_LeaseName req) \<and>
   (hcActivate (netClient valid) ip req w = (Inl e, w') \<longrightarrow>
      nw_pods w' = nw_pods w \<or>
      ip \<in> set (nw_lost w) \<and> netLifecycle w' ip \<in> {PcStateActivating, PcStateHot} \<and>
        map_option (mc_leaseName \<circ> sv_machine) (nw_pods w' ip) = Some (ar_LeaseName req)) \<and>
   (hcRelease (netClient valid) ip w = (Inl e, w') \<longrightarrow>
      nw_pods w' = nw_pods w \<or>
      ip \<in> set (nw_lost w) \<and> netLifecycle w' ip \<notin> {PcStateActivating, PcStateHot}) \<and>
   (hcActivate (netClient valid) ip req w = (res, w') \<or> hcRelease (netClient valid) ip w = (res, w') \<longrightarrow>
      ip' \<noteq> ip \<longrightarrow> nw_pods w' ip' = nw_pods w ip')"
proof (intro conjI impI)
  let ?C = "httpPodClient (netClient valid)"
  have sel [simp]: "cl_Activate ?C = hcActivate (netClient valid)" "cl_Release ?C = hcRelease (netClient valid)"
    "cl_State ?C = hcState (netClient valid)"
    by (simp_all add: httpPodClient_def)
  show "sr_State s \<notin> {PcStateActivating, PcStateHot}"
    if "hcRelease (netClient valid) ip w = (Inr (), w')" "hcState (netClient valid) ip w' = (Inr s, w'')"
    using http.release_ok [of valid ip w w'] http.state_reports [of valid ip w' s w''] that by simp
  show "sr_State s \<in> {PcStateActivating, PcStateHot}"
    if "hcActivate (netClient valid) ip req w = (Inr (), w')" "hcState (netClient valid) ip w' = (Inr s, w'')"
    using http.activate_ok [of valid ip req w w'] http.state_reports [of valid ip w' s w''] that by simp
  show "sr_LeaseName s = ar_LeaseName req"
    if "hcActivate (netClient valid) ip req w = (Inr (), w')" "hcState (netClient valid) ip w' = (Inr s, w'')"
    using hcActivate_net [OF that(1)] hcState_net [OF that(2)] by auto (metis Activate_commits)
  show "nw_pods w' = nw_pods w \<or> ip \<in> set (nw_lost w) \<and> netLifecycle w' ip \<in> {PcStateActivating, PcStateHot} \<and>
      map_option (mc_leaseName \<circ> sv_machine) (nw_pods w' ip) = Some (ar_LeaseName req)"
    if "hcActivate (netClient valid) ip req w = (Inl e, w')"
    using hcActivate_net [OF that] by (auto simp: netLifecycle_def state_names dest: Activate_commits)
  show "nw_pods w' = nw_pods w \<or> ip \<in> set (nw_lost w) \<and> netLifecycle w' ip \<notin> {PcStateActivating, PcStateHot}"
    if "hcRelease (netClient valid) ip w = (Inl e, w')"
    using hcRelease_net [OF that] by (auto simp: netLifecycle_def state_names dest: Release_lets_go)
  show "nw_pods w' ip' = nw_pods w ip'"
    if "hcActivate (netClient valid) ip req w = (res, w') \<or> hcRelease (netClient valid) ip w = (res, w')" "ip' \<noteq> ip"
    using that hcActivate_net [of valid ip req w res w'] hcRelease_net [of valid ip w res w'] by auto
qed

section \<open>Timers of earlier leases\<close>

text \<open>
  What can happen to a pod's machine: an activation request, a release request, and the timers due at
  some instant. \<open>serverAfter\<close> is the server after any sequence of them, in which the timers of
  cancelled activations are still armed.
\<close>

datatype LeaseOp = OpActivate HttpRequest gotime | OpRelease HttpRequest gotime | OpTimers gotime

fun serverOp :: "LeaseOp \<Rightarrow> 'f Server \<Rightarrow> 'f Server" where
  "serverOp (OpActivate r now) s = snd (handleActivate r now s)"
| "serverOp (OpRelease r now) s = snd (handleRelease r now s)"
| "serverOp (OpTimers now) s = fireDue now s"

definition serverAfter :: "Config \<Rightarrow> bool \<Rightarrow> LeaseOp list \<Rightarrow> ('f::zero) Server" where
  "serverAfter cfg hasClient ops = fold serverOp ops (NewServer cfg hasClient)"

text \<open>After \<open>k\<close> operations the generation is at most \<open>k\<close> and no armed timer is from the future.\<close>

definition timers_past :: "Config \<Rightarrow> nat \<Rightarrow> 'f Server \<Rightarrow> bool" where
  "timers_past cfg k s \<longleftrightarrow>
     sv_cfg s = cfg \<and>
     mc_warmup (sv_machine s) = (if cfg_WarmupDuration cfg \<le> 0 then DefaultWarmupDuration else cfg_WarmupDuration cfg) \<and>
     unat (mc_gen (sv_machine s)) \<le> k \<and>
     (\<forall>(due, x) \<in> set (sv_timers s). unat (timerGen x) \<le> unat (mc_gen (sv_machine s)))"

lemma unat_gen_bump:
  fixes g :: "64 word"
  assumes "Suc (unat g) < 2 ^ 64"
  shows "unat (g + 1) = Suc (unat g)"
  using unat_of_nat64 [OF assms] by (simp add: add.commute)

lemma finish_timers:
  "sv_timers (finish now a m s) =
   sv_timers s @ (case a of Some (ev, Some (d, x)) \<Rightarrow> [(now + d, x)] | _ \<Rightarrow> [])"
  by (auto simp: finish_def onTransition_def Let_def split: option.splits prod.splits)

text \<open>A critical section keeps the warm-up time, and arms a timer of the generation it leaves.\<close>

definition gen_advance :: "Machine \<Rightarrow> afterUnlock option \<Rightarrow> Machine \<Rightarrow> bool" where
  "gen_advance m a m' \<longleftrightarrow>
     mc_warmup m' = mc_warmup m \<and> (mc_gen m' = mc_gen m \<or> mc_gen m' = mc_gen m + 1) \<and>
     (\<forall>ev d x. a = Some (ev, Some (d, x)) \<longrightarrow> timerGen x = mc_gen m')"

lemma Activate_advance: "Activate req own now m = (Inr a, m') \<Longrightarrow> gen_advance m a m'"
  by (auto simp: gen_advance_def machine_defs split: if_splits)

lemma Release_advance: "Release m = (a, m') \<Longrightarrow> gen_advance m a m'"
  by (auto simp: gen_advance_def machine_defs split: if_splits)

lemma timers_past_finish:
  assumes "timers_past cfg k s" and "gen_advance (sv_machine s) a m" and "Suc k < 2 ^ 64"
  shows "timers_past cfg (Suc k) (finish now a m s)"
proof -
  let ?g = "mc_gen (sv_machine s)"
  have g: "unat (?g + 1) = Suc (unat ?g)"
    using assms(1,3) by (intro unat_gen_bump) (auto simp: timers_past_def)
  have le: "unat ?g \<le> unat (mc_gen m)" "unat (mc_gen m) \<le> Suc k"
    using assms(1,2) g by (auto simp: gen_advance_def timers_past_def)
  have old: "unat (timerGen x) \<le> unat (mc_gen m)" if "(due, x) \<in> set (sv_timers s)" for due x
    using assms(1) that le(1) by (fastforce simp: timers_past_def)
  have new: "timerGen x = mc_gen m" if "a = Some (ev, Some (d, x))" for ev d x
    using assms(2) that by (auto simp: gen_advance_def)
  have "unat (timerGen x) \<le> unat (mc_gen m)" if "(due, x) \<in> set (sv_timers (finish now a m s))" for due x
    using that old new by (auto simp: finish_timers split: option.splits prod.splits)
  with assms(1,2) le(2) show ?thesis
    by (auto simp: timers_past_def gen_advance_def)
qed

lemma timers_past_mono: "timers_past cfg k s \<Longrightarrow> k \<le> k' \<Longrightarrow> timers_past cfg k' s"
  by (auto simp: timers_past_def)

text \<open>A timer keeps the generation and arms no other; one of an earlier generation does nothing.\<close>

lemma fireTimer_keeps:
  "mc_gen (snd (fireTimer x now m)) = mc_gen m \<and> mc_warmup (snd (fireTimer x now m)) = mc_warmup m"
  by (cases x) (auto simp: machine_defs)

lemma fireTimer_no_arm: "fst (fireTimer x now m) = Some (ev, arm) \<Longrightarrow> arm = None"
  by (cases x) (auto simp: machine_defs split: if_splits)

lemma fireTimer_stale: "timerGen x \<noteq> mc_gen m \<Longrightarrow> fireTimer x now m = (None, m)"
  by (cases x) (auto simp: machine_defs)

lemma fireAll_keeps:
  "sv_timers (fireAll now ts s) = sv_timers s \<and> sv_cfg (fireAll now ts s) = sv_cfg s \<and>
   mc_gen (sv_machine (fireAll now ts s)) = mc_gen (sv_machine s) \<and>
   mc_warmup (sv_machine (fireAll now ts s)) = mc_warmup (sv_machine s)"
proof (induction ts arbitrary: s)
  case (Cons x ts)
  obtain a m where f: "fireTimer x now (sv_machine s) = (a, m)" by fastforce
  have "sv_timers (finish now a m s) = sv_timers s"
    using fireTimer_no_arm [of x now "sv_machine s"] f by (auto simp: finish_timers split: option.splits)
  with Cons [of "finish now a m s"] f fireTimer_keeps [of x now "sv_machine s"] show ?case by simp
qed simp

lemma fireAll_stale:
  "\<forall>x \<in> set ts. timerGen x \<noteq> mc_gen (sv_machine s) \<Longrightarrow> fireAll now ts s = s"
  by (induction ts) (auto simp: fireTimer_stale finish_def)

lemma timers_past_fireDue: "timers_past cfg k s \<Longrightarrow> timers_past cfg k (fireDue now s)"
  by (auto simp: timers_past_def fireDue_def fireAll_keeps)

lemma timers_past_op:
  assumes "timers_past cfg k s" and "Suc k < 2 ^ 64"
  shows "timers_past cfg (Suc k) (serverOp op s)"
proof (cases op)
  case (OpActivate r now)
  show ?thesis
  proof (cases "\<exists>req a m. decodeActivate (hq_Body r) = Some req \<and>
      Activate req (cfg_NodeName (sv_cfg s)) now (sv_machine s) = (Inr a, m)")
    case True
    then show ?thesis
      using OpActivate timers_past_finish [OF assms(1) Activate_advance assms(2)]
      by (auto simp: handleActivate_def)
  next
    case False
    then have "serverOp op s = s"
      using OpActivate handleActivate_error [of _ s now]
      by (auto simp: handleActivate_def Let_def split: option.splits prod.splits sum.splits)
    then show ?thesis using timers_past_mono [OF assms(1), of "Suc k"] by simp
  qed
next
  case (OpRelease r now)
  then show ?thesis
    using timers_past_finish [OF assms(1) Release_advance assms(2)]
    by (auto simp: handleRelease_def split: prod.splits)
next
  case (OpTimers now)
  then show ?thesis using timers_past_mono [OF timers_past_fireDue [OF assms(1)], of "Suc k"] by simp
qed

lemma timers_past_ops:
  "timers_past cfg k s \<Longrightarrow> k + length ops < 2 ^ 64 \<Longrightarrow> timers_past cfg (k + length ops) (fold serverOp ops s)"
proof (induction ops arbitrary: k s)
  case (Cons op ops)
  then show ?case using Cons.IH [OF timers_past_op, of k s op] by simp
qed simp

lemma serverAfter_timers_past: "length ops < 2 ^ 64 \<Longrightarrow> timers_past cfg (length ops) (serverAfter cfg c ops)"
proof -
  have "timers_past cfg 0 (NewServer cfg c)"
    by (simp add: timers_past_def NewServer_def NewMachine_def)
  moreover assume "length ops < 2 ^ 64"
  ultimately show ?thesis
    using timers_past_ops [of cfg 0 "NewServer cfg c" ops] by (simp add: serverAfter_def)
qed

text \<open>
  A server activating at generation \<open>g\<close> that has its own warm-up timer, due at \<open>d\<close>, as the last
  armed one and otherwise timers of other generations.
\<close>

definition warming :: "gotime \<Rightarrow> Machine \<Rightarrow> 'f Server \<Rightarrow> bool" where
  "warming d m s \<longleftrightarrow> sv_machine s = m \<and> mc_state m = StateActivating \<and>
     (\<exists>ts. sv_timers s = ts @ [(d, WarmupTimer (mc_gen m))] \<and> (\<forall>(due, x) \<in> set ts. timerGen x \<noteq> mc_gen m))"

lemma warming_stale:
  assumes "\<forall>(due, x) \<in> set ts. timerGen x \<noteq> mc_gen (sv_machine s)"
  shows "fireAll now (map snd (filter P ts)) s = s"
  by (rule fireAll_stale) (use assms in auto)

lemma warming_early:
  assumes "warming d m s" and "t < d"
  shows "warming d m (fireDue t s) \<and> sv_cfg (fireDue t s) = sv_cfg s"
proof -
  from assms(1) obtain ts where ts: "sv_timers s = ts @ [(d, WarmupTimer (mc_gen m))]"
    "\<forall>(due, x) \<in> set ts. timerGen x \<noteq> mc_gen (sv_machine s)" "sv_machine s = m"
    by (auto simp: warming_def)
  have "fireDue t s = s\<lparr>sv_timers := filter (\<lambda>(due, x). \<not> due \<le> t) ts @ [(d, WarmupTimer (mc_gen m))]\<rparr>"
    unfolding fireDue_def using assms(2) ts(1) warming_stale [of ts "s\<lparr>sv_timers := _\<rparr>"] ts(2) by simp
  then show ?thesis using assms(1) ts by (auto simp: warming_def)
qed

lemma warming_early_run:
  "warming d m s \<Longrightarrow> \<forall>u \<in> set us. u < d \<Longrightarrow> warming d m (fold fireDue us s) \<and> sv_cfg (fold fireDue us s) = sv_cfg s"
proof (induction us arbitrary: s)
  case (Cons u us)
  then show ?case using warming_early [of d m s u] Cons.IH [of "fireDue u s"] by simp
qed simp

lemma warming_due:
  assumes "warming d m s" and "d \<le> t"
  shows "IsHot (sv_machine (fireDue t s)) \<and> mc_gpuID (sv_machine (fireDue t s)) = mc_gpuID m \<and>
    mc_leaseName (sv_machine (fireDue t s)) = mc_leaseName m \<and>
    gauges_agree (cfg_PodCapacityRPS (sv_cfg s)) (sv_machine (fireDue t s)) (sv_metrics (fireDue t s))"
proof -
  from assms(1) obtain ts where ts: "sv_timers s = ts @ [(d, WarmupTimer (mc_gen m))]"
    "\<forall>(due, x) \<in> set ts. timerGen x \<noteq> mc_gen (sv_machine s)" "sv_machine s = m" "mc_state m = StateActivating"
    by (auto simp: warming_def)
  let ?h = "m\<lparr>mc_state := StateHot\<rparr>" and ?s = "s\<lparr>sv_timers := filter (\<lambda>(due, x). \<not> due \<le> t) ts\<rparr>"
  let ?ev = "\<lparr> ev_Old = StateActivating, ev_New = StateHot, ev_Snapshot = snapshotLocked ?h,
    ev_ActivationDuration = time_sub t (mc_activationStart m) \<rparr>"
  have f: "fireTimer (WarmupTimer (mc_gen m)) t m = (Some (?ev, None), ?h)"
    using ts(4) by (simp add: completeWarmup_def Let_def)
  have "fireDue t s = fireAll t [WarmupTimer (mc_gen m)] ?s"
    unfolding fireDue_def using assms(2) ts(1,2) warming_stale [of ts ?s] by (simp add: fireAll_append)
  then have "fireDue t s = finish t (Some (?ev, None)) ?h ?s" using f ts(3) by simp
  moreover have "gauges_agree cap ?h (ApplyEvent ?ev cap g)" for cap and g :: "'a Metrics"
    by (rule ApplyEvent_agree) simp_all
  ultimately show ?thesis by (simp add: finish_def onTransition_def Let_def IsHot_def)
qed

lemma activation_warming:
  assumes past: "timers_past cfg k s" and bound: "Suc k < 2 ^ 64" and warm: "mc_state (sv_machine s) = StateWarm"
    and dec: "decodeActivate (hq_Body r) = Some req" and node: "ar_Node req = cfg_NodeName cfg"
    and h: "handleActivate r now s = (resp, s')"
  shows "hs_StatusCode resp = StatusAccepted \<and> sv_cfg s' = cfg \<and> mc_gpuID (sv_machine s') = ar_GPUID req \<and>
    mc_leaseName (sv_machine s') = ar_LeaseName req \<and>
    warming (now + mc_warmup (sv_machine s)) (sv_machine s') s'"
proof -
  have u: "unat (mc_gen (sv_machine s) + 1) = Suc (unat (mc_gen (sv_machine s)))"
    using past bound by (intro unat_gen_bump) (auto simp: timers_past_def)
  have "timerGen x \<noteq> mc_gen (sv_machine s) + 1" if "(due, x) \<in> set (sv_timers s)" for due x
    using past that u by (fastforce simp: timers_past_def)
  then show ?thesis
    using h dec node warm past
    by (auto simp: handleActivate_def Activate_def finish_def onTransition_def Let_def warming_def timers_past_def)
qed

text \<open>
  C19: warming up takes exactly the configured time, whatever the pod went through before. Take any
  server reached from a new one by activations, releases and timers, in which warm-up timers of
  cancelled activations may still be armed. If it is warm and accepts \<open>POST /lease\<close>, it answers 202 and
  is activating until the warm-up duration has passed, whichever of the armed timers fire in between;
  from then on it is hot with the requested GPU and lease, and its gauges say so. No other lease
  request is served in between, and fewer than \<open>2 ^ 64\<close> operations came before.
\<close>

theorem warmup_on_time:
  assumes "s = serverAfter cfg c ops" and "Suc (length ops) < 2 ^ 64"
    and "mc_state (sv_machine s) = StateWarm"
    and "decodeActivate (hq_Body r) = Some req" and "ar_Node req = cfg_NodeName cfg"
    and "handleActivate r now s = (resp, s')"
    and "d = now + (if cfg_WarmupDuration cfg \<le> 0 then DefaultWarmupDuration else cfg_WarmupDuration cfg)"
    and "\<forall>u \<in> set us. u < d" and "s'' = fold fireDue us s'"
  shows "hs_StatusCode resp = StatusAccepted \<and>
    (t < d \<longrightarrow> mc_state (sv_machine (fireDue t s'')) = StateActivating) \<and>
    (d \<le> t \<longrightarrow>
       IsHot (sv_machine (fireDue t s'')) \<and> mc_gpuID (sv_machine (fireDue t s'')) = ar_GPUID req \<and>
       mc_leaseName (sv_machine (fireDue t s'')) = ar_LeaseName req \<and>
       gauges_agree (cfg_PodCapacityRPS cfg) (sv_machine (fireDue t s'')) (sv_metrics (fireDue t s'')))"
proof -
  have past: "timers_past cfg (length ops) s" using assms(1,2) serverAfter_timers_past [of ops cfg c] by simp
  have d: "d = now + mc_warmup (sv_machine s)" using past assms(7) by (simp add: timers_past_def)
  note act = activation_warming [OF past assms(2-6)]
  then have w: "warming d (sv_machine s') s''" "sv_cfg s'' = cfg"
    using warming_early_run [OF _ assms(8), of "sv_machine s'" s'] d assms(9) by auto
  have "mc_state (sv_machine (fireDue t s'')) = StateActivating" if "t < d"
    using warming_early [OF w(1) that] by (auto simp: warming_def)
  with act warming_due [OF w(1), of t] w(2) show ?thesis by auto
qed

text \<open>
  Only hot pods serve, and every pod is always healthy: unless the caller goes away, \<open>POST /infer\<close>
  answers 200 exactly when the pod was hot as the request came in and 503 otherwise, counting the
  request under that code, while \<open>GET /healthz\<close> and \<open>GET /readyz\<close> answer 200 in every state.
\<close>

lemma infer_only_when_hot:
  assumes "se_Gone env = None"
  shows "(case serve env ''/infer'' \<lparr> hq_Method = ''POST'', hq_URL = u, hq_Body = b \<rparr> now s of
      (resp, s') \<Rightarrow> \<exists>x s1. resp = Some x \<and>
        s1 = (if IsHot (sv_machine s) then se_Meanwhile env (simulatedInferLatencyBase + se_IntN env * Millisecond) s else s) \<and>
        hs_StatusCode x = (if IsHot (sv_machine s) then StatusOK else StatusServiceUnavailable) \<and>
        pm_requestsTotal (sv_metrics s') (showInt (hs_StatusCode x)) =
          pm_requestsTotal (sv_metrics s1) (showInt (hs_StatusCode x)) + 1 \<and>
        sv_machine s' = sv_machine s1) \<and>
   (\<exists>x. serve env ''/healthz'' \<lparr> hq_Method = ''GET'', hq_URL = u, hq_Body = b \<rparr> now s = (Some x, s) \<and>
      hs_StatusCode x = StatusOK \<and>
      serve env ''/readyz'' \<lparr> hq_Method = ''GET'', hq_URL = u, hq_Body = b \<rparr> now s = (Some x, s))"
  using assms by (simp add: serve_def route_def handleInfer_def handleHealthz_def httpError_def ObserveRequest_def Let_def)

text \<open>
  A request that found the pod hot is answered 200 even if the lease was released while it slept:
  the pod may by then be warm.
\<close>

lemma infer_outlives_lease:
  assumes "IsHot (sv_machine s)" and "se_Gone env = None"
    and "\<not> IsHot (sv_machine (se_Meanwhile env (simulatedInferLatencyBase + se_IntN env * Millisecond) s))"
  shows "\<exists>x s'. handleInfer env r now s = (Some x, s') \<and> hs_StatusCode x = StatusOK \<and> \<not> IsHot (sv_machine s')"
  using assms by (simp add: handleInfer_def Let_def)

text \<open>
  A pod that is still tearing down is told apart by nobody: asked to activate a lease for its
  own node, it answers with the lease conflict its comment expects the caller to retry, but the
  client reports the node-mismatch error, exactly as for a lease of another node.
\<close>

lemma busy_pod_reports_node_mismatch:
  assumes "plainHost ip" and "valid (podURL ip ''lease'')" and "ip \<notin> set (nw_down w)" and "ip \<notin> set (nw_lost w)"
    and "nw_pods w ip = Some s" and "mc_state (sv_machine s) = StateReleasing" and "ar_Node req = cfg_NodeName (sv_cfg s)"
  shows "fst (Activate req (cfg_NodeName (sv_cfg s)) (nw_now w) (sv_machine s)) = Inl ErrLeaseConflict \<and>
    hcActivate (netClient valid) ip req w = (Inl ErrPodNodeMismatch, w)"
proof -
  have "Activate req (cfg_NodeName (sv_cfg s)) (nw_now w) (sv_machine s) = (Inl ErrLeaseConflict, sv_machine s)"
    using assms(6,7) by (simp add: Activate_def)
  moreover have "s\<lparr>sv_machine := sv_machine s\<rparr> = s" by simp
  ultimately show ?thesis
    using assms by (simp add: hcActivate_def bnd_app mapErr_app newRequest_app netClient_call url_lease netDo_plain
        serve_lease handleActivate_def httpError_def status_code_defs fun_upd_idem)
qed

section \<open>Witnesses\<close>

definition exampleServerConfig :: Config where
  "exampleServerConfig = \<lparr> cfg_NodeName = ''n1'', cfg_PodName = ''pod-0'', cfg_PodNamespace = ''ns'',
     cfg_DeploymentName = ''app'', cfg_PodCapacityRPS = 10, cfg_WarmupDuration = 0, cfg_TeardownDuration = 0,
     cfg_DemandConfigMapName = '''' \<rparr>"

definition exampleNet :: "int Net" where
  "exampleNet = \<lparr> nw_now = 0, nw_pods = [''10'' \<mapsto> NewServer exampleServerConfig False], nw_down = [], nw_lost = [],
     nw_env = \<lparr> se_Gone = None, se_IntN = 0, se_Meanwhile = (\<lambda>d s. s), se_PromHTTP = (\<lambda>m. Lit '''') \<rparr> \<rparr>"

definition activationRequest :: HttpRequest where
  "activationRequest = \<lparr> hq_Method = ''POST'', hq_URL = '''', hq_Body = JsonActivate exampleRequest \<rparr>"

lemma exampleServer_warm:
  "mc_state (sv_machine (NewServer exampleServerConfig False :: int Server)) = StateWarm"
  "mc_warmup (sv_machine (NewServer exampleServerConfig False :: int Server)) = 10000000000"
  by (simp_all add: NewServer_def exampleServerConfig_def NewMachine_def DefaultWarmupDuration_def Second_def)

text \<open>
  A pod activated at 0 s and released at 1 s is warm with a warm-up timer due at 10 s; activated again
  at 5 s, it is still activating when that timer has fired at 10 s, and hot at 15 s.
\<close>

definition releaseRequest :: HttpRequest where
  "releaseRequest = \<lparr> hq_Method = ''DELETE'', hq_URL = '''', hq_Body = NoBody \<rparr>"

definition staleServer :: "int Server" where
  "staleServer = serverAfter exampleServerConfig False [OpActivate activationRequest 0, OpRelease releaseRequest 1000000000]"

lemma staleServer_warm:
  "mc_state (sv_machine staleServer) = StateWarm" "sv_timers staleServer = [(10000000000, WarmupTimer 1)]"
  by (simp_all add: staleServer_def serverAfter_def handleActivate_def handleRelease_def activationRequest_def
      exampleRequest_def exampleServerConfig_def NewServer_def NewMachine_def Activate_def Release_def finish_def
      onTransition_def clearLeaseLocked_def DefaultWarmupDuration_def Second_def Let_def)

theorem warmup_on_time_witness:
  "sv_timers staleServer = [(10000000000, WarmupTimer 1)] \<and>
   mc_state (sv_machine (fireDue 10000000000 (snd (handleActivate activationRequest 5000000000 staleServer)))) =
     StateActivating \<and>
   IsHot (sv_machine (fireDue 15000000000 (fireDue 10000000000
     (snd (handleActivate activationRequest 5000000000 staleServer)))))"
proof -
  obtain resp s' where h: "handleActivate activationRequest 5000000000 staleServer = (resp, s')"
    by fastforce
  have pre: "Suc (length [OpActivate activationRequest 0, OpRelease releaseRequest 1000000000]) < 2 ^ 64"
    "decodeActivate (hq_Body activationRequest) = Some exampleRequest"
    "ar_Node exampleRequest = cfg_NodeName exampleServerConfig"
    "(15000000000 :: gotime) = 5000000000 + (if cfg_WarmupDuration exampleServerConfig \<le> 0 then DefaultWarmupDuration
       else cfg_WarmupDuration exampleServerConfig)"
    by (simp_all add: activationRequest_def exampleRequest_def exampleServerConfig_def DefaultWarmupDuration_def Second_def)
  note at = warmup_on_time [OF staleServer_def pre(1) staleServer_warm(1) pre(2,3) h pre(4)]
  from at [of "[]" s' 10000000000] at [of "[10000000000]" "fireDue 10000000000 s'" 15000000000]
  show ?thesis using h staleServer_warm(2) by simp
qed

definition releasingServer :: "int Server" where
  "releasingServer = (NewServer exampleServerConfig False)\<lparr>sv_machine :=
     (NewMachine exampleConfig)\<lparr>mc_state := StateReleasing, mc_leaseName := ''n1-gpu-1'', mc_node := ''n1'', mc_gpuID := 1\<rparr>\<rparr>"

lemma busy_pod_example:
  "hcActivate (netClient (\<lambda>_. True)) ''10'' exampleRequest (exampleNet\<lparr>nw_pods := [''10'' \<mapsto> releasingServer]\<rparr>) =
   (Inl ErrPodNodeMismatch, exampleNet\<lparr>nw_pods := [''10'' \<mapsto> releasingServer]\<rparr>)"
  using busy_pod_reports_node_mismatch [of "''10''" "\<lambda>_. True" "exampleNet\<lparr>nw_pods := [''10'' \<mapsto> releasingServer]\<rparr>"
      releasingServer exampleRequest]
  by (simp add: plainHost_def exampleNet_def releasingServer_def exampleRequest_def NewServer_def exampleServerConfig_def)

text \<open>
  On the example network a warm pod is activated, and reports that it activates the requested lease;
  when its answers are lost the call fails and the pod is committed to the lease all the same.
\<close>

definition committedServer :: "int Server" where
  "committedServer = snd (handleActivate activationRequest 0 (NewServer exampleServerConfig False))"

lemma committedServer_serves:
  "serve env ''/lease'' \<lparr> hq_Method = ''POST'', hq_URL = u, hq_Body = JsonActivate exampleRequest \<rparr> 0
     (NewServer exampleServerConfig False) =
   (Some \<lparr> hs_StatusCode = StatusAccepted, hs_Body = NoBody \<rparr>, committedServer)"
  by (simp add: serve_lease committedServer_def handleActivate_def activationRequest_def exampleRequest_def
      exampleServerConfig_def NewServer_def NewMachine_def Activate_def Let_def)

lemma example_activation:
  "hcActivate (netClient (\<lambda>_. True)) ''10'' exampleRequest exampleNet =
   (Inr (), exampleNet\<lparr>nw_pods := [''10'' \<mapsto> committedServer]\<rparr>)"
  "hcActivate (netClient (\<lambda>_. True)) ''10'' exampleRequest (exampleNet\<lparr>nw_lost := [''10'']\<rparr>) =
   (Inl (Wrap ''podclient: POST /lease'' (ErrNet ''Client.Timeout exceeded while awaiting headers'')),
    exampleNet\<lparr>nw_lost := [''10''], nw_pods := [''10'' \<mapsto> committedServer]\<rparr>)"
  by (simp_all add: hcActivate_def bnd_app mapErr_app newRequest_app netClient_call url_lease netDo_plain
      plainHost_def exampleNet_def committedServer_serves status_code_defs)

lemma example_state:
  "\<exists>s. hcState (netClient (\<lambda>_. True)) ''10'' (exampleNet\<lparr>nw_pods := [''10'' \<mapsto> committedServer]\<rparr>) =
     (Inr s, exampleNet\<lparr>nw_pods := [''10'' \<mapsto> committedServer]\<rparr>)"
  by (simp add: hcState_def bnd_app mapErr_app newRequest_app netClient_call url_state netDo_plain plainHost_def
      serve_lease handleState_def exampleNet_def status_code_defs Let_def fun_upd_idem)

theorem http_contract_witness:
  "\<exists>w' s w''. hcActivate (netClient (\<lambda>_. True)) ''10'' exampleRequest exampleNet = (Inr (), w') \<and>
     hcState (netClient (\<lambda>_. True)) ''10'' w' = (Inr s, w'') \<and>
     sr_State s \<in> {PcStateActivating, PcStateHot} \<and> sr_LeaseName s = ar_LeaseName exampleRequest"
  using example_activation(1) example_state
    http_contract [of "\<lambda>_. True" "''10''" exampleNet "exampleNet\<lparr>nw_pods := [''10'' \<mapsto> committedServer]\<rparr>" _ _ exampleRequest]
  by metis

end
