(* ===== verification/WorkloadMain.thy ===== *)
theory WorkloadMain
  imports PodServer
begin

text \<open>
  \<open>cmd/workload/main.go\<close>: reading the simulator's configuration from the environment, a function
  from variable names to values (\<open>os.Getenv\<close> of an unset variable is the empty string).
  \<open>float64\<close> arithmetic is a record of the operations used. Log lines are not modelled.
\<close>

record 'f FloatOps =
  fl_Parse :: "string \<Rightarrow> 'f option" \<comment> \<open>\<open>strconv.ParseFloat(s, 64)\<close>\<close>
  fl_NonPositive :: "'f \<Rightarrow> bool" \<comment> \<open>\<open>v <= 0\<close>\<close>
  fl_Seconds :: "'f \<Rightarrow> duration" \<comment> \<open>\<open>time.Duration(v * float64(time.Second))\<close>\<close>

definition envString :: "(string \<Rightarrow> string) \<Rightarrow> string \<Rightarrow> string \<Rightarrow> string" where
  "envString env key def = (if env key \<noteq> '''' then env key else def)"

definition envInt32 :: "(string \<Rightarrow> string) \<Rightarrow> string \<Rightarrow> int32 \<Rightarrow> int32" where
  "envInt32 env key def =
     (if env key = '''' then def
      else case parseInt 32 (env key) of None \<Rightarrow> def | Some v \<Rightarrow> v)"

definition envSeconds :: "'f FloatOps \<Rightarrow> (string \<Rightarrow> string) \<Rightarrow> string \<Rightarrow> duration \<Rightarrow> duration" where
  "envSeconds fl env key def =
     (if env key = '''' then def
      else case fl_Parse fl (env key) of
             None \<Rightarrow> def
           | Some v \<Rightarrow> if fl_NonPositive fl v then def else fl_Seconds fl v)"

definition loadConfig :: "'f FloatOps \<Rightarrow> (string \<Rightarrow> string) \<Rightarrow> goerr + Config" where
  "loadConfig fl env =
     (let nodeName = env ''NODE_NAME''; podNamespace = env ''POD_NAMESPACE'' in
      if nodeName = '''' then Inl (Errorf ''NODE_NAME is required (expected via the downward API, spec.nodeName)'')
      else if podNamespace = ''''
      then Inl (Errorf ''POD_NAMESPACE is required (expected via the downward API, metadata.namespace)'')
      else Inr
        \<lparr> cfg_NodeName = nodeName, cfg_PodName = env ''POD_NAME'', cfg_PodNamespace = podNamespace,
          cfg_DeploymentName = env ''DEPLOYMENT_NAME'',
          cfg_PodCapacityRPS = envInt32 env ''POD_CAPACITY_RPS'' DefaultPodCapacityRPS,
          cfg_WarmupDuration = envSeconds fl env ''WARMUP_SECONDS'' DefaultWarmupDuration,
          cfg_TeardownDuration = envSeconds fl env ''TEARDOWN_SECONDS'' DefaultTeardownDuration,
          cfg_DemandConfigMapName = envString env ''DEMAND_CONFIGMAP'' DefaultDemandConfigMapName \<rparr>)"

text \<open>
  \<open>rest.InClusterConfig\<close> and \<open>kubernetes.NewForConfig\<close> are arguments. Without a client the server
  runs all the same.
\<close>

definition buildK8sClient :: "goerr + 'c \<Rightarrow> ('c \<Rightarrow> goerr + 'k) \<Rightarrow> 'k option" where
  "buildK8sClient inClusterConfig newForConfig =
     (case inClusterConfig of
        Inl err \<Rightarrow> None
      | Inr restCfg \<Rightarrow> (case newForConfig restCfg of Inl err \<Rightarrow> None | Inr client \<Rightarrow> Some client))"

text \<open>The exit code of the process; \<open>stop\<close> is what ends the wait of the server.\<close>

definition workloadMain ::
    "'f FloatOps \<Rightarrow> (string \<Rightarrow> string) \<Rightarrow> goerr + 'c \<Rightarrow> ('c \<Rightarrow> goerr + 'k) \<Rightarrow> (('f::zero) Server \<Rightarrow> ServerEnd) \<Rightarrow> int" where
  "workloadMain fl env inClusterConfig newForConfig stop =
     (case loadConfig fl env of
        Inl err \<Rightarrow> 1
      | Inr cfg \<Rightarrow>
          let srv = NewServer cfg (buildK8sClient inClusterConfig newForConfig \<noteq> None)
          in case snd (ListenAndServe srv (stop srv)) of Some err \<Rightarrow> 1 | None \<Rightarrow> 0)"

section \<open>Properties\<close>

lemma envInt32_range: "in_int32 def \<Longrightarrow> in_int32 (envInt32 env key def)"
  using parseInt_range [of 32 "env key"] by (auto simp: envInt32_def in_int32_def split: option.splits)

text \<open>
  C35: configuration fails fast exactly on the two required variables, and whatever the other
  variables contain, the server built from an accepted configuration is well-formed: it starts
  warm on its own node with positive warm-up and teardown times, a capacity that fits
  \<open>int32\<close>, and a named demand ConfigMap. When the wait of the server ends with a clean shutdown,
  the process exits with 0 exactly if the configuration was accepted, with or without access to
  Kubernetes.
\<close>

theorem loadConfig_fails_fast:
  "(env ''NODE_NAME'' = '''' \<or> env ''POD_NAMESPACE'' = '''' \<longleftrightarrow> (\<exists>e. loadConfig fl env = Inl e)) \<and>
   (\<forall>cfg. loadConfig fl env = Inr cfg \<longrightarrow>
      machine_ok (cfg_NodeName cfg) (sv_machine (NewServer cfg b :: ('f::zero) Server)) \<and>
      cfg_NodeName cfg \<noteq> '''' \<and> in_int32 (cfg_PodCapacityRPS cfg) \<and> cfg_DemandConfigMapName cfg \<noteq> '''') \<and>
   (workloadMain fl env inCluster newClient (\<lambda>_. ContextDone None) = 0 \<longleftrightarrow> (\<exists>cfg. loadConfig fl env = Inr cfg))"
proof -
  have "in_int32 DefaultPodCapacityRPS" by (simp add: in_int32_def DefaultPodCapacityRPS_def)
  then show ?thesis
    by (auto simp: loadConfig_def Let_def NewServer_def NewMachine_ok envInt32_range envString_def
        DefaultDemandConfigMapName_def workloadMain_def ListenAndServe_def)
qed

text \<open>A small arithmetic to run it with: whole seconds.\<close>

definition wholeSeconds :: "int FloatOps" where
  "wholeSeconds = \<lparr> fl_Parse = parseInt 32, fl_NonPositive = (\<lambda>v. v \<le> 0), fl_Seconds = (\<lambda>v. v * Second) \<rparr>"

theorem loadConfig_fails_fast_witness:
  "\<exists>cfg. loadConfig wholeSeconds ((\<lambda>_. '''')(''NODE_NAME'' := ''n1'', ''POD_NAMESPACE'' := ''ns'')) = Inr cfg \<and>
     machine_ok ''n1'' (sv_machine (NewServer cfg True :: int Server)) \<and> cfg_PodCapacityRPS cfg = 10"
proof -
  let ?env = "(\<lambda>_. '''')(''NODE_NAME'' := ''n1'', ''POD_NAMESPACE'' := ''ns'')"
  obtain cfg where cfg: "loadConfig wholeSeconds ?env = Inr cfg" and "cfg_NodeName cfg = ''n1''" "cfg_PodCapacityRPS cfg = 10"
    by (auto simp: loadConfig_def envInt32_def DefaultPodCapacityRPS_def Let_def)
  then show ?thesis
    using loadConfig_fails_fast [of ?env wholeSeconds True] by auto
qed

end
