(* ===== verification/Examples.thy ===== *)
theory Examples
  imports EtcdHealthy WorkloadMain
begin

text \<open>
  A small cluster to run the reconcilers on: one node with two GPUs, one ready pod of one
  managed Deployment, and one lease of GPU 0 whose phase is a parameter.
\<close>

lemma digit_chars [simp]:
  "digitChar 0 = CHR ''0''" "digitChar (Suc 0) = CHR ''1''" "digitChar 2 = CHR ''2''"
  by code_simp+

lemma showInt_digits [simp]: "showInt 0 = ''0''" "showInt 1 = ''1''" "showInt 2 = ''2''"
  by (simp_all add: showInt_def showNat.simps)

lemma parseInt_two [simp]: "parseInt 32 ''2'' = Some 2"
  using parseInt_showInt [of 32 2] by simp

definition exNode :: Node where
  "exNode = \<lparr> n_Name = ''n1'', n_Labels = [NodeLabelGPUCount \<mapsto> ''2'', NodeLabelGPUModel \<mapsto> ''H100''] \<rparr>"

definition exPod :: Pod where
  "exPod = \<lparr> p_Meta = (newMeta ''ns'' ''p0'')\<lparr>om_UID := ''u0'', om_CreationTimestamp := 5,
       om_Labels := [''app'' \<mapsto> ''x'', StateLabelKey \<mapsto> StateHot]\<rparr>,
     p_NodeName = ''n1'', p_Phase = PodRunning, p_Conditions = [\<lparr> pc_Type = PodReady, pc_Status = ConditionTrue \<rparr>],
     p_PodIP = ''10'' \<rparr>"

definition exDeployment :: Deployment where
  "exDeployment = \<lparr> d_Meta = (newMeta ''ns'' ''app'')\<lparr>om_UID := ''d0'',
       om_Annotations := [AnnotationManaged \<mapsto> ''true'']\<rparr>,
     d_Selector = Some \<lparr> lsel_MatchLabels = [(''app'', ''x'')], lsel_MatchExpressions = [] \<rparr> \<rparr>"

definition exLease :: "int32 \<Rightarrow> GPULeasePhase \<Rightarrow> GPULease" where
  "exLease i ph =
     (let l = newLease exDeployment (ParseDeploymentSettings Map.empty ''app'') exPod ''n1'' ''H100'' i
      in l\<lparr>l_Status := (l_Status l)\<lparr>lt_Phase := ph\<rparr>\<rparr>)"

definition exCluster :: "GPULease list \<Rightarrow> Cluster" where
  "exCluster ls = emptyCluster\<lparr>e_cur := map (\<lambda>l. (leaseName l, 1)) ls,
     e_data := map (\<lambda>l. ((leaseName l, 1), l)) ls,
     e_pods := [((''ns'', ''p0''), exPod)], e_deployments := [((''ns'', ''app''), exDeployment)], e_nodes := [exNode],
     e_now := 1000 * Second\<rparr>"

lemma exLease_sel [simp]:
  "leaseName (exLease i ph) = LeaseName ''n1'' i" "leasePhase (exLease i ph) = ph" "leaseNode (exLease i ph) = ''n1''"
  "leaseGPU (exLease i ph) = i" "om_DeletionTimestamp (l_Meta (exLease i ph)) = None"
  "leaseFinalizers (exLease i ph) = [Finalizer]"
  "claimOf (exLease i ph) = \<lparr> ref_Namespace = ''ns'', ref_Name = ''p0'', ref_UID = ''u0'' \<rparr>"
  "deploymentOf (exLease i ph) = \<lparr> ref_Namespace = ''ns'', ref_Name = ''app'', ref_UID = ''d0'' \<rparr>"
  "lt_Conditions (l_Status (exLease i ph)) = []" "om_CreationTimestamp (l_Meta (exLease i ph)) = 0"
  by (simp_all add: exLease_def newLease_def newMeta_def exPod_def exDeployment_def emptyStatus_def Let_def)

lemma LeaseName_examples [simp]: "LeaseName ''n1'' 0 = ''n1-gpu-0''" "LeaseName ''n1'' 1 = ''n1-gpu-1''"
  by (simp_all add: LeaseName_def)

text \<open>The lease as the store hands it out: with its version.\<close>

lemma stamp_exLease: "stamp (LeaseName ''n1'' i) 1 (exLease i ph) = setVersion 1 (exLease i ph)"
  by (rule stamp_setVersion) simp

lemma exCluster_leases:
  "eLeases (exCluster [exLease 0 ph]) = [''n1-gpu-0'' \<mapsto> setVersion 1 (exLease 0 ph)]"
  using stamp_exLease [of 0 ph] by (auto simp: eLeases_def eHist_def exCluster_def fun_eq_iff)

lemma exCluster_two:
  "eLeases (exCluster [exLease 0 ph, exLease 1 qh]) =
     [''n1-gpu-0'' \<mapsto> setVersion 1 (exLease 0 ph), ''n1-gpu-1'' \<mapsto> setVersion 1 (exLease 1 qh)]"
  using stamp_exLease [of 0 ph] stamp_exLease [of 1 qh] by (auto simp: eLeases_def eHist_def exCluster_def fun_eq_iff)

lemma exCluster_healthy [simp]: "eHealthy (exCluster ls)"
  by (simp add: eHealthy_def exCluster_def emptyCluster_def podKey_def exPod_def newMeta_def)

lemma exCluster_view:
  "v_leases (eView (exCluster ls)) = eLeases (exCluster ls)"
  "v_pods (eView (exCluster ls)) = [(''ns'', ''p0'') \<mapsto> exPod]"
  "v_workloads (eView (exCluster ls)) = Map.empty"
  "v_life (eView (exCluster ls)) ip = PcStateWarm"
  by (simp_all add: eView_def exCluster_def emptyCluster_def fkStateOf_def NewFakeClient_def)

lemma exPod_sel [simp]: "p_PodIP exPod = ''10''" "p_NodeName exPod = ''n1''"
  by (simp_all add: exPod_def)

lemma exPod_valid: "claimValid (Some exPod) (setVersion v (exLease i ph)) None"
  by (simp add: claimValid_def isPodReady_def setVersion_def) (simp add: exPod_def newMeta_def)

lemma exPod_claims: "claims (setVersion v (exLease i ph)) exPod"
  by (simp add: claims_def setVersion_def) (simp add: exPod_def newMeta_def)

lemma exCluster_invariant: "lease_inv (eLeases (exCluster [exLease 0 PhasePending]))"
  by (simp add: exCluster_leases lease_inv_def lease_ok_def wellNamed_def setVersion_def)

lemma list_exCluster: "listLeases eClient (exCluster [exLease 0 ph]) = Inr [setVersion 1 (exLease 0 ph)]"
  by (simp add: eClient_def eListLeases_def exCluster_leases map_filter_simps) (simp add: exCluster_def map_filter_simps)

lemma node_exCluster: "NodeCapacity eClient ''n1'' (exCluster ls) = Inr (2, ''H100'')"
  by (simp add: NodeCapacity_def eClient_def exCluster_def emptyCluster_def exNode_def NodeLabelGPUCount_def NodeLabelGPUModel_def)

lemma held_exCluster: "heldIDs eClient (exCluster [exLease 0 ph]) ''n1'' = {0}"
  by (auto simp: heldIDs_def list_exCluster setVersion_def)

lemma idRange_two: "idRange 2 = [0, 1]"
  by (simp add: idRange_def numeral_2_eq_2)

lemma free_exCluster: "FreeGPUIDs eClient ''n1'' (exCluster [exLease 0 ph]) = Inr [1]"
  by (simp add: FreeGPUIDs_Inr node_exCluster list_exCluster held_exCluster idRange_two)

text \<open>A lease under deletion.\<close>

definition exDeleting :: GPULease where
  "exDeleting = markDeleted 7 (exLease 0 PhaseUnset)"

lemma exDeleting_stored: "eLeases (exCluster [exDeleting]) = [''n1-gpu-0'' \<mapsto> setVersion 1 exDeleting]"
  by (auto simp: eLeases_def eHist_def exCluster_def fun_eq_iff exDeleting_def markDeleted_def stamp_def setVersion_def)

lemma exDeleting_sel:
  "leaseDeleting (setVersion 1 exDeleting)" "Finalizer \<in> set (leaseFinalizers (setVersion 1 exDeleting))"
  "finalizersLeft (setVersion 1 exDeleting) = []" "claimOf (setVersion 1 exDeleting) = claimOf (exLease 0 PhaseUnset)"
  by (simp_all add: exDeleting_def markDeleted_def setVersion_def finalizersLeft_def)

end
