(* ===== verification/Components.thy ===== *)
theory Components
  imports Examples
begin

text \<open>
  The properties of the single components: derived names and settings (\<open>Names\<close>), the GPU
  inventory (\<open>Inventory\<close>), pod classification and ordering (\<open>Pods\<close>), the Kueue Workload
  (\<open>KueueHelpers\<close>), and the controller's gauges, each with an instance on the example cluster.
\<close>

section \<open>Names and settings\<close>

text \<open>
  C29: the derived name of a lease is a key of its (node, GPU) pair: two pairs have the same
  name only if they are the same pair, although a node name may itself contain \<open>-gpu-\<close> and
  digits. This is what makes the API server's uniqueness of names a mutex.
\<close>

theorem lease_name_is_key: "LeaseName node i = LeaseName node' j \<longleftrightarrow> node = node' \<and> i = j"
  by (rule LeaseName_eq_iff)

text \<open>
  C30: whatever the annotations of a Deployment say, the parsed settings are usable: counts are
  non-negative (capacity positive) and within 32 bits, timeouts are positive durations of 64
  bits, the queue name is not empty.
\<close>

theorem settings_in_bounds: "settings_ok (ParseDeploymentSettings annotations deploymentName)"
  using intSetting_range [of 0 DefaultWarmReplicas] intSetting_range [of 0 DefaultMinHotReplicas]
    intSetting_range [of 1 DefaultPodCapacityRPS] durSetting_range [of DefaultActivationTimeout]
    durSetting_range [of DefaultAdmissionTimeout]
  by (simp add: settings_ok_def ParseDeploymentSettings_def settings_default_defs in_int32_def in_int64_def
      DefaultLocalQueueName_def split: option.splits)

text \<open>The annotations that spell out given settings, timeouts in nanoseconds.\<close>

definition printSettings :: "DeploymentSettings \<Rightarrow> strmap" where
  "printSettings s =
     [AnnotationWarmReplicas \<mapsto> showInt (WarmReplicas s), AnnotationMinHotReplicas \<mapsto> showInt (MinHotReplicas s),
      AnnotationLocalQueue \<mapsto> LocalQueueName s, AnnotationPodCapacityRPS \<mapsto> showInt (PodCapacityRPS s),
      AnnotationActivationTimeout \<mapsto> showInt (ActivationTimeout s) @ ''ns'',
      AnnotationAdmissionTimeout \<mapsto> showInt (AdmissionTimeout s) @ ''ns'']"

lemma leadingInt_showNat: "leadingInt (showNat n @ ''ns'') = (n, ''ns'')"
proof -
  have "takeWhile isDigit (showNat n @ ''ns'') = showNat n @ takeWhile isDigit ''ns''"
    "dropWhile isDigit (showNat n @ ''ns'') = dropWhile isDigit ''ns''"
    using showNat_no_sign [of _ n] by (simp_all only: takeWhile_append2 dropWhile_append2)
  moreover have "takeWhile isDigit ''ns'' = []" "dropWhile isDigit ''ns'' = ''ns''"
    by (simp_all add: isDigit_def)
  ultimately show ?thesis by (simp add: leadingInt_def digitsVal_showNat)
qed

lemma parseDurationLoop_ns: "n < 2 ^ 63 \<Longrightarrow> parseDurationLoop 0 (showNat n @ ''ns'') = Some n"
proof -
  assume n: "n < 2 ^ 63"
  have hd: "isDigit (hd (showNat n @ ''ns''))" using showNat_no_sign [of "hd (showNat n)" n] by simp
  have unit: "takeWhile isUnitChar ''ns'' = ''ns''" "dropWhile isUnitChar ''ns'' = []"
    by (simp_all add: isUnitChar_def isDigit_def)
  have stop: "parseDurationLoop n [] = Some n" by (subst parseDurationLoop.simps) simp
  show ?thesis
    using n hd unit stop
    by (subst parseDurationLoop.simps) (simp add: leadingInt_showNat unitNanos_def Let_def)
qed

lemma parseDuration_ns:
  assumes "0 < d" and "in_int64 d"
  shows "parseDuration (showInt d @ ''ns'') = Some d"
proof -
  have n: "nat d < 2 ^ 63" using assms by (simp add: in_int64_def nat_less_iff)
  have s: "showInt d = showNat (nat d)" using assms(1) by (simp add: showInt_def)
  have "length (showNat (nat d) @ ''ns'') \<noteq> length ''0''" using showNat_ne [of "nat d"] by simp
  then have "showNat (nat d) @ ''ns'' \<noteq> ''0''" by metis
  then show ?thesis
    using parseDurationLoop_ns [OF n] hd_showNat_sign [of "nat d"] n assms(1)
    by (simp add: parseDuration_def s)
qed

text \<open>
  C31: settings survive the trip through the annotations: spelling out any settings within bounds
  as annotations of a Deployment, integers in decimal and timeouts in nanoseconds, and parsing
  them gives the same settings back, whatever the name of the Deployment.
\<close>

theorem settings_roundtrip:
  assumes "settings_ok s"
  shows "ParseDeploymentSettings (printSettings s) name = s"
proof -
  have "durSetting (printSettings s) AnnotationActivationTimeout DefaultActivationTimeout = ActivationTimeout s"
    "durSetting (printSettings s) AnnotationAdmissionTimeout DefaultAdmissionTimeout = AdmissionTimeout s"
    using assms parseDuration_ns
    by (simp_all add: durSetting_def printSettings_def deployment_annotation_defs settings_ok_def)
  moreover have "intSetting (printSettings s) AnnotationWarmReplicas 0 DefaultWarmReplicas = WarmReplicas s"
    "intSetting (printSettings s) AnnotationMinHotReplicas 0 DefaultMinHotReplicas = MinHotReplicas s"
    "intSetting (printSettings s) AnnotationPodCapacityRPS 1 DefaultPodCapacityRPS = PodCapacityRPS s"
    using assms
    by (auto intro!: intSetting_print simp: printSettings_def deployment_annotation_defs settings_ok_def)
  moreover have "printSettings s AnnotationLocalQueue = Some (LocalQueueName s)" "LocalQueueName s \<noteq> ''''"
    using assms by (simp_all add: printSettings_def deployment_annotation_defs settings_ok_def)
  ultimately show ?thesis by (simp add: ParseDeploymentSettings_def)
qed

theorem settings_roundtrip_witness:
  "ParseDeploymentSettings (printSettings \<lparr> WarmReplicas = 3, MinHotReplicas = 2, LocalQueueName = ''q'', PodCapacityRPS = 7,
       ActivationTimeout = 90000000000, AdmissionTimeout = 1500000000 \<rparr>) ''app'' =
   \<lparr> WarmReplicas = 3, MinHotReplicas = 2, LocalQueueName = ''q'', PodCapacityRPS = 7,
     ActivationTimeout = 90000000000, AdmissionTimeout = 1500000000 \<rparr>"
  by (rule settings_roundtrip) (simp add: settings_ok_def in_int32_def in_int64_def)

section \<open>Inventory\<close>

text \<open>
  C28: the free indices of a node are exactly the indices within its capacity that no GPULease
  of the node holds, in ascending order and without repetition, whatever phase the holding
  leases are in.
\<close>

theorem free_ids_exact:
  assumes "FreeGPUIDs c node w = Inr ids"
  shows "\<exists>k model leases. NodeCapacity c node w = Inr (k, model) \<and> listLeases c w = Inr leases \<and>
    set ids = {0..<k} - leaseGPU ` {l \<in> set leases. leaseNode l = node} \<and> sorted_wrt (<) ids"
proof -
  obtain k m ls where "NodeCapacity c node w = Inr (k, m)" "listLeases c w = Inr ls"
    "ids = filter (\<lambda>i. i \<notin> heldIDs c w node) (idRange k)"
    using assms by (auto simp: FreeGPUIDs_Inr)
  moreover have "sorted_wrt (<) ids" using ci.free_ascending [of c] assms by simp
  ultimately show ?thesis by (auto simp: heldIDs_def)
qed

theorem free_ids_exact_witness:
  "FreeGPUIDs eClient ''n1'' (exCluster [exLease 0 PhaseFailed]) = Inr [1] \<and>
   (\<exists>leases. listLeases eClient (exCluster [exLease 0 PhaseFailed]) = Inr leases \<and>
      {1} = {0..<2} - leaseGPU ` {l \<in> set leases. leaseNode l = ''n1''})"
  using free_ids_exact [OF free_exCluster [of PhaseFailed]] free_exCluster [of PhaseFailed]
    node_exCluster [of "[exLease 0 PhaseFailed]"] by auto

text \<open>
  \<open>AllocateID\<close> returns the least free index: it is within the node's capacity, no lease
  holds it, and every smaller index is held; and it reports exhaustion exactly when the node
  can be read and every index within its capacity is held.
\<close>

lemma allocate_least:
  assumes "NodeCapacity c node w = Inr (k, model)" and "listLeases c w = Inr leases"
  shows "case AllocateID c node w of
      Inr i \<Rightarrow> 0 \<le> i \<and> i < k \<and> i \<notin> heldIDs c w node \<and> {0..<i} \<subseteq> heldIDs c w node
    | Inl e \<Rightarrow> e = ErrExhausted \<and> {0..<k} \<subseteq> heldIDs c w node"
proof -
  obtain ids where ids: "FreeGPUIDs c node w = Inr ids" "ids = filter (\<lambda>i. i \<notin> heldIDs c w node) (idRange k)"
    using assms FreeGPUIDs_Inr [of c node w] by blast
  show ?thesis
  proof (cases ids)
    case Nil
    then have "{0..<k} \<subseteq> heldIDs c w node" using ids(2) set_idRange [of k] by (auto simp: filter_empty_conv)
    with Nil ids(1) show ?thesis by (simp add: AllocateID_def)
  next
    case (Cons i rest)
    then have a: "AllocateID c node w = Inr i" using ids(1) by (simp add: AllocateID_def)
    have "i \<in> set ids" using Cons by simp
    then have "i < k" using ids(2) by simp
    with a show ?thesis using ci.allocate_fresh [of c node w i] by auto
  qed
qed

lemma allocate_least_example:
  "(case AllocateID eClient ''n1'' (exCluster [exLease 0 PhaseBound]) of
      Inr i \<Rightarrow> 0 \<le> i \<and> i < 2 \<and> i \<notin> heldIDs eClient (exCluster [exLease 0 PhaseBound]) ''n1'' \<and>
        {0..<i} \<subseteq> heldIDs eClient (exCluster [exLease 0 PhaseBound]) ''n1''
    | Inl e \<Rightarrow> e = ErrExhausted \<and> {0..<2} \<subseteq> heldIDs eClient (exCluster [exLease 0 PhaseBound]) ''n1'') \<and>
   AllocateID eClient ''n1'' (exCluster [exLease 0 PhaseBound]) = Inr 1"
  using allocate_least [OF node_exCluster list_exCluster, of PhaseBound] free_exCluster [of PhaseBound]
  by (simp add: AllocateID_def)

text \<open>
  The two views of the inventory agree: for every node whose free indices can be listed,
  \<open>NodeFreeCounts\<close> reports their number, so the promotion order ranks nodes by what an
  acquisition will find there.
\<close>

lemma node_counts_agree:
  assumes "nodeReadsAgree c w" and "NodeFreeCounts c w = Inr counts" and "FreeGPUIDs c node w = Inr ids"
  shows "map_of counts node = Some (int (length ids))"
  using assms by (rule NodeFreeCounts_lookup)

lemma nodes_exCluster: "nodeReadsAgree eClient (exCluster ls)"
  by (auto simp: nodeReadsAgree_def eClient_def exCluster_def emptyCluster_def exNode_def)

lemma node_counts_agree_witness:
  "\<exists>counts. NodeFreeCounts eClient (exCluster [exLease 0 PhaseBound]) = Inr counts \<and> map_of counts ''n1'' = Some 1"
proof -
  let ?w = "exCluster [exLease 0 PhaseBound]"
  obtain counts where c: "NodeFreeCounts eClient ?w = Inr counts"
    using NodeFreeCounts_def [of eClient ?w] list_exCluster [of PhaseBound]
    by (auto simp: eClient_def eListLeases_def)
  from node_counts_agree [OF nodes_exCluster c free_exCluster] c show ?thesis by simp
qed

section \<open>Pods\<close>

text \<open>
  C25: the target splits the ready pods as the two floors demand: of \<open>R\<close> ready pods,
  \<open>targetHot\<close> is never more than \<open>R\<close> and never less than the hot floor as far as there are
  pods, and what is left for the warm pool is the desired number of warm pods, except that the
  hot floor takes precedence over it.
\<close>

theorem target_hot_split:
  "targetHot R warm minHot \<le> R \<and> min R minHot \<le> targetHot R warm minHot \<and>
   R - targetHot R warm minHot = max 0 (min warm (R - minHot))"
  by (auto simp: targetHot_eq)

text \<open>
  The promotion candidates are exactly the given pods that sit on a node with a free GPU,
  each as often as given; a pod on a node with more free GPUs comes first, among pods on equally
  free nodes the older one, and pods that tie in both keep their order.
\<close>

lemma promotion_order:
  "mset (sortPromotionCandidates pods free) = filter_mset (\<lambda>p. 0 < mapGet free (p_NodeName p)) (mset pods) \<and>
   sorted_wrt (\<lambda>p q. mapGet free (p_NodeName q) < mapGet free (p_NodeName p) \<or>
       (mapGet free (p_NodeName p) = mapGet free (p_NodeName q) \<and> podCreated p \<le> podCreated q))
     (sortPromotionCandidates pods free) \<and>
   filter (\<lambda>p. mapGet free (p_NodeName p) = k \<and> podCreated p = t) (sortPromotionCandidates pods free) =
   filter (\<lambda>p. 0 < mapGet free (p_NodeName p) \<and> mapGet free (p_NodeName p) = k \<and> podCreated p = t) pods"
proof -
  let ?ok = "filter (\<lambda>p. 0 < mapGet free (p_NodeName p)) pods"
  let ?tie = "\<lambda>p. mapGet free (p_NodeName p) = k \<and> podCreated p = t"
  have "sorted_wrt (\<lambda>p q. \<not> promotionLess free q p) (sortPromotionCandidates pods free)"
    unfolding sortPromotionCandidates_def by (rule promo.sliceStable_ordered)
  then have "sorted_wrt (\<lambda>p q. mapGet free (p_NodeName q) < mapGet free (p_NodeName p) \<or>
       (mapGet free (p_NodeName p) = mapGet free (p_NodeName q) \<and> podCreated p \<le> podCreated q))
     (sortPromotionCandidates pods free)"
    by (rule sorted_wrt_mono_rel [rotated]) (auto simp: promotionLess_def Let_def split: if_splits)
  moreover have "filter ?tie (sortPromotionCandidates pods free) = filter ?tie ?ok"
    unfolding sortPromotionCandidates_def
    by (rule promo.sliceStable_stable) (auto simp: promotionLess_def Let_def)
  ultimately show ?thesis by (simp add: sortPromotion_mset conj_commute)
qed

text \<open>
  The demotion candidates are exactly the given pods, newest first, and pods created at the
  same instant keep their order.
\<close>

lemma demotion_order:
  "mset (sortDemotionCandidates pods) = mset pods \<and>
   sorted_wrt (\<lambda>p q. podCreated q \<le> podCreated p) (sortDemotionCandidates pods) \<and>
   filter (\<lambda>p. podCreated p = t) (sortDemotionCandidates pods) = filter (\<lambda>p. podCreated p = t) pods"
proof -
  have "sorted_wrt (\<lambda>p q. \<not> demotionLess q p) (sortDemotionCandidates pods)"
    unfolding sortDemotionCandidates_def by (rule demo.sliceStable_ordered)
  then have "sorted_wrt (\<lambda>p q. podCreated q \<le> podCreated p) (sortDemotionCandidates pods)"
    by (rule sorted_wrt_mono_rel [rotated]) (auto simp: demotionLess_def)
  moreover have "filter (\<lambda>p. podCreated p = t) (sortDemotionCandidates pods) = filter (\<lambda>p. podCreated p = t) pods"
    unfolding sortDemotionCandidates_def by (rule demo.sliceStable_stable) (simp add: demotionLess_def)
  ultimately show ?thesis by simp
qed

text \<open>
  C26: a lease is kept exactly as long as its claim is valid: no reason to drop it is reported if
  and only if the claimed pod exists, is the very pod that was claimed (when its UID is
  recorded), is not terminating, is ready, is still selected by the Deployment, and runs on the
  lease's node. The only other verdicts are PodGone and NodeMismatch, the latter exactly when the
  node alone is wrong.
\<close>

theorem orphan_iff_invalid:
  "(leaseOrphanReason pod lease sel = '''' \<longleftrightarrow> claimValid pod lease sel) \<and>
   (leaseOrphanReason pod lease sel = ReasonNodeMismatch \<longleftrightarrow>
      (\<exists>p. pod = Some p \<and> p_NodeName p \<noteq> leaseNode lease \<and>
         claimValid pod (lease\<lparr>l_Spec := (l_Spec lease)\<lparr>ls_NodeName := p_NodeName p\<rparr>\<rparr>) sel)) \<and>
   leaseOrphanReason pod lease sel \<in> {'''', ReasonPodGone, ReasonNodeMismatch}"
  using leaseOrphanReason_valid [of pod lease sel] leaseOrphanReason_cases [of pod lease sel]
  by (auto simp: leaseOrphanReason_def claimValid_def reason_defs split: option.splits)

section \<open>Kueue\<close>

text \<open>
  The Workload of a lease reserves one GPU, on the lease's node and no other, under the
  lease's name in the claim pod's namespace; and the specs of two leases' Workloads agree exactly
  when queue and node do, so a Workload built for another node or queue is told apart.
\<close>

lemma workload_one_gpu:
  "workloadDemand (buildWorkload lease) = 1 \<and> pinnedTo (buildWorkload lease) (leaseNode lease) \<and>
   om_Name (wl_Meta (buildWorkload lease)) = leaseName lease \<and>
   om_Namespace (wl_Meta (buildWorkload lease)) = ref_Namespace (claimOf lease) \<and>
   (wl_Spec (buildWorkload lease) = wl_Spec (buildWorkload lease') \<longleftrightarrow>
      ls_LocalQueueName (l_Spec lease) = ls_LocalQueueName (l_Spec lease') \<and> leaseNode lease = leaseNode lease')"
  by (simp add: buildWorkload_demand buildWorkload_pinned buildWorkload_spec_eq)

section \<open>The controller's gauges\<close>

lemma mapGet_update: "mapGet (AList.update k v m) k' = (if k' = k then v else mapGet m k')"
  by (simp add: mapGet_def update_conv')

lemma countsByNode_snoc:
  "countsByNode (items @ [l]) =
     AList.update (leaseNode l) (mapGet (countsByNode items) (leaseNode l) + 1) (countsByNode items)"
  by (simp add: countsByNode_def)

text \<open>
  The values set on \<open>gpulease_leases_active\<close> are right for every node that has a lease: the
  number of GPULeases of the node, whatever their phase. A node without leases is not among the
  updates at all, so its gauge keeps the value it had.
\<close>

lemma active_counts:
  "map_of (countsByNode items) node =
     (if node \<in> leaseNode ` set items then Some (int (length (filter (\<lambda>l. leaseNode l = node) items))) else None)"
proof (induction items rule: rev_induct)
  case Nil
  show ?case by (simp add: countsByNode_def)
next
  case (snoc l items)
  have "filter (\<lambda>l. leaseNode l = node) items = []" if "node \<notin> leaseNode ` set items"
    using that by (auto simp: filter_empty_conv)
  with snoc show ?case by (auto simp: countsByNode_snoc update_conv' mapGet_def)
qed

end
