(* ===== verification/Manager.thy ===== *)
theory Manager
  imports Etcd
begin

text \<open>
  How the controllers are put together: \<open>SetupWithManager\<close> of the two reconcilers
  (\<open>internal/controller/gpulease_controller.go\<close>, \<open>warmpool_controller.go\<close>), the objects whose
  changes trigger them, and \<open>cmd/manager/main.go\<close>. The manager of controller-runtime is a
  record of what the code asks it for; calls into the library that may fail are given by an
  argument that says which ones do.
\<close>

section \<open>SetupWithManager\<close>

text \<open>
  \<open>mgr_HTTP timeout\<close> is the \<open>Do\<close> of a \<open>net/http\<close> client with that timeout, \<open>mgr_ValidURL\<close> what
  \<open>http.NewRequest\<close> accepts.
\<close>

record 'w Manager =
  mgr_GetClient :: "'w Client"
  mgr_GetEventRecorderFor :: "string \<Rightarrow> 'w Recorder"
  mgr_HTTP :: "duration \<Rightarrow> 'w Transport"
  mgr_ValidURL :: "string \<Rightarrow> bool"
  mgr_Runtime :: "'w Runtime"

text \<open>The reconciler structs as their creator fills them in: a nil field is \<open>None\<close>.\<close>

record 'w GPULeaseFields =
  gf_Client :: "'w Client"
  gf_Recorder :: "'w Recorder option"
  gf_PodClient :: "'w PodClient option"
  gf_Inventory :: "'w Inventory option"
  gf_Clock :: "('w \<Rightarrow> gotime) option"

record 'w WarmPoolFields =
  wf_Client :: "'w Client"
  wf_Recorder :: "'w Recorder option"
  wf_Inventory :: "'w Inventory option"
  wf_ResyncPeriod :: duration
  wf_FailedLeaseRetention :: duration

definition orElse :: "'a option \<Rightarrow> 'a \<Rightarrow> 'a" where
  "orElse x d = (case x of None \<Rightarrow> d | Some v \<Rightarrow> v)"

definition leaseSetupWithManager :: "'w Manager \<Rightarrow> 'w GPULeaseFields \<Rightarrow> 'w GPULeaseReconciler" where
  "leaseSetupWithManager mgr r =
     \<lparr> lr_Client = gf_Client r,
       lr_Recorder = Some (orElse (gf_Recorder r) (mgr_GetEventRecorderFor mgr ''gpulease-controller'')),
       lr_PodClient = orElse (gf_PodClient r) (httpPodClient (NewHTTPClient (mgr_HTTP mgr) (mgr_ValidURL mgr))),
       lr_Inventory = Some (orElse (gf_Inventory r) (New (mgr_GetClient mgr))),
       lr_Clock = gf_Clock r,
       lr_Runtime = mgr_Runtime mgr \<rparr>"

definition poolSetupWithManager :: "'w Manager \<Rightarrow> 'w WarmPoolFields \<Rightarrow> 'w WarmPoolReconciler" where
  "poolSetupWithManager mgr r =
     \<lparr> wp_Client = wf_Client r,
       wp_Recorder = Some (orElse (wf_Recorder r) (mgr_GetEventRecorderFor mgr ''warmpool-controller'')),
       wp_Inventory = orElse (wf_Inventory r) (New (mgr_GetClient mgr)),
       wp_ResyncPeriod = wf_ResyncPeriod r,
       wp_FailedLeaseRetention =
         (if wf_FailedLeaseRetention r \<le> 0 then DefaultFailedLeaseRetention else wf_FailedLeaseRetention r),
       wp_Runtime = mgr_Runtime mgr \<rparr>"

section \<open>Triggers\<close>

text \<open>
  The watches: a Deployment that is managed triggers its own reconcile, a pod and a lease
  trigger the Deployments they are mapped to; a lease triggers its own reconcile, and a Workload
  that of the lease that is its controller owner (\<open>owner\<close>, read by controller-runtime).
\<close>

datatype Watched = WDeployment Deployment | WPod Pod | WLease GPULease | WWorkload Workload

fun poolRequests :: "'w WarmPoolReconciler \<Rightarrow> Watched \<Rightarrow> 'w \<Rightarrow> (string \<times> string) list" where
  "poolRequests r (WDeployment d) w = (if IsManaged (depAnnotations d) then [(depNamespace d, depName d)] else [])"
| "poolRequests r (WPod p) w = mapPodToDeployment r p w"
| "poolRequests r (WLease l) w = mapLeaseToDeployment l"
| "poolRequests r (WWorkload wl) w = []"

fun leaseRequests :: "(Workload \<Rightarrow> string option) \<Rightarrow> Watched \<Rightarrow> string list" where
  "leaseRequests owner (WLease l) = [leaseName l]"
| "leaseRequests owner (WWorkload wl) = (case owner wl of None \<Rightarrow> [] | Some n \<Rightarrow> [n])"
| "leaseRequests owner (WDeployment d) = []"
| "leaseRequests owner (WPod p) = []"

section \<open>The manager's main\<close>

definition managerLeaseReconciler :: "'w Manager \<Rightarrow> 'w GPULeaseReconciler" where
  "managerLeaseReconciler mgr = leaseSetupWithManager mgr
     \<lparr> gf_Client = mgr_GetClient mgr, gf_Recorder = None, gf_PodClient = None, gf_Inventory = None, gf_Clock = None \<rparr>"

definition managerWarmPoolReconciler :: "'w Manager \<Rightarrow> 'w WarmPoolReconciler" where
  "managerWarmPoolReconciler mgr = poolSetupWithManager mgr
     \<lparr> wf_Client = mgr_GetClient mgr, wf_Recorder = None, wf_Inventory = None, wf_ResyncPeriod = 0,
       wf_FailedLeaseRetention = 0 \<rparr>"

lemmas manager_defs = managerLeaseReconciler_def managerWarmPoolReconciler_def leaseSetupWithManager_def
  poolSetupWithManager_def orElse_def

record ManagerFlags =
  mf_metricsAddr :: string
  mf_probeAddr :: string
  mf_enableLeaderElection :: bool
  mf_secureMetrics :: bool
  mf_webhookCertPath :: string
  mf_webhookCertName :: string
  mf_webhookCertKey :: string
  mf_metricsCertPath :: string
  mf_metricsCertName :: string
  mf_metricsCertKey :: string
  mf_enableHTTP2 :: bool

definition defaultFlags :: ManagerFlags where
  "defaultFlags = \<lparr> mf_metricsAddr = ''0'', mf_probeAddr = '':8081'', mf_enableLeaderElection = False,
     mf_secureMetrics = True, mf_webhookCertPath = '''', mf_webhookCertName = ''tls.crt'', mf_webhookCertKey = ''tls.key'',
     mf_metricsCertPath = '''', mf_metricsCertName = ''tls.crt'', mf_metricsCertKey = ''tls.key'', mf_enableHTTP2 = False \<rparr>"

text \<open>A certificate watcher is named by the directory and the two file names it watches.\<close>

datatype TLSOpt = DisableHTTP2 | GetCertificate string string string

record ManagerOptions =
  mo_webhookTLSOpts :: "TLSOpt list"
  mo_BindAddress :: string
  mo_SecureServing :: bool
  mo_metricsTLSOpts :: "TLSOpt list"
  mo_FilterProvider :: bool \<comment> \<open>authentication and authorization of the metrics endpoint\<close>
  mo_HealthProbeBindAddress :: string
  mo_LeaderElection :: bool
  mo_LeaderElectionID :: string

text \<open>
  Option slices are extended by \<open>append\<close> only when they are full (no or one element), so the two
  servers never share a backing array and lists describe them.
\<close>

definition managerOptions :: "ManagerFlags \<Rightarrow> ManagerOptions" where
  "managerOptions f =
     (let tlsOpts = (if \<not> mf_enableHTTP2 f then [DisableHTTP2] else []);
          webhookTLSOpts =
            (if mf_webhookCertPath f \<noteq> ''''
             then tlsOpts @ [GetCertificate (mf_webhookCertPath f) (mf_webhookCertName f) (mf_webhookCertKey f)] else tlsOpts);
          metricsTLSOpts =
            (if mf_metricsCertPath f \<noteq> ''''
             then tlsOpts @ [GetCertificate (mf_metricsCertPath f) (mf_metricsCertName f) (mf_metricsCertKey f)] else tlsOpts)
      in \<lparr> mo_webhookTLSOpts = webhookTLSOpts, mo_BindAddress = mf_metricsAddr f, mo_SecureServing = mf_secureMetrics f,
           mo_metricsTLSOpts = metricsTLSOpts, mo_FilterProvider = mf_secureMetrics f,
           mo_HealthProbeBindAddress = mf_probeAddr f, mo_LeaderElection = mf_enableLeaderElection f,
           mo_LeaderElectionID = ''f8b32de7.llm-d.ai'' \<rparr>)"

text \<open>The library calls of \<open>main\<close> that may fail.\<close>

datatype ManagerCall =
    NewCertWatcher string string string
  | GetConfigOrDie
  | NewManager ManagerOptions
  | SetupGPULease
  | SetupWarmPool
  | AddCertWatcher string string string
  | AddHealthzCheck
  | AddReadyzCheck
  | StartManager

text \<open>
  A call is recorded in the trace, and the first component says whether it returned an error; which calls
  do is the argument \<open>fails\<close>.
\<close>

definition perform :: "('c \<Rightarrow> bool) \<Rightarrow> 'c \<Rightarrow> 'c list \<Rightarrow> bool \<times> 'c list" where
  "perform fails c tr = (fails c, tr @ [c])"

text \<open>
  \<open>main\<close> after the flags are parsed. The result is the exit code and the calls made. Each
  \<open>os.Exit(1)\<close> is the branch behind its own call (\<open>GetConfigOrDie\<close> exits itself).
\<close>

definition managerMain :: "(ManagerCall \<Rightarrow> bool) \<Rightarrow> ManagerFlags \<Rightarrow> int \<times> ManagerCall list" where
  "managerMain fails f =
     (let webhookCert = mf_webhookCertPath f \<noteq> '''';
          metricsCert = mf_metricsCertPath f \<noteq> '''';
          (err, tr) = (if webhookCert
             then perform fails (NewCertWatcher (mf_webhookCertPath f) (mf_webhookCertName f) (mf_webhookCertKey f)) []
             else (False, []))
      in if err then (1, tr) else
      let (err, tr) = (if metricsCert
             then perform fails (NewCertWatcher (mf_metricsCertPath f) (mf_metricsCertName f) (mf_metricsCertKey f)) tr
             else (False, tr))
      in if err then (1, tr) else
      let (err, tr) = perform fails GetConfigOrDie tr
      in if err then (1, tr) else
      let (err, tr) = perform fails (NewManager (managerOptions f)) tr
      in if err then (1, tr) else
      let (err, tr) = perform fails SetupGPULease tr
      in if err then (1, tr) else
      let (err, tr) = perform fails SetupWarmPool tr
      in if err then (1, tr) else
      let (err, tr) = (if metricsCert
             then perform fails (AddCertWatcher (mf_metricsCertPath f) (mf_metricsCertName f) (mf_metricsCertKey f)) tr
             else (False, tr))
      in if err then (1, tr) else
      let (err, tr) = (if webhookCert
             then perform fails (AddCertWatcher (mf_webhookCertPath f) (mf_webhookCertName f) (mf_webhookCertKey f)) tr
             else (False, tr))
      in if err then (1, tr) else
      let (err, tr) = perform fails AddHealthzCheck tr
      in if err then (1, tr) else
      let (err, tr) = perform fails AddReadyzCheck tr
      in if err then (1, tr) else
      let (err, tr) = perform fails StartManager tr
      in if err then (1, tr) else (0, tr))"

text \<open>
  The reference: the calls a run without failures makes, and a process that makes calls one after the
  other and ends at the first that fails.
\<close>

definition managerCalls :: "ManagerFlags \<Rightarrow> ManagerCall list" where
  "managerCalls f =
     (let webhook = (mf_webhookCertPath f, mf_webhookCertName f, mf_webhookCertKey f);
          metrics = (mf_metricsCertPath f, mf_metricsCertName f, mf_metricsCertKey f);
          given = (\<lambda>(path, name, k). path \<noteq> '''');
          watch = (\<lambda>(path, name, k). NewCertWatcher path name k);
          add = (\<lambda>(path, name, k). AddCertWatcher path name k)
      in (if given webhook then [watch webhook] else []) @ (if given metrics then [watch metrics] else []) @
         [GetConfigOrDie, NewManager (managerOptions f), SetupGPULease, SetupWarmPool] @
         (if given metrics then [add metrics] else []) @ (if given webhook then [add webhook] else []) @
         [AddHealthzCheck, AddReadyzCheck, StartManager])"

fun runUntilFailure :: "('c \<Rightarrow> bool) \<Rightarrow> 'c list \<Rightarrow> int \<times> 'c list" where
  "runUntilFailure fails [] = (0, [])"
| "runUntilFailure fails (c # cs) = (if fails c then (1, [c]) else apsnd (Cons c) (runUntilFailure fails cs))"

lemma managerMain_refines: "managerMain fails f = runUntilFailure fails (managerCalls f)"
  by (simp add: managerMain_def managerCalls_def perform_def Let_def)

section \<open>The manager as an environment of the reconcilers\<close>

text \<open>
  What is relied on of the manager: its client is that of an API server, the libraries behave as
  documented, and neither HTTP calls nor events nor metrics write leases.
\<close>

locale manager_env = lease_server "mgr_GetClient mgr" leases hist log + k8s_lib "rt_Lib (mgr_Runtime mgr)"
  for mgr :: "'w Manager" and leases :: "'w \<Rightarrow> lstore" and hist :: "'w \<Rightarrow> lhist" and log :: "lhist \<Rightarrow> lstore \<Rightarrow> bool" +
  assumes http_call: "world_step leases hist log w (snd (mgr_HTTP mgr timeout req w))"
    and recorder_call: "world_step leases hist log w (mgr_GetEventRecorderFor mgr nm ob ty rs m w)"
    and metrics_call: "world_step leases hist log w (rt_Metric (mgr_Runtime mgr) mop w)"
begin

lemma http_client_calls:
  fixes h :: "'w HTTPClient"
  defines "h \<equiv> NewHTTPClient (mgr_HTTP mgr) (mgr_ValidURL mgr)"
  shows "world_step leases hist log w (snd (hcActivate h ip req w))" "world_step leases hist log w (snd (hcRelease h ip w))"
    "world_step leases hist log w (snd (hcState h ip w))"
proof -
  have client: "hcClient h = mgr_HTTP mgr DefaultTimeout"
    by (simp add: h_def hcClient_def NewHTTPClient_def)
  have call: "world_step leases hist log w (snd (bnd (mapErr g (newRequest h m url b))
      (\<lambda>rq. bnd (mapErr g' (hcClient h rq)) f) w))" if "\<And>x w'. snd (f x w') = w'" for g m url b g' and f :: "HttpResponse \<Rightarrow> ('w, 'x) go"
    using that http_call [of w DefaultTimeout] world_step_refl [of leases hist log w]
    by (auto simp: client newRequest_def bnd_app mapErr_app split: prod.splits sum.splits) (metis snd_conv)+
  show "world_step leases hist log w (snd (hcActivate h ip req w))"
    unfolding hcActivate_def by (rule call) simp
  show "world_step leases hist log w (snd (hcRelease h ip w))"
    unfolding hcRelease_def by (rule call) simp
  show "world_step leases hist log w (snd (hcState h ip w))"
    unfolding hcState_def by (rule call) (simp split: option.splits)
qed

sublocale lr: lease_env "managerLeaseReconciler mgr" leases hist log
proof (intro lease_env.intro)
  show "lease_server (lr_Client (managerLeaseReconciler mgr)) leases hist log"
    using lease_server_axioms by (simp add: manager_defs)
  show "k8s_lib (lrLib (managerLeaseReconciler mgr))"
    using k8s_lib_axioms by (simp add: manager_defs)
  show "lease_env_axioms (managerLeaseReconciler mgr) leases hist log"
    by unfold_locales
      (auto simp: manager_defs httpPodClient_def http_client_calls recorder_call metrics_call)
qed

sublocale wp: pool_env "managerWarmPoolReconciler mgr" leases hist log "heldIDs (mgr_GetClient mgr)"
proof (intro pool_env.intro)
  show "lease_server (wp_Client (managerWarmPoolReconciler mgr)) leases hist log"
    using lease_server_axioms by (simp add: manager_defs)
  show "k8s_lib (wpLib (managerWarmPoolReconciler mgr))"
    using k8s_lib_axioms by (simp add: manager_defs)
  show "gpu_inventory (wp_Inventory (managerWarmPoolReconciler mgr)) (heldIDs (mgr_GetClient mgr))"
    by (simp add: manager_defs ci.gpu_inventory_axioms)
  show "pool_env_axioms (managerWarmPoolReconciler mgr) leases hist log"
    by unfold_locales (auto simp: manager_defs recorder_call metrics_call)
qed

lemma reconcilers:
  "lease_env (managerLeaseReconciler mgr) leases hist log"
  "pool_env (managerWarmPoolReconciler mgr) leases hist log (heldIDs (mgr_GetClient mgr))"
  by (rule lr.lease_env_axioms wp.pool_env_axioms)+

end

text \<open>A manager over the reference store, in whose network no pod can be reached.\<close>

definition eManager :: "Cluster Manager" where
  "eManager = \<lparr> mgr_GetClient = eClient, mgr_GetEventRecorderFor = (\<lambda>_. eRecorder),
     mgr_HTTP = (\<lambda>_ _ w. (Inl (ErrNet ''no route to host''), w)), mgr_ValidURL = (\<lambda>_. True), mgr_Runtime = eRuntime \<rparr>"

interpretation emgr: manager_env eManager eLeases eHist recorded
proof (intro manager_env.intro)
  show "lease_server (mgr_GetClient eManager) eLeases eHist recorded"
    by (simp add: eManager_def eserver.lease_server_axioms)
  show "k8s_lib (rt_Lib (mgr_Runtime eManager))"
    by (simp add: eManager_def eRuntime_def elib.k8s_lib_axioms)
  show "manager_env_axioms eManager eLeases eHist recorded"
    by unfold_locales (simp_all add: eManager_def eEvent_step eMetric_step world_step_refl)
qed

section \<open>Properties\<close>

lemma runUntilFailure_code:
  "fst (runUntilFailure fails cs) = (if filter fails (snd (runUntilFailure fails cs)) = [] then 0 else 1)"
  by (induction cs) auto

lemma runUntilFailure_stops: "filter fails (butlast (snd (runUntilFailure fails cs))) = []"
  by (induction cs) auto

lemma runUntilFailure_prefix: "set (snd (runUntilFailure fails cs)) \<subseteq> set cs"
  by (induction cs) auto

lemma runUntilFailure_all:
  "filter fails cs = [] \<Longrightarrow> runUntilFailure fails (cs @ [c]) = (if fails c then 1 else 0, cs @ [c])"
  by (induction cs) (auto split: if_splits)

lemma runUntilFailure_last:
  "c \<notin> set cs \<Longrightarrow> c \<in> set (snd (runUntilFailure fails (cs @ [c]))) \<Longrightarrow> filter fails cs = []"
  by (induction cs) (auto split: if_splits)

text \<open>What the manager must not be started without.\<close>

definition startRequires :: "ManagerFlags \<Rightarrow> ManagerCall set" where
  "startRequires f =
     {NewManager (managerOptions f), SetupGPULease, SetupWarmPool, AddHealthzCheck, AddReadyzCheck} \<union>
     (if mf_metricsCertPath f = '''' then {}
      else {NewCertWatcher (mf_metricsCertPath f) (mf_metricsCertName f) (mf_metricsCertKey f),
            AddCertWatcher (mf_metricsCertPath f) (mf_metricsCertName f) (mf_metricsCertKey f)}) \<union>
     (if mf_webhookCertPath f = '''' then {}
      else {NewCertWatcher (mf_webhookCertPath f) (mf_webhookCertName f) (mf_webhookCertKey f),
            AddCertWatcher (mf_webhookCertPath f) (mf_webhookCertName f) (mf_webhookCertKey f)})"

text \<open>
  C37: the manager starts complete or not at all. Whatever the flags and whichever of the library calls
  of \<open>main\<close> fail: the process ends with code 0 or 1, with 1 exactly when one of the calls it made
  failed, and after a failing call it makes no further one. It starts the manager only after the
  manager was created with the options of the flags, both controllers and both health checks were
  registered and every certificate watcher the flags ask for was created and added, all without
  error; and when no call fails it does start it. No certificate watcher is created without a path.
\<close>

theorem manager_starts_complete:
  assumes "managerMain fails f = (code, calls)"
  shows "(code = 0 \<or> code = 1) \<and> (code = 1 \<longleftrightarrow> filter fails calls \<noteq> []) \<and> filter fails (butlast calls) = [] \<and>
    (StartManager \<in> set calls \<longrightarrow> startRequires f \<subseteq> {c \<in> set calls. \<not> fails c}) \<and>
    ((\<forall>c. \<not> fails c) \<longrightarrow> code = 0 \<and> calls = managerCalls f \<and> last calls = StartManager) \<and>
    (NewCertWatcher p n k \<in> set calls \<or> AddCertWatcher p n k \<in> set calls \<longrightarrow> p \<noteq> '''')"
proof -
  obtain cs where cs: "managerCalls f = cs @ [StartManager]" and new: "StartManager \<notin> set cs"
    and req: "startRequires f \<subseteq> set cs"
    by (simp add: managerCalls_def startRequires_def Let_def)
  have run: "runUntilFailure fails (managerCalls f) = (code, calls)" using assms managerMain_refines by metis
  have all: "calls = cs @ [StartManager] \<and> code = (if fails StartManager then 1 else 0)" if "filter fails cs = []"
    using runUntilFailure_all [OF that, of StartManager] run cs by simp
  have "startRequires f \<subseteq> {c \<in> set calls. \<not> fails c}" if "StartManager \<in> set calls"
  proof -
    have none: "filter fails cs = []" using runUntilFailure_last [OF new, of fails] run cs that by simp
    with all req show ?thesis by (auto simp: filter_empty_conv)
  qed
  moreover have "code = 0 \<and> calls = managerCalls f \<and> last calls = StartManager" if "\<forall>c. \<not> fails c"
    using all cs that by simp
  moreover have "p \<noteq> ''''" if "NewCertWatcher p n k \<in> set calls \<or> AddCertWatcher p n k \<in> set calls"
    using that runUntilFailure_prefix [of fails "managerCalls f"] run by (auto simp: managerCalls_def Let_def split: if_splits)
  ultimately show ?thesis
    using runUntilFailure_code [of fails "managerCalls f"] runUntilFailure_stops [of fails "managerCalls f"] run cs by simp
qed

text \<open>
  Witness of manager\_starts\_complete: with the default flags, if the set-up of the second controller
  fails, the process ends there; if nothing fails, the manager is started.
\<close>

theorem manager_starts_complete_witness:
  "fst (managerMain (\<lambda>c. c = SetupWarmPool) defaultFlags) = 1 \<and>
   StartManager \<notin> set (snd (managerMain (\<lambda>c. c = SetupWarmPool) defaultFlags)) \<and>
   managerMain (\<lambda>_. False) defaultFlags = (0, managerCalls defaultFlags)"
proof -
  obtain code calls where a: "managerMain (\<lambda>c. c = SetupWarmPool) defaultFlags = (code, calls)" by fastforce
  obtain code' calls' where b: "managerMain (\<lambda>_. False) defaultFlags = (code', calls')" by fastforce
  have req: "SetupWarmPool \<in> startRequires defaultFlags" by (simp add: startRequires_def)
  have made: "SetupWarmPool \<in> set calls" using a by (auto simp: managerMain_def perform_def defaultFlags_def)
  have "code = 1" using manager_starts_complete [OF a] made by (auto simp: filter_empty_conv)
  moreover have "StartManager \<notin> set calls" using manager_starts_complete [OF a] req by blast
  moreover have "code' = 0 \<and> calls' = managerCalls defaultFlags" using manager_starts_complete [OF b] by blast
  ultimately show ?thesis using a b by simp
qed

end
