(* ===== verification/Journey.thy ===== *)
theory Journey
  imports HealthyCluster
begin

text \<open>
  The first half of a lease's way from the warm pool's request to a serving pod, in an
  undisturbed cluster: the reconcile that creates the Workload, and the one that finds it
  admitted. The second half, activation and binding, is in the theory of the healthy cluster.
\<close>

context healthy_env
begin

section \<open>Asking Kueue for quota\<close>

lemma createWorkload_healthy:
  assumes h: "healthy w" and cur: "v_leases (view w) (leaseName l) = Some l"
    and new: "v_workloads (view w) (ref_Namespace (claimOf l), leaseName l) = None"
  shows "\<exists>w' l' wl. createWorkload r l (buildWorkload l) w = (Inr (resultAfter pollInterval), w') \<and> healthy w' \<and>
    view w' = setLease (leaseName l) (Some l')
      (setWorkload (ref_Namespace (claimOf l), leaseName l) (Some wl) (view w)) \<and>
    restatus l l' \<and> leasePhase l' = leasePhase l \<and> wl_Spec wl = wl_Spec (buildWorkload l)"
proof -
  obtain want where want: "SetControllerReference (lrLib r) l (buildWorkload l) = Inr want"
    using own_workload by blast
  then have m: "om_Name (wl_Meta want) = leaseName l" "om_Namespace (wl_Meta want) = ref_Namespace (claimOf l)"
    "wl_Spec want = wl_Spec (buildWorkload l)"
    using controller_reference [OF want] by simp_all
  obtain wl w1 where c: "createWorkloadObj (lr_Client r) want w = (Inr wl, w1)" and h1: "healthy w1"
    and sp: "wl_Spec wl = wl_Spec (buildWorkload l)"
    and v1: "view w1 = setWorkload (ref_Namespace (claimOf l), leaseName l) (Some wl) (view w)"
    using put_workload [OF h, of want] new m by auto
  have cur1: "v_leases (view w1) (leaseName l) = Some l" using v1 cur by simp
  show ?thesis
  proof (cases "lt_WorkloadName (l_Status l) = leaseName l")
    case True
    have "createWorkload r l (buildWorkload l) w = (Inr (resultAfter pollInterval), w1)"
      using want c m True by (simp add: createWorkload_def bnd_attempt_app bnd_app [of "mapErr _ _"] mapErr_app)
    moreover have "setLease (leaseName l) (Some l) (view w1) = view w1"
      using cur1 by (simp add: setLease_def fun_upd_idem)
    ultimately show ?thesis using h1 v1 sp by (intro exI [of _ w1] exI [of _ l] exI [of _ wl]) (simp add: restatus_def)
  next
    case False
    let ?l1 = "l\<lparr>l_Status := (l_Status l)\<lparr>lt_WorkloadName := leaseName l\<rparr>\<rparr>"
    obtain v w2 where u: "updateLeaseStatus (lr_Client r) ?l1 w1 = (Inr (setVersion v (l\<lparr>l_Status := l_Status ?l1\<rparr>)), w2)"
      and h2: "healthy w2" and v2: "view w2 = setLease (leaseName l) (Some (setVersion v (l\<lparr>l_Status := l_Status ?l1\<rparr>))) (view w1)"
      using status_healthy [OF h1 cur1, of ?l1] by auto
    have "createWorkload r l (buildWorkload l) w = (Inr (resultAfter pollInterval), w2)"
      using want c u m False by (simp add: createWorkload_def bnd_attempt_app bnd_app [of "mapErr _ _"] mapErr_app)
    then show ?thesis
      using h2 v2 v1 sp
      by (intro exI [of _ w2] exI [of _ "setVersion v (l\<lparr>l_Status := l_Status ?l1\<rparr>)"] exI [of _ wl]) simp
  qed
qed

lemma leaseReconcile_pending:
  assumes h: "healthy w" and cur: "v_leases (view w) n = Some l" and live: "\<not> leaseDeleting l"
    and fin: "Finalizer \<in> set (leaseFinalizers l)" and ph: "leasePhase l \<in> {PhaseUnset, PhasePending}"
    and new: "v_workloads (view w) (ref_Namespace (claimOf l), n) = None"
  shows "\<exists>w' l' wl. leaseReconcile r n w = (Inr (resultAfter pollInterval), w') \<and> healthy w' \<and>
    view w' = setLease n (Some l') (setWorkload (ref_Namespace (claimOf l), n) (Some wl) (view w)) \<and>
    restatus l l' \<and> leasePhase l' = leasePhase l \<and> wl_Spec wl = wl_Spec (buildWorkload l)"
proof -
  have n: "leaseName l = n" using lease_named [OF h cur] .
  have "reconcilePhase r l w = createWorkload r l (buildWorkload l) w"
    using ph new get_workload [OF h] n by (auto simp: reconcilePhase_def reconcilePending_def Let_def)
  moreover obtain w1 l' wl where "createWorkload r l (buildWorkload l) w = (Inr (resultAfter pollInterval), w1)" "healthy w1"
      "view w1 = setLease n (Some l') (setWorkload (ref_Namespace (claimOf l), n) (Some wl) (view w))"
      "restatus l l'" "leasePhase l' = leasePhase l" "wl_Spec wl = wl_Spec (buildWorkload l)"
    using createWorkload_healthy [OF h, of l] cur new n by auto
  ultimately show ?thesis
    using leaseReconcile_live [OF h cur live fin] refreshMetrics_healthy [of w1]
    by (intro exI [of _ "refreshMetrics r w1"] exI [of _ l'] exI [of _ wl]) simp
qed

section \<open>Finding it admitted\<close>

lemma flavorMismatchEvent_view:
  "healthy w \<Longrightarrow> healthy (flavorMismatchEvent r l wl w) \<and> view (flavorMismatchEvent r l wl w) = view w"
  by (simp add: flavorMismatchEvent_def Let_def lrEvent_view split: sum.splits)

lemma setVersion_created [simp]: "om_CreationTimestamp (l_Meta (setVersion v l)) = om_CreationTimestamp (l_Meta l)"
  by (simp add: setVersion_def)

lemma podActivatedAnchor_status [simp]:
  "podActivatedAnchor lib (setVersion v (l\<lparr>l_Status := st\<rparr>)) = podActivatedAnchor lib (l\<lparr>l_Status := st\<rparr>)"
  by (simp add: podActivatedAnchor_def setVersion_def split: option.split)

lemma admitLease_healthy:
  assumes h: "healthy w" and cur: "v_leases (view w) (leaseName l) = Some l"
  shows "\<exists>w' l'. admitLease r l wl w = (Inr resultRequeue, w') \<and> healthy w' \<and>
    view w' = setLease (leaseName l) (Some l') (view w) \<and> restatus l l' \<and> leasePhase l' = PhaseAdmitted \<and>
    lt_AdmittedAt (l_Status l') \<noteq> None \<and> podActivatedAnchor (lrLib r) l' = podActivatedAnchor (lrLib r) l"
proof -
  let ?m = "admitMessage r l wl w" and ?w1 = "flavorMismatchEvent r l wl w"
  let ?b = "(setPhase PhaseAdmitted ?m l)\<lparr>l_Status := (l_Status (setPhase PhaseAdmitted ?m l))\<lparr>lt_AdmittedAt := Some (lrNow r ?w1)\<rparr>\<rparr>"
  let ?l1 = "setLeaseCondition r ConditionQuotaReserved ConditionTrue ''Admitted'' ?m ?w1 ?b"
  note e = flavorMismatchEvent_view [OF h, of l wl]
  have cur1: "v_leases (view ?w1) (leaseName l) = Some l" using e cur by simp
  obtain v w2 where u: "updateLeaseStatus (lr_Client r) ?l1 ?w1 = (Inr (setVersion v (l\<lparr>l_Status := l_Status ?l1\<rparr>)), w2)"
    and h2: "healthy w2" and v2: "view w2 = setLease (leaseName l) (Some (setVersion v (l\<lparr>l_Status := l_Status ?l1\<rparr>))) (view ?w1)"
    using status_healthy [OF _ cur1, of ?l1] e by auto
  let ?l' = "setVersion v (l\<lparr>l_Status := l_Status ?l1\<rparr>)"
  let ?w3 = "lrEvent r ?l' EventTypeNormal EventReasonQuotaReserved ?m w2"
  have "admitLease r l wl w = (Inr resultRequeue, ?w3)"
    using u by (simp add: admitLease_def bnd_app [of "mapErr _ _"] mapErr_app Let_def)
  moreover have "healthy ?w3" "view ?w3 = view w2" using h2 by (simp_all add: lrEvent_view)
  moreover have "lt_AdmittedAt (l_Status ?l1) \<noteq> None" by (simp add: setLeaseCondition_def)
  moreover have "podActivatedAnchor (lrLib r) ?l' = podActivatedAnchor (lrLib r) l"
    by (simp add: podActivatedAnchor_status) (simp add: podActivatedAnchor_def setLeaseCondition_def setPhase_def
        set_condition_other condition_type_defs split: option.split)
  ultimately show ?thesis
    using e v2 by (intro exI [of _ ?w3] exI [of _ ?l']) simp
qed

lemma leaseReconcile_admits:
  assumes h: "healthy w" and cur: "v_leases (view w) n = Some l" and live: "\<not> leaseDeleting l"
    and fin: "Finalizer \<in> set (leaseFinalizers l)" and ph: "leasePhase l \<in> {PhaseUnset, PhasePending}"
    and wl: "v_workloads (view w) (ref_Namespace (claimOf l), n) = Some wl"
    and spec: "wl_Spec wl = wl_Spec (buildWorkload l)" and adm: "isWorkloadAdmitted (lrLib r) wl"
  shows "\<exists>w' l'. leaseReconcile r n w = (Inr resultRequeue, w') \<and> healthy w' \<and>
    view w' = setLease n (Some l') (view w) \<and> restatus l l' \<and> leasePhase l' = PhaseAdmitted \<and>
    lt_AdmittedAt (l_Status l') \<noteq> None"
proof -
  have n: "leaseName l = n" using lease_named [OF h cur] .
  have "reconcilePhase r l w = admitLease r l wl w"
    using ph wl spec adm get_workload [OF h] n
    by (auto simp: reconcilePhase_def reconcilePending_def workloadMatchesSpec_def deep_equal evaluateAdmission_def Let_def)
  moreover obtain w1 l' where "admitLease r l wl w = (Inr resultRequeue, w1)" "healthy w1"
      "view w1 = setLease n (Some l') (view w)" "restatus l l'" "leasePhase l' = PhaseAdmitted"
      "lt_AdmittedAt (l_Status l') \<noteq> None"
    using admitLease_healthy [OF h, of l wl] cur n by auto
  ultimately show ?thesis
    using leaseReconcile_live [OF h cur live fin] refreshMetrics_healthy [of w1]
    by (intro exI [of _ "refreshMetrics r w1"] exI [of _ l']) simp
qed

end

end
