(* ===== verification/PodWorld.thy ===== *)
theory PodWorld
  imports Journey PodServer
begin

text \<open>
  The composition of the two programs: the controller's reconciler, talking to an API server
  and, through its HTTP client, to the servers that run in the pods. A world is a cluster and
  a network of pod servers; \<open>withPods\<close> moves a reconciler from the cluster to that world and
  gives it the HTTP client. Whatever cluster the reconciler meets its interface on, the
  composition meets it too.
\<close>

section \<open>The world\<close>

record ('c, 'f) World =
  wd_cluster :: 'c
  wd_net :: "'f Net"

definition onCluster :: "('c, 'a) go \<Rightarrow> (('c, 'f) World, 'a) go" where
  "onCluster p w = (case p (wd_cluster w) of (res, c) \<Rightarrow> (res, w\<lparr>wd_cluster := c\<rparr>))"

definition onNet :: "('f Net, 'a) go \<Rightarrow> (('c, 'f) World, 'a) go" where
  "onNet p w = (case p (wd_net w) of (res, nt) \<Rightarrow> (res, w\<lparr>wd_net := nt\<rparr>))"

lemma onCluster_app: "onCluster p w = (fst (p (wd_cluster w)), w\<lparr>wd_cluster := snd (p (wd_cluster w))\<rparr>)"
  by (simp add: onCluster_def split: prod.splits)

lemma onNet_app: "onNet p w = (fst (p (wd_net w)), w\<lparr>wd_net := snd (p (wd_net w))\<rparr>)"
  by (simp add: onNet_def split: prod.splits)

definition worldClient :: "'c Client \<Rightarrow> ('c, 'f) World Client" where
  "worldClient c =
     \<lparr> getLease = (\<lambda>n w. getLease c n (wd_cluster w)), listLeases = (\<lambda>w. listLeases c (wd_cluster w)),
       createLease = (\<lambda>l. onCluster (createLease c l)), updateLease = (\<lambda>l. onCluster (updateLease c l)),
       updateLeaseStatus = (\<lambda>l. onCluster (updateLeaseStatus c l)), deleteLease = (\<lambda>l. onCluster (deleteLease c l)),
       getWorkload = (\<lambda>ns n w. getWorkload c ns n (wd_cluster w)),
       createWorkloadObj = (\<lambda>wl. onCluster (createWorkloadObj c wl)),
       deleteWorkloadObj = (\<lambda>ns n. onCluster (deleteWorkloadObj c ns n)),
       getPod = (\<lambda>ns n w. getPod c ns n (wd_cluster w)), listPods = (\<lambda>ns sel w. listPods c ns sel (wd_cluster w)),
       patchPod = (\<lambda>p p'. onCluster (patchPod c p p')),
       getDeployment = (\<lambda>ns n w. getDeployment c ns n (wd_cluster w)),
       listDeployments = (\<lambda>ns w. listDeployments c ns (wd_cluster w)),
       getNode = (\<lambda>n w. getNode c n (wd_cluster w)), listNodes = (\<lambda>w. listNodes c (wd_cluster w)),
       listFlavors = (\<lambda>w. listFlavors c (wd_cluster w)) \<rparr>"

definition worldInventory :: "'c Inventory \<Rightarrow> ('c, 'f) World Inventory" where
  "worldInventory i =
     \<lparr> inv_NodeCapacity = (\<lambda>n w. inv_NodeCapacity i n (wd_cluster w)),
       inv_FreeGPUIDs = (\<lambda>n w. inv_FreeGPUIDs i n (wd_cluster w)),
       inv_AllocateID = (\<lambda>n w. inv_AllocateID i n (wd_cluster w)),
       inv_NodeFreeCounts = (\<lambda>w. inv_NodeFreeCounts i (wd_cluster w)) \<rparr>"

definition worldRuntime :: "'c Runtime \<Rightarrow> ('c, 'f) World Runtime" where
  "worldRuntime rt =
     \<lparr> rt_Lib = rt_Lib rt, rt_Now = (\<lambda>w. rt_Now rt (wd_cluster w)),
       rt_Metric = (\<lambda>m w. w\<lparr>wd_cluster := rt_Metric rt m (wd_cluster w)\<rparr>) \<rparr>"

definition worldPodClient :: "('f Net) PodClient \<Rightarrow> ('c, 'f) World PodClient" where
  "worldPodClient pc =
     \<lparr> cl_Activate = (\<lambda>ip req. onNet (cl_Activate pc ip req)), cl_Release = (\<lambda>ip. onNet (cl_Release pc ip)),
       cl_State = (\<lambda>ip. onNet (cl_State pc ip)) \<rparr>"

definition withPods :: "(string \<Rightarrow> bool) \<Rightarrow> 'c GPULeaseReconciler \<Rightarrow> ('c, 'f) World GPULeaseReconciler" where
  "withPods valid r =
     \<lparr> lr_Client = worldClient (lr_Client r),
       lr_Recorder = map_option (\<lambda>rec ob ty rs m w. w\<lparr>wd_cluster := rec ob ty rs m (wd_cluster w)\<rparr>) (lr_Recorder r),
       lr_PodClient = worldPodClient (httpPodClient (netClient valid)),
       lr_Inventory = map_option worldInventory (lr_Inventory r),
       lr_Clock = map_option (\<lambda>f w. f (wd_cluster w)) (lr_Clock r),
       lr_Runtime = worldRuntime (lr_Runtime r) \<rparr>"

definition worldView :: "('c \<Rightarrow> View) \<Rightarrow> ('c, 'f) World \<Rightarrow> View" where
  "worldView view w = (view (wd_cluster w))\<lparr>v_life := netLifecycle (wd_net w)\<rparr>"

lemma worldView_sel [simp]:
  "v_leases (worldView view w) = v_leases (view (wd_cluster w))" "v_pods (worldView view w) = v_pods (view (wd_cluster w))"
  "v_workloads (worldView view w) = v_workloads (view (wd_cluster w))" "v_life (worldView view w) = netLifecycle (wd_net w)"
  by (simp_all add: worldView_def)

lemma worldView_set:
  "view c = setLease n l (view (wd_cluster w)) \<Longrightarrow> worldView view (w\<lparr>wd_cluster := c\<rparr>) = setLease n l (worldView view w)"
  "view c = setPod k p (view (wd_cluster w)) \<Longrightarrow> worldView view (w\<lparr>wd_cluster := c\<rparr>) = setPod k p (worldView view w)"
  "view c = setWorkload k wl (view (wd_cluster w)) \<Longrightarrow> worldView view (w\<lparr>wd_cluster := c\<rparr>) = setWorkload k wl (worldView view w)"
  "view c = view (wd_cluster w) \<Longrightarrow> worldView view (w\<lparr>wd_cluster := c\<rparr>) = worldView view w"
  by (simp_all add: worldView_def setLease_def setPod_def setWorkload_def)

lemma worldView_net:
  "netLifecycle nt = (netLifecycle (wd_net w))(ip := x) \<Longrightarrow> worldView view (w\<lparr>wd_net := nt\<rparr>) = setLife ip x (worldView view w)"
  "netLifecycle nt = netLifecycle (wd_net w) \<Longrightarrow> worldView view (w\<lparr>wd_net := nt\<rparr>) = worldView view w"
  by (simp_all add: worldView_def setLife_def)

lemma withPods_sel [simp]:
  "lr_Client (withPods valid r) = worldClient (lr_Client r)" "lrLib (withPods valid r) = lrLib r"
  "cl_Activate (lr_PodClient (withPods valid r)) ip req = onNet (hcActivate (netClient valid) ip req)"
  "cl_Release (lr_PodClient (withPods valid r)) ip = onNet (hcRelease (netClient valid) ip)"
  "cl_State (lr_PodClient (withPods valid r)) ip = onNet (hcState (netClient valid) ip)"
  "rt_Metric (lr_Runtime (withPods valid r)) mop w = w\<lparr>wd_cluster := rt_Metric (lr_Runtime r) mop (wd_cluster w)\<rparr>"
  by (simp_all add: withPods_def worldRuntime_def worldPodClient_def httpPodClient_def)

section \<open>The composition meets the reconciler's interface\<close>

lemma worldClient_sel [simp]:
  "getLease (worldClient c) n w = getLease c n (wd_cluster w)" "getPod (worldClient c) ns n w = getPod c ns n (wd_cluster w)"
  "getWorkload (worldClient c) ns n w = getWorkload c ns n (wd_cluster w)"
  "updateLeaseStatus (worldClient c) l = onCluster (updateLeaseStatus c l)"
  "updateLease (worldClient c) l = onCluster (updateLease c l)" "deleteLease (worldClient c) l = onCluster (deleteLease c l)"
  "createWorkloadObj (worldClient c) wl = onCluster (createWorkloadObj c wl)"
  "deleteWorkloadObj (worldClient c) ns n = onCluster (deleteWorkloadObj c ns n)"
  "patchPod (worldClient c) p p' = onCluster (patchPod c p p')"
  by (simp_all add: worldClient_def)

lemma onCluster_eq: "p (wd_cluster w) = (res, c) \<Longrightarrow> onCluster p w = (res, w\<lparr>wd_cluster := c\<rparr>)"
  by (simp add: onCluster_app)

context healthy_client
begin

lemma world_client:
  "healthy_client (worldClient c) (worldView view) (\<lambda>w :: ('w, 'f) World. healthy (wd_cluster w))"
proof
  fix w :: "('w, 'f) World" and n ns k l l0 p L A wl
  let ?v = "worldView view" and ?h = "\<lambda>w :: ('w, 'f) World. healthy (wd_cluster w)"
  assume h: "?h w"
  show "leaseName l = n" if "v_leases (?v w) n = Some l"
    using that lease_named [OF h] by simp
  show "k = (podNamespace p, podName p)" if "v_pods (?v w) k = Some p"
    using that pod_named [OF h] by simp
  show "getLease (worldClient c) n w = found (v_leases (?v w) n)" "getPod (worldClient c) ns n w = found (v_pods (?v w) (ns, n))"
    "getWorkload (worldClient c) ns n w = found (v_workloads (?v w) (ns, n))"
    using get_lease [OF h] get_pod [OF h] get_workload [OF h] by simp_all
  show "\<exists>v w'. updateLeaseStatus (worldClient c) l w = (Inr (setVersion v (l0\<lparr>l_Status := l_Status l\<rparr>)), w') \<and> ?h w' \<and>
      ?v w' = setLease (leaseName l) (Some (setVersion v (l0\<lparr>l_Status := l_Status l\<rparr>))) (?v w)"
    if "v_leases (?v w) (leaseName l) = Some l0" and "leaseVersion l0 = leaseVersion l"
    using put_status [OF h, of l l0] that by (fastforce simp: onCluster_eq worldView_set)
  show "\<exists>v w'. let l' = setVersion v (setFinalizers (leaseFinalizers l) (l0\<lparr>l_Spec := l_Spec l\<rparr>)) in
      updateLease (worldClient c) l w = (Inr l', w') \<and> ?h w' \<and>
      ?v w' = setLease (leaseName l) (if leaseDeleting l0 \<and> leaseFinalizers l = [] then None else Some l') (?v w)"
    if cur: "v_leases (?v w) (leaseName l) = Some l0" and ver: "leaseVersion l0 = leaseVersion l"
  proof -
    obtain v c' where "let l' = setVersion v (setFinalizers (leaseFinalizers l) (l0\<lparr>l_Spec := l_Spec l\<rparr>)) in
        updateLease c l (wd_cluster w) = (Inr l', c') \<and> healthy c' \<and>
        view c' = setLease (leaseName l) (if leaseDeleting l0 \<and> leaseFinalizers l = [] then None else Some l') (view (wd_cluster w))"
      using put_lease [OF h _ ver] cur unfolding worldView_sel by blast
    then show ?thesis
      by (intro exI [of _ v] exI [of _ "w\<lparr>wd_cluster := c'\<rparr>"]) (simp add: Let_def onCluster_eq worldView_set)
  qed
  show "\<exists>x w'. deleteLease (worldClient c) l w = (Inr (), w') \<and> ?h w' \<and>
      ?v w' = setLease (leaseName l) (if leaseFinalizers l0 = [] then None else Some x) (?v w) \<and>
      leaseDeleting x \<and> l_Status x = l_Status l0 \<and> l_Spec x = l_Spec l0"
    if "v_leases (?v w) (leaseName l) = Some l0"
    using drop_lease [OF h, of l l0] that by (fastforce simp: onCluster_eq worldView_set)
  show "\<exists>w'. deleteWorkloadObj (worldClient c) ns n w =
      (if v_workloads (?v w) (ns, n) = None then Inl (ErrApi NotFound) else Inr (), w') \<and> ?h w' \<and>
      ?v w' = setWorkload (ns, n) None (?v w)"
    using drop_workload [OF h, of ns n] by (fastforce simp: onCluster_eq worldView_set)
  show "\<exists>wl' w'. createWorkloadObj (worldClient c) wl w = (Inr wl', w') \<and> ?h w' \<and> wl_Spec wl' = wl_Spec wl \<and>
      ?v w' = setWorkload (om_Namespace (wl_Meta wl), om_Name (wl_Meta wl)) (Some wl') (?v w)"
    if "v_workloads (?v w) (om_Namespace (wl_Meta wl), om_Name (wl_Meta wl)) = None"
    using put_workload [OF h, of wl] that by (fastforce simp: onCluster_eq worldView_set)
  show "\<exists>w'. patchPod (worldClient c) p (withMeta p L A) w = (Inr (withMeta p L A), w') \<and> ?h w' \<and>
      ?v w' = setPod (podNamespace p, podName p) (Some (withMeta p L A)) (?v w)"
    if "v_pods (?v w) (podNamespace p, podName p) = Some p"
    using patch_pod [OF h, of p L A] that by (fastforce simp: onCluster_eq worldView_set)
qed

end

text \<open>The network changes only the addressed pod, and only when the call succeeded.\<close>

lemma netLifecycle_upd: "nw_pods nt' = (nw_pods nt)(ip \<mapsto> s) \<Longrightarrow>
    netLifecycle nt' = (netLifecycle nt)(ip := mc_state (sv_machine s))"
  by (simp add: netLifecycle_def fun_eq_iff)

context healthy_env
begin

lemma world_env:
  "healthy_env (withPods valid r) (worldView view) (\<lambda>w :: ('w, 'f) World. healthy (wd_cluster w))"
proof (intro healthy_env.intro)
  let ?h = "\<lambda>w :: ('w, 'f) World. healthy (wd_cluster w)" and ?v = "worldView view :: ('w, 'f) World \<Rightarrow> View"
  let ?R = "withPods valid r :: ('w, 'f) World GPULeaseReconciler"
  show "healthy_client (lr_Client ?R) ?v ?h" using world_client by simp
  show "k8s_lib (lrLib ?R)" by (simp add: k8s_lib_axioms)
  show "healthy_env_axioms ?R ?v ?h"
  proof
    fix w w' :: "('w, 'f) World" and ip req and res :: "goerr + unit" and st eventf ob ty rs m mop l
    show "\<exists>wl. SetControllerReference (lrLib ?R) l (buildWorkload l) = Inr wl"
      using own_workload by simp
    show "?h w' \<and> (res \<noteq> Inr () \<and> ?v w' = ?v w \<or> (\<exists>x \<in> {PcStateActivating, PcStateHot}. ?v w' = setLife ip x (?v w)))"
      if h: "?h w" and c: "cl_Activate (lr_PodClient ?R) ip req w = (res, w')"
    proof -
      obtain nt where n: "hcActivate (netClient valid) ip req (wd_net w) = (res, nt)" and w': "w' = w\<lparr>wd_net := nt\<rparr>"
        using c by (cases "hcActivate (netClient valid) ip req (wd_net w)") (auto simp: onNet_app)
      from hcActivate_net [OF n] consider e where "res = Inl e" "nw_pods nt = nw_pods (wd_net w)"
        | s a m where "Activate req (cfg_NodeName (sv_cfg s)) (nw_now (wd_net w)) (sv_machine s) = (Inr a, m)"
            "nw_pods nt = (nw_pods (wd_net w))(ip \<mapsto> finish (nw_now (wd_net w)) a m s)"
        by blast
      then show ?thesis
      proof cases
        case 1
        with h w' show ?thesis using worldView_net(2) [OF netLifecycle_same, of nt w view] by simp
      next
        case (2 s a m)
        note act = 2(1)
        from 2 h w' show ?thesis
          using Activate_commits [OF act] worldView_net(1) [OF netLifecycle_upd, of nt w ip] by (auto simp: state_names)
      qed
    qed
    show "?h w' \<and> (res \<noteq> Inr () \<and> ?v w' = ?v w \<or>
        (\<exists>x. x \<notin> {PcStateActivating, PcStateHot} \<and> ?v w' = setLife ip x (?v w)))"
      if h: "?h w" and c: "cl_Release (lr_PodClient ?R) ip w = (res, w')"
    proof -
      obtain nt where n: "hcRelease (netClient valid) ip (wd_net w) = (res, nt)" and w': "w' = w\<lparr>wd_net := nt\<rparr>"
        using c by (cases "hcRelease (netClient valid) ip (wd_net w)") (auto simp: onNet_app)
      from hcRelease_net [OF n] consider e where "res = Inl e" "nw_pods nt = nw_pods (wd_net w)"
        | s a m where "Release (sv_machine s) = (a, m)"
            "nw_pods nt = (nw_pods (wd_net w))(ip \<mapsto> finish (nw_now (wd_net w)) a m s)"
        by blast
      then show ?thesis
      proof cases
        case 1
        with h w' show ?thesis using worldView_net(2) [OF netLifecycle_same, of nt w view] by simp
      next
        case (2 s a m)
        from 2 h w' show ?thesis
          using Release_lets_go [OF 2(1)] worldView_net(1) [OF netLifecycle_upd, of nt w ip]
          by (auto simp: state_names intro!: exI [of _ "mc_state m"])
      qed
    qed
    show "?h w' \<and> ?v w' = ?v w \<and> (\<forall>s. st = Inr s \<longrightarrow> sr_State s = v_life (?v w) ip)"
      if h: "?h w" and c: "cl_State (lr_PodClient ?R) ip w = (st, w')"
    proof -
      obtain nt where n: "hcState (netClient valid) ip (wd_net w) = (st, nt)" and w': "w' = w\<lparr>wd_net := nt\<rparr>"
        using c by (cases "hcState (netClient valid) ip (wd_net w)") (auto simp: onNet_app)
      show ?thesis
        using hcState_net [OF n] h w' worldView_net(2) [OF netLifecycle_same, of nt w] by (auto simp: netLifecycle_def)
    qed
    show "?h (eventf ob ty rs m w) \<and> ?v (eventf ob ty rs m w) = ?v w"
      if "?h w" and "lr_Recorder ?R = Some eventf"
      using that record_event [of "wd_cluster w"] by (auto simp: withPods_def worldView_set)
    show "?h (rt_Metric (lr_Runtime ?R) mop w) \<and> ?v (rt_Metric (lr_Runtime ?R) mop w) = ?v w" if "?h w"
      using that set_metric [of "wd_cluster w"] by (simp add: worldView_set)
  qed
qed

end

section \<open>Who touches the pods\<close>

text \<open>
  Talking to the API server, recording events and setting metrics leave the pods alone, so what
  a reconcile does to them is what its calls of the pod client do.
\<close>

locale pods_frame =
  fixes r :: "'w GPULeaseReconciler" and pods :: "'w \<Rightarrow> 'n"
    and onActivate :: "string \<Rightarrow> ActivateRequest \<Rightarrow> 'n \<Rightarrow> 'n" and onRelease :: "string \<Rightarrow> 'n \<Rightarrow> 'n"
    and onState :: "string \<Rightarrow> 'n \<Rightarrow> 'n"
  assumes activate_pods: "pods (snd (cl_Activate (lr_PodClient r) ip req w)) = onActivate ip req (pods w)"
    and release_pods: "pods (snd (cl_Release (lr_PodClient r) ip w)) = onRelease ip (pods w)"
    and state_pods: "pods (snd (cl_State (lr_PodClient r) ip w)) = onState ip (pods w)"
    and status_frame: "pods (snd (updateLeaseStatus (lr_Client r) l w)) = pods w"
    and update_frame: "pods (snd (updateLease (lr_Client r) l w)) = pods w"
    and create_frame: "pods (snd (createWorkloadObj (lr_Client r) wl w)) = pods w"
    and delete_frame: "pods (snd (deleteWorkloadObj (lr_Client r) ns nm w)) = pods w"
    and patch_frame: "pods (snd (patchPod (lr_Client r) p p' w)) = pods w"
    and event_frame: "lr_Recorder r = Some eventf \<Longrightarrow> pods (eventf ob ty rs m w) = pods w"
    and metric_frame: "pods (rt_Metric (lr_Runtime r) mop w) = pods w"
begin

definition keeps :: "('w, 'a) go \<Rightarrow> bool" where
  "keeps p \<longleftrightarrow> (\<forall>w. pods (snd (p w)) = pods w)"

lemma keepsD: "keeps p \<Longrightarrow> pods (snd (p w)) = pods w"
  by (simp add: keeps_def)

lemma keeps_calls [simp]:
  "keeps (updateLeaseStatus (lr_Client r) l)" "keeps (updateLease (lr_Client r) l)"
  "keeps (createWorkloadObj (lr_Client r) wl)" "keeps (deleteWorkloadObj (lr_Client r) ns nm)"
  "keeps (patchPod (lr_Client r) p p')"
  by (simp_all add: keeps_def status_frame update_frame create_frame delete_frame patch_frame)

lemma keeps_basic [simp]: "keeps (ret x)" "keeps (throw e)" "keeps (query q)" "keeps (asks f)"
  by (simp_all add: keeps_def)

lemma keeps_act: "(\<And>w. pods (f w) = pods w) \<Longrightarrow> keeps (act f)"
  by (simp add: keeps_def)

lemma keeps_bnd: "keeps p \<Longrightarrow> (\<And>x. keeps (f x)) \<Longrightarrow> keeps (bnd p f)"
  by (auto simp: keeps_def bnd_app split: prod.splits sum.splits) (metis snd_conv)+

lemma prog_world [simp]: "snd (mapErr g p w) = snd (p w)" "snd (attempt p w) = snd (p w)"
  by (simp_all add: mapErr_app attempt_app split: prod.splits sum.splits)

lemma keeps_mapErr [simp]: "keeps (mapErr g p) = keeps p" "keeps (attempt p) = keeps p"
  by (simp_all add: keeps_def)

lemmas keeps_rules = keeps_bnd keeps_act

lemma lrEvent_keeps [simp]: "pods (lrEvent r l ty rs m w) = pods w"
  by (cases "lr_Recorder r") (simp_all add: lrEvent_def event_frame)

lemma fold_metric_keeps: "pods (fold (\<lambda>(n, x). rt_Metric (lr_Runtime r) (f n x)) xs w) = pods w"
  by (induction xs arbitrary: w) (auto simp: metric_frame)

lemma refreshMetrics_keeps [simp]: "pods (refreshMetrics r w) = pods w"
  by (simp add: refreshMetrics_def Let_def fold_metric_keeps split: sum.splits option.splits)

lemma flavorMismatchEvent_keeps [simp]: "pods (flavorMismatchEvent r l wl w) = pods w"
  by (simp add: flavorMismatchEvent_def Let_def split: sum.splits)

lemma createWorkload_keeps: "keeps (createWorkload r l want)"
  unfolding createWorkload_def by (intro keeps_rules) (simp_all split: sum.split)

lemma admitLease_keeps: "keeps (admitLease r l wl)"
  unfolding admitLease_def by (intro keeps_rules) simp_all

lemma bindLease_keeps: "keeps (bindLease r l p)"
  unfolding bindLease_def markPodHot_def Let_def by (intro keeps_rules) simp_all

lemma deleteWorkload_keeps: "keeps (deleteWorkload r l)"
  unfolding deleteWorkload_def by (intro keeps_rules) (simp_all split: sum.split)

end

text \<open>What a reconcile does to the pods, for each kind of reconcile.\<close>

locale healthy_pods = healthy_env r view healthy + pods_frame r pods onActivate onRelease onState
  for r :: "'w GPULeaseReconciler" and view :: "'w \<Rightarrow> View" and healthy :: "'w \<Rightarrow> bool" and pods :: "'w \<Rightarrow> 'n"
    and onActivate onRelease onState
begin

lemma pods_live:
  assumes "healthy w" and "v_leases (view w) n = Some l" and "\<not> leaseDeleting l" and "Finalizer \<in> set (leaseFinalizers l)"
  shows "pods (snd (leaseReconcile r n w)) = pods (snd (reconcilePhase r l w))"
  using leaseReconcile_live [OF assms] by (simp split: prod.splits)

lemma pods_pending:
  assumes h: "healthy w" and cur: "v_leases (view w) n = Some l" and live: "\<not> leaseDeleting l"
    and fin: "Finalizer \<in> set (leaseFinalizers l)" and ph: "leasePhase l \<in> {PhaseUnset, PhasePending}"
    and wl: "\<And>wl. v_workloads (view w) (ref_Namespace (claimOf l), n) = Some wl \<Longrightarrow>
      wl_Spec wl = wl_Spec (buildWorkload l) \<and> isWorkloadAdmitted (lrLib r) wl"
  shows "pods (snd (leaseReconcile r n w)) = pods w"
proof -
  have n: "leaseName l = n" using lease_named [OF h cur] .
  have "\<exists>p. keeps p \<and> reconcilePhase r l w = p w"
  proof (cases "v_workloads (view w) (ref_Namespace (claimOf l), n)")
    case None
    then have "reconcilePhase r l w = createWorkload r l (buildWorkload l) w"
      using ph get_workload [OF h] n by (auto simp: reconcilePhase_def reconcilePending_def Let_def)
    then show ?thesis using createWorkload_keeps by blast
  next
    case (Some x)
    then have "reconcilePhase r l w = admitLease r l x w"
      using ph wl [OF Some] get_workload [OF h] n
      by (auto simp: reconcilePhase_def reconcilePending_def workloadMatchesSpec_def deep_equal evaluateAdmission_def Let_def)
    then show ?thesis using admitLease_keeps by blast
  qed
  then show ?thesis using pods_live [OF h cur live fin] keepsD by fastforce
qed

lemma pods_admitted:
  assumes h: "healthy w" and cur: "v_leases (view w) n = Some l" and live: "\<not> leaseDeleting l"
    and fin: "Finalizer \<in> set (leaseFinalizers l)" and ph: "leasePhase l = PhaseAdmitted"
    and p: "v_pods (view w) (ref_Namespace (claimOf l), ref_Name (claimOf l)) = Some p"
    and valid: "claimValid (Some p) l None" and ip: "p_PodIP p \<noteq> ''''"
    and acc: "fst (cl_Activate (lr_PodClient r) (p_PodIP p) (activateRequest l) w) = Inr ()"
  shows "pods (snd (leaseReconcile r n w)) = onActivate (p_PodIP p) (activateRequest l) (pods w)"
proof -
  let ?m = "Sprintf ''POST /lease accepted by pod %s/%s; waiting for state hot'' (podRefArgs p)"
  let ?k = "bnd (asks (\<lambda>w. setLeaseCondition r ConditionPodActivated ConditionFalse ''Activating'' ?m w
         (setPhase PhaseActivating ?m l))) (\<lambda>lease.
       bnd (wrapErr ''update lease status to Activating'' (updateLeaseStatus (lr_Client r) lease)) (\<lambda>lease.
       bnd (act (lrEvent r lease EventTypeNormal EventReasonActivating ?m)) (\<lambda>_.
       ret (resultAfter pollInterval))))"
  have "reconcilePhase r l w = ?k (snd (cl_Activate (lr_PodClient r) (p_PodIP p) (activateRequest l) w))"
    using ph ip acc by (simp add: reconcilePhase_def reconcileAdmitted_def withClaim_healthy [OF h p valid]
        bnd_attempt_app Let_def)
  moreover have "keeps ?k" by (intro keeps_rules) simp_all
  ultimately show ?thesis
    using pods_live [OF h cur live fin] keepsD [of ?k] activate_pods by simp
qed

lemma pods_activating:
  assumes h: "healthy w" and cur: "v_leases (view w) n = Some l" and live: "\<not> leaseDeleting l"
    and fin: "Finalizer \<in> set (leaseFinalizers l)" and ph: "leasePhase l = PhaseActivating"
    and p: "v_pods (view w) (ref_Namespace (claimOf l), ref_Name (claimOf l)) = Some p"
    and valid: "claimValid (Some p) l None" and hot: "v_life (view w) (p_PodIP p) = PcStateHot"
    and ans: "\<exists>s. fst (cl_State (lr_PodClient r) (p_PodIP p) w) = Inr s"
  shows "pods (snd (leaseReconcile r n w)) = onState (p_PodIP p) (pods w)"
proof -
  obtain s w1 where st: "cl_State (lr_PodClient r) (p_PodIP p) w = (Inr s, w1)" using ans by (metis prod.collapse)
  then have "sr_State s = PcStateHot" using pod_state [OF h st] hot by simp
  with st ph have "reconcilePhase r l w = bindLease r l p w1"
    by (simp add: reconcilePhase_def reconcileActivating_def withClaim_healthy [OF h p valid] bnd_attempt_app)
  then show ?thesis
    using pods_live [OF h cur live fin] keepsD [OF bindLease_keeps] state_pods [of "p_PodIP p" w] st by simp
qed

lemma revert_keeps: "pods (snd (revertPodToWarm (lr_Client r) p w)) = pods w"
  by (simp add: revertPodToWarm_def patch_frame)

lemma releaseClaimPod_pods:
  assumes "healthy w"
  shows "pods (releaseClaimPod r l w) =
    (case v_pods (view w) (ref_Namespace (claimOf l), ref_Name (claimOf l)) of
       Some p \<Rightarrow> if claims l p \<and> p_PodIP p \<noteq> '''' then onRelease (p_PodIP p) (pods w) else pods w
     | None \<Rightarrow> pods w)"
  using assms by (auto simp: releaseClaimPod_def getClaimPod_healthy claims_def revert_keeps release_pods Let_def
      split: option.splits)

lemma releaseTail_pods:
  assumes h: "healthy w"
  shows "pods (snd (releaseTail l w)) = pods (releaseClaimPod r l w)"
proof -
  obtain w1 where d: "deleteWorkload r l w = (Inr (), w1)" and h1: "healthy w1"
    and v1: "view w1 = setWorkload (ref_Namespace (claimOf l), leaseName l) None (view w)"
    using deleteWorkload_healthy [OF h] .
  have "pods w1 = pods w" using keepsD [OF deleteWorkload_keeps, of l w] d by simp
  then have same: "pods (releaseClaimPod r l w1) = pods (releaseClaimPod r l w)"
    using h h1 v1 by (simp add: releaseClaimPod_pods split: option.split)
  let ?k = "bnd (wrapErr ''remove finalizer'' (updateLease (lr_Client r) (RemoveFinalizer (lrLib r) l Finalizer))) (\<lambda>lease.
     bnd (act (lrEvent r lease EventTypeNormal EventReasonReleased
            (Sprintf ''released GPU lease (node %s, gpu %d)'' [FStr (leaseNode lease), FInt (leaseGPU lease)])))
     (\<lambda>_. ret resultDone))"
  have "keeps ?k" by (intro keeps_rules) simp_all
  moreover have "releaseTail l w = ?k (releaseClaimPod r l w1)"
    using d by (simp add: releaseTail_def bnd_app [of "deleteWorkload r l"])
  ultimately show ?thesis using keepsD [of ?k] same by simp
qed

lemma pods_deletion:
  assumes h: "healthy w" and cur: "v_leases (view w) n = Some l" and del: "leaseDeleting l"
    and fin: "Finalizer \<in> set (leaseFinalizers l)"
  shows "pods (snd (leaseReconcile r n w)) = pods (releaseClaimPod r l w)"
proof -
  have "pods (snd (leaseReconcile r n w)) = pods (snd (reconcileDeletion r l w))"
    using leaseReconcile_deleting [OF h cur del] by (simp split: prod.splits)
  also have "\<dots> = pods (releaseClaimPod r l w)"
  proof (cases "leasePhase l = PhaseReleasing")
    case True
    then show ?thesis using fin releaseTail_pods [OF h, of l] by (simp add: reconcileDeletion_tail)
  next
    case False
    have n: "leaseName l = n" using lease_named [OF h cur] .
    let ?l1 = "l\<lparr>l_Status := (l_Status l)\<lparr>lt_Phase := PhaseReleasing\<rparr>\<rparr>"
    obtain v w1 where u: "updateLeaseStatus (lr_Client r) ?l1 w = (Inr (setVersion v (l\<lparr>l_Status := l_Status ?l1\<rparr>)), w1)"
      and h1: "healthy w1" and v1: "view w1 = setLease n (Some (setVersion v (l\<lparr>l_Status := l_Status ?l1\<rparr>))) (view w)"
      using status_healthy [OF h, of l ?l1] cur n by auto
    let ?l' = "setVersion v (l\<lparr>l_Status := l_Status ?l1\<rparr>)"
    have "pods w1 = pods w" using keepsD [OF keeps_calls(1), of ?l1 w] u by simp
    moreover have "claims ?l' = claims l" by (simp add: claims_def fun_eq_iff)
    ultimately have "pods (releaseClaimPod r ?l' w1) = pods (releaseClaimPod r l w)"
      using h h1 v1 by (simp add: releaseClaimPod_pods cong: option.case_cong if_cong)
    moreover have "reconcileDeletion r l w = releaseTail ?l' w1"
      using u False fin by (simp add: reconcileDeletion_tail bnd_app [of "mapErr _ _"] mapErr_app)
    ultimately show ?thesis using releaseTail_pods [OF h1, of ?l'] by simp
  qed
  finally show ?thesis .
qed

end

section \<open>The composition's interfaces\<close>

text \<open>Only the HTTP client reaches the network.\<close>

interpretation wpf: pods_frame "withPods valid r" wd_net
  "\<lambda>ip req nt. snd (hcActivate (netClient valid) ip req nt)" "\<lambda>ip nt. snd (hcRelease (netClient valid) ip nt)"
  "\<lambda>ip nt. snd (hcState (netClient valid) ip nt)" for valid r
  by unfold_locales (auto simp: onCluster_app onNet_app withPods_def worldRuntime_def worldPodClient_def httpPodClient_def)

context healthy_env
begin

lemma world_pods:
  "healthy_pods (withPods valid r) (worldView view) (\<lambda>w :: ('w, 'f) World. healthy (wd_cluster w)) wd_net
    (\<lambda>ip req nt. snd (hcActivate (netClient valid) ip req nt)) (\<lambda>ip nt. snd (hcRelease (netClient valid) ip nt))
    (\<lambda>ip nt. snd (hcState (netClient valid) ip nt))"
  by (intro healthy_pods.intro world_env wpf.pods_frame_axioms)

end

end
