(* ===== verification/EndToEnd.thy ===== *)
theory EndToEnd
  imports PodWorld Examples
begin

text \<open>
  Leases from one end of the system to the other: from the lease the warm pool created, through
  Kueue's admission and the controller's reconciles, over HTTP into the pod, its state machine
  and its timers, and back into the cluster's objects; and the same way back when the lease is
  deleted. Every part is the model of the code; Kueue is an arbitrary function that admits the
  Workloads it finds.
\<close>

section \<open>The environment's part\<close>

text \<open>Time passes for the pods: the timers that become due fire.\<close>

definition elapse :: "duration \<Rightarrow> 'f Net \<Rightarrow> 'f Net" where
  "elapse d nt = nt\<lparr>nw_now := nw_now nt + d, nw_pods := (\<lambda>ip. map_option (fireDue (nw_now nt + d)) (nw_pods nt ip))\<rparr>"

text \<open>Kueue admits every Workload it finds and touches nothing else.\<close>

definition admitsAll :: "K8sLib \<Rightarrow> ('c \<Rightarrow> View) \<Rightarrow> ('c \<Rightarrow> bool) \<Rightarrow> ('c \<Rightarrow> 'c) \<Rightarrow> bool" where
  "admitsAll lib view healthy kueue \<longleftrightarrow>
     (\<forall>c. healthy c \<longrightarrow> healthy (kueue c) \<and> v_leases (view (kueue c)) = v_leases (view c) \<and>
        v_pods (view (kueue c)) = v_pods (view c) \<and>
        (\<forall>k wl. v_workloads (view c) k = Some wl \<longrightarrow>
           (\<exists>wl'. v_workloads (view (kueue c)) k = Some wl' \<and> wl_Spec wl' = wl_Spec wl \<and> isWorkloadAdmitted lib wl')))"

text \<open>
  The pod at this address answers, is warm and runs on this node; timers of earlier activations may
  still be armed, but none of the generation the next activation opens.
\<close>

definition warmPodAt :: "(string \<Rightarrow> bool) \<Rightarrow> string \<Rightarrow> string \<Rightarrow> 'f Server \<Rightarrow> 'f Net \<Rightarrow> bool" where
  "warmPodAt valid ip node s nt \<longleftrightarrow>
     plainHost ip \<and> valid (podURL ip ''lease'') \<and> valid (podURL ip ''state'') \<and> ip \<notin> set (nw_down nt) \<and>
     ip \<notin> set (nw_lost nt) \<and> nw_pods nt ip = Some s \<and> mc_state (sv_machine s) = StateWarm \<and>
     (\<forall>(due, x) \<in> set (sv_timers s). timerGen x \<noteq> mc_gen (sv_machine s) + 1) \<and> cfg_NodeName (sv_cfg s) = node"

section \<open>The pod's part\<close>

definition activated :: "gotime \<Rightarrow> ActivateRequest \<Rightarrow> 'f Server \<Rightarrow> 'f Server" where
  "activated now req s =
     (case Activate req (cfg_NodeName (sv_cfg s)) now (sv_machine s) of
        (Inr a, m) \<Rightarrow> finish now a m s
      | (Inl e, m) \<Rightarrow> s)"

lemma hcActivate_accepts:
  assumes "warmPodAt valid ip (ar_Node req) s nt"
  shows "hcActivate (netClient valid) ip req nt =
    (Inr (), nt\<lparr>nw_pods := (nw_pods nt)(ip \<mapsto> activated (nw_now nt) req s)\<rparr>)"
  using assms by (simp add: warmPodAt_def hcActivate_def bnd_app mapErr_app newRequest_app netClient_call url_lease netDo_plain
      serve_lease handleActivate_def Activate_def activated_def status_code_defs Let_def)

lemma hcState_answers:
  assumes "plainHost ip" and "valid (podURL ip ''state'')" and "ip \<notin> set (nw_down nt)" and "ip \<notin> set (nw_lost nt)"
    and "nw_pods nt ip = Some s"
  shows "\<exists>x. fst (hcState (netClient valid) ip nt) = Inr x"
  using assms by (simp add: hcState_def bnd_app mapErr_app newRequest_app netClient_call url_state netDo_plain
      serve_lease handleState_def status_code_defs Let_def)

lemma activated_fires:
  assumes "mc_state (sv_machine s) = StateWarm" and "\<forall>(due, x) \<in> set (sv_timers s). timerGen x \<noteq> mc_gen (sv_machine s) + 1"
    and "cfg_NodeName (sv_cfg s) = ar_Node req" and "now + mc_warmup (sv_machine s) \<le> t"
  shows "IsHot (sv_machine (fireDue t (activated now req s)))"
    and "mc_leaseName (sv_machine (fireDue t (activated now req s))) = ar_LeaseName req"
    and "mc_gpuID (sv_machine (fireDue t (activated now req s))) = ar_GPUID req"
proof -
  let ?s = "activated now req s"
  have m: "mc_leaseName (sv_machine ?s) = ar_LeaseName req" "mc_gpuID (sv_machine ?s) = ar_GPUID req"
    using assms(1,3) by (simp_all add: activated_def Activate_def Let_def)
  have "warming (now + mc_warmup (sv_machine s)) (sv_machine ?s) ?s"
    using assms(1-3) by (simp add: warming_def activated_def Activate_def finish_def onTransition_def Let_def)
  from warming_due [OF this assms(4)] m
  show "IsHot (sv_machine (fireDue t ?s))" "mc_leaseName (sv_machine (fireDue t ?s)) = ar_LeaseName req"
    "mc_gpuID (sv_machine (fireDue t ?s)) = ar_GPUID req"
    by simp_all
qed

section \<open>The controller's part\<close>

text \<open>
  The lease has come this far: it is stored with the claim it started with, in one of these
  phases, and so is its claim pod.
\<close>

definition stage ::
    "('c \<Rightarrow> View) \<Rightarrow> ('c \<Rightarrow> bool) \<Rightarrow> GPULease \<Rightarrow> Pod \<Rightarrow> GPULeasePhase set \<Rightarrow> ('c, 'f) World \<Rightarrow> bool" where
  "stage view healthy l p phs w \<longleftrightarrow>
     healthy (wd_cluster w) \<and>
     (\<exists>l'. v_leases (view (wd_cluster w)) (leaseName l) = Some l' \<and> restatus l l' \<and> leasePhase l' \<in> phs) \<and>
     v_pods (view (wd_cluster w)) (ref_Namespace (claimOf l), ref_Name (claimOf l)) = Some p"

text \<open>A live, protected lease with a valid claim on a pod that has an address.\<close>

definition leaseReady :: "GPULease \<Rightarrow> Pod \<Rightarrow> bool" where
  "leaseReady l p \<longleftrightarrow>
     \<not> leaseDeleting l \<and> Finalizer \<in> set (leaseFinalizers l) \<and> claimValid (Some p) l None \<and> p_PodIP p \<noteq> ''''"

lemma restatus_spec:
  assumes "restatus l l'"
  shows "claimValid q l' sel = claimValid q l sel" "activateRequest l' = activateRequest l"
    "buildWorkload l' = buildWorkload l" "podHotFor l' p = podHotFor l p"
  using assms by (simp_all add: restatus_def claimValid_def activateRequest_def buildWorkload_def workloadName_def podHotFor_def)

lemma stageE:
  assumes "stage view healthy l p phs w" and "leaseReady l p"
  obtains l' where "v_leases (view (wd_cluster w)) (leaseName l) = Some l'" and "restatus l l'" and "leasePhase l' \<in> phs"
    and "\<not> leaseDeleting l'" and "Finalizer \<in> set (leaseFinalizers l')" and "claimValid (Some p) l' None"
    and "claimOf l' = claimOf l"
proof -
  obtain l' where l': "v_leases (view (wd_cluster w)) (leaseName l) = Some l'" "restatus l l'" "leasePhase l' \<in> phs"
    using assms(1) by (auto simp: stage_def)
  moreover have "\<not> leaseDeleting l'" "Finalizer \<in> set (leaseFinalizers l')" "claimOf l' = claimOf l"
    using l'(2) assms(2) by (simp_all add: restatus_def leaseReady_def)
  moreover have "claimValid (Some p) l' None"
    using restatus_spec(1) [OF l'(2)] assms(2) by (simp add: leaseReady_def)
  ultimately show ?thesis using that by blast
qed

lemma restatus_trans: "restatus a b \<Longrightarrow> restatus b c \<Longrightarrow> restatus a c"
  by (simp add: restatus_def)

context healthy_env
begin

lemma stage_requested:
  assumes st: "stage view healthy l p {PhaseUnset, PhasePending} w" and rd: "leaseReady l p"
    and new: "v_workloads (view (wd_cluster w)) (ref_Namespace (claimOf l), leaseName l) = None"
    and w': "w' = snd (leaseReconcile (withPods valid r) (leaseName l) (w :: ('w, 'f) World))"
  shows "stage view healthy l p {PhaseUnset, PhasePending} w' \<and> wd_net w' = wd_net w \<and>
    (\<exists>wl. v_workloads (view (wd_cluster w')) (ref_Namespace (claimOf l), leaseName l) = Some wl \<and>
       wl_Spec wl = wl_Spec (buildWorkload l))"
proof -
  obtain l1 where l1: "v_leases (view (wd_cluster w)) (leaseName l) = Some l1" "restatus l l1"
      "leasePhase l1 \<in> {PhaseUnset, PhasePending}" "\<not> leaseDeleting l1" "Finalizer \<in> set (leaseFinalizers l1)"
      "claimValid (Some p) l1 None" "claimOf l1 = claimOf l"
    using stageE [OF st rd] .
  have h: "healthy (wd_cluster w)" using st by (simp add: stage_def)
  have "\<exists>w1 l' wl. leaseReconcile (withPods valid r) (leaseName l) w = (Inr (resultAfter pollInterval), w1) \<and>
      healthy (wd_cluster w1) \<and>
      worldView view w1 = setLease (leaseName l) (Some l') (setWorkload (ref_Namespace (claimOf l1), leaseName l) (Some wl) (worldView view w)) \<and>
      restatus l1 l' \<and> leasePhase l' = leasePhase l1 \<and> wl_Spec wl = wl_Spec (buildWorkload l1)"
    by (rule healthy_env.leaseReconcile_pending [OF world_env h]) (use l1 new in simp_all)
  then obtain l' wl where *: "healthy (wd_cluster w')" "restatus l1 l'" "leasePhase l' = leasePhase l1"
      "worldView view w' = setLease (leaseName l) (Some l') (setWorkload (ref_Namespace (claimOf l), leaseName l) (Some wl) (worldView view w))"
      "wl_Spec wl = wl_Spec (buildWorkload l1)"
    using w' l1(7) by auto
  have v: "v_leases (view (wd_cluster w')) (leaseName l) = Some l'"
      "v_workloads (view (wd_cluster w')) (ref_Namespace (claimOf l), leaseName l) = Some wl"
      "v_pods (view (wd_cluster w')) = v_pods (view (wd_cluster w))"
    using arg_cong [OF *(4), of v_leases] arg_cong [OF *(4), of v_workloads] arg_cong [OF *(4), of v_pods] by simp_all
  have "wd_net w' = wd_net w"
    unfolding w' by (rule healthy_pods.pods_pending [OF world_pods h, where l = l1]) (use l1 new in simp_all)
  moreover have "stage view healthy l p {PhaseUnset, PhasePending} w'"
    using st * v l1(2,3) restatus_trans by (auto simp: stage_def)
  ultimately show ?thesis using v(2) *(5) restatus_spec(3) [OF l1(2)] by simp
qed

lemma stage_admitted:
  assumes st: "stage view healthy l p {PhaseUnset, PhasePending} w" and rd: "leaseReady l p"
    and wl: "v_workloads (view (wd_cluster w)) (ref_Namespace (claimOf l), leaseName l) = Some wl"
      "wl_Spec wl = wl_Spec (buildWorkload l)" "isWorkloadAdmitted (lrLib r) wl"
    and w': "w' = snd (leaseReconcile (withPods valid r) (leaseName l) (w :: ('w, 'f) World))"
  shows "stage view healthy l p {PhaseAdmitted} w' \<and> wd_net w' = wd_net w"
proof -
  obtain l1 where l1: "v_leases (view (wd_cluster w)) (leaseName l) = Some l1" "restatus l l1"
      "leasePhase l1 \<in> {PhaseUnset, PhasePending}" "\<not> leaseDeleting l1" "Finalizer \<in> set (leaseFinalizers l1)"
      "claimValid (Some p) l1 None" "claimOf l1 = claimOf l"
    using stageE [OF st rd] .
  have h: "healthy (wd_cluster w)" using st by (simp add: stage_def)
  note same = restatus_spec(3) [OF l1(2)]
  have "\<exists>w1 l'. leaseReconcile (withPods valid r) (leaseName l) w = (Inr resultRequeue, w1) \<and>
      healthy (wd_cluster w1) \<and> worldView view w1 = setLease (leaseName l) (Some l') (worldView view w) \<and>
      restatus l1 l' \<and> leasePhase l' = PhaseAdmitted \<and> lt_AdmittedAt (l_Status l') \<noteq> None"
    by (rule healthy_env.leaseReconcile_admits [OF world_env h]) (use l1 wl same in simp_all)
  then obtain l' where *: "healthy (wd_cluster w')" "restatus l1 l'" "leasePhase l' = PhaseAdmitted"
      "worldView view w' = setLease (leaseName l) (Some l') (worldView view w)"
    using w' by auto
  have v: "v_leases (view (wd_cluster w')) (leaseName l) = Some l'" "v_pods (view (wd_cluster w')) = v_pods (view (wd_cluster w))"
    using arg_cong [OF *(4), of v_leases] arg_cong [OF *(4), of v_pods] by simp_all
  have "wd_net w' = wd_net w"
    unfolding w' by (rule healthy_pods.pods_pending [OF world_pods h, where l = l1]) (use l1 wl same in simp_all)
  then show ?thesis using st * v restatus_trans [OF l1(2)] by (auto simp: stage_def)
qed

lemma stage_activating:
  assumes st: "stage view healthy l p {PhaseAdmitted} w" and rd: "leaseReady l p"
    and pod: "warmPodAt valid (p_PodIP p) (leaseNode l) s (wd_net w)"
    and w': "w' = snd (leaseReconcile (withPods valid r) (leaseName l) (w :: ('w, 'f) World))"
  shows "stage view healthy l p {PhaseActivating} w' \<and>
    wd_net w' = (wd_net w)\<lparr>nw_pods := (nw_pods (wd_net w))(p_PodIP p \<mapsto> activated (nw_now (wd_net w)) (activateRequest l) s)\<rparr>"
proof -
  obtain l1 where l1: "v_leases (view (wd_cluster w)) (leaseName l) = Some l1" "restatus l l1"
      "leasePhase l1 \<in> {PhaseAdmitted}" "\<not> leaseDeleting l1" "Finalizer \<in> set (leaseFinalizers l1)"
      "claimValid (Some p) l1 None" "claimOf l1 = claimOf l"
    using stageE [OF st rd] .
  have h: "healthy (wd_cluster w)" and p: "v_pods (view (wd_cluster w)) (ref_Namespace (claimOf l), ref_Name (claimOf l)) = Some p"
    using st by (simp_all add: stage_def)
  have ip: "p_PodIP p \<noteq> ''''" using rd by (simp add: leaseReady_def)
  have acc: "hcActivate (netClient valid) (p_PodIP p) (activateRequest l1) (wd_net w) = (Inr (), (wd_net w)\<lparr>nw_pods :=
      (nw_pods (wd_net w))(p_PodIP p \<mapsto> activated (nw_now (wd_net w)) (activateRequest l) s)\<rparr>)"
    unfolding restatus_spec(2) [OF l1(2)] by (rule hcActivate_accepts) (use pod in \<open>simp add: activateRequest_def\<close>)
  have "\<exists>w1 l'. leaseReconcile (withPods valid r) (leaseName l) w = (Inr (resultAfter pollInterval), w1) \<and>
      healthy (wd_cluster w1) \<and> v_leases (worldView view w1) = (v_leases (worldView view w))(leaseName l \<mapsto> l') \<and>
      leasePhase l' = PhaseActivating \<and> restatus l1 l' \<and> l_Spec l' = l_Spec l1 \<and>
      v_life (worldView view w1) (p_PodIP p) \<in> {PcStateActivating, PcStateHot} \<and>
      v_pods (worldView view w1) = v_pods (worldView view w) \<and> v_workloads (worldView view w1) = v_workloads (worldView view w)"
    by (rule healthy_env.leaseReconcile_admitted [OF world_env h, where p = p])
      (use l1 p ip acc in \<open>simp_all add: onNet_app\<close>)
  then have "stage view healthy l p {PhaseActivating} w'"
    using w' p restatus_trans [OF l1(2)] by (auto simp: stage_def)
  moreover have "wd_net w' = snd (hcActivate (netClient valid) (p_PodIP p) (activateRequest l1) (wd_net w))"
    unfolding w' by (rule healthy_pods.pods_admitted [OF world_pods h, where p = p])
      (use l1 p ip acc in \<open>simp_all add: onNet_app\<close>)
  ultimately show ?thesis using acc by simp
qed

lemma stage_bound:
  assumes st: "stage view healthy l p {PhaseActivating} w" and rd: "leaseReady l p"
    and net: "plainHost (p_PodIP p)" "valid (podURL (p_PodIP p) ''state'')" "p_PodIP p \<notin> set (nw_down (wd_net w))"
      "p_PodIP p \<notin> set (nw_lost (wd_net w))" "nw_pods (wd_net w) (p_PodIP p) = Some s" and hot: "IsHot (sv_machine s)"
    and w': "w' = snd (leaseReconcile (withPods valid r) (leaseName l) (w :: ('w, 'f) World))"
  shows "\<exists>p'. stage view healthy l p' {PhaseBound} w' \<and> podHotFor l p' \<and> nw_pods (wd_net w') = nw_pods (wd_net w)"
proof -
  obtain l1 where l1: "v_leases (view (wd_cluster w)) (leaseName l) = Some l1" "restatus l l1"
      "leasePhase l1 \<in> {PhaseActivating}" "\<not> leaseDeleting l1" "Finalizer \<in> set (leaseFinalizers l1)"
      "claimValid (Some p) l1 None" "claimOf l1 = claimOf l"
    using stageE [OF st rd] .
  have h: "healthy (wd_cluster w)" and p: "v_pods (view (wd_cluster w)) (ref_Namespace (claimOf l), ref_Name (claimOf l)) = Some p"
    using st by (simp_all add: stage_def)
  have life: "v_life (worldView view w) (p_PodIP p) = PcStateHot"
    using net(5) hot by (simp add: netLifecycle_def IsHot_def state_names)
  have ans: "\<exists>x. fst (cl_State (lr_PodClient (withPods valid r)) (p_PodIP p) w) = Inr x"
    using hcState_answers [where valid = valid, OF net] by (simp add: onNet_app)
  have "\<exists>w1 l' p'. leaseReconcile (withPods valid r) (leaseName l) w = (Inr (resultAfter boundPollInterval), w1) \<and>
      healthy (wd_cluster w1) \<and> v_leases (worldView view w1) = (v_leases (worldView view w))(leaseName l \<mapsto> l') \<and>
      leasePhase l' = PhaseBound \<and> restatus l1 l' \<and> l_Spec l' = l_Spec l1 \<and> lt_BoundAt (l_Status l') \<noteq> None \<and>
      v_pods (worldView view w1) = (v_pods (worldView view w))((ref_Namespace (claimOf l1), ref_Name (claimOf l1)) \<mapsto> p') \<and>
      podHotFor l1 p'"
    by (rule healthy_env.leaseReconcile_activating [OF world_env h, where p = p]) (use l1 p life ans in simp_all)
  then obtain p' where "stage view healthy l p' {PhaseBound} w'" "podHotFor l1 p'"
    using w' restatus_trans [OF l1(2)] l1(7) by (auto simp: stage_def)
  moreover have "wd_net w' = snd (hcState (netClient valid) (p_PodIP p) (wd_net w))"
    unfolding w' by (rule healthy_pods.pods_activating [OF world_pods h, where p = p]) (use l1 p life ans in simp_all)
  moreover have "nw_pods (snd (hcState (netClient valid) (p_PodIP p) (wd_net w))) = nw_pods (wd_net w)"
    using hcState_net [of valid "p_PodIP p" "wd_net w"] by (metis prod.collapse)
  ultimately show ?thesis using restatus_spec(4) [OF l1(2)] by auto
qed

end

section \<open>From request to serving pod\<close>

text \<open>
  Four reconciles of the lease: one asks Kueue for quota, Kueue admits, one sees the admission,
  one activates the pod, time \<open>d\<close> passes in the pods, one binds.
\<close>

definition journey ::
    "(string \<Rightarrow> bool) \<Rightarrow> 'c GPULeaseReconciler \<Rightarrow> ('c \<Rightarrow> 'c) \<Rightarrow> duration \<Rightarrow> string \<Rightarrow> ('c, 'f) World \<Rightarrow> ('c, 'f) World" where
  "journey valid r kueue d n w =
     (let reconcile = (\<lambda>w. snd (leaseReconcile (withPods valid r) n w));
          w1 = reconcile w;
          w2 = reconcile (w1\<lparr>wd_cluster := kueue (wd_cluster w1)\<rparr>);
          w3 = reconcile w2
      in reconcile (w3\<lparr>wd_net := elapse d (wd_net w3)\<rparr>))"

text \<open>
  C4: a new lease becomes a serving pod. Start from a live lease that waits for admission, has no
  Workload yet and has a valid claim on a pod that is warm and reachable. If Kueue admits its
  Workload and at least the pod's warm-up time passes, then four reconciles later the lease is
  Bound, the pod object is labelled hot and annotated with this lease, and the state machine in
  the pod is hot, for this lease and its GPU.
\<close>

theorem lease_makes_pod_hot:
  fixes w :: "('c, 'f) World"
  assumes "healthy_env r view healthy" and "admitsAll (lrLib r) view healthy kueue"
    and "stage view healthy l p {PhaseUnset, PhasePending} w" and "leaseReady l p"
    and "v_workloads (view (wd_cluster w)) (ref_Namespace (claimOf l), leaseName l) = None"
    and "warmPodAt valid (p_PodIP p) (leaseNode l) s (wd_net w)" and "mc_warmup (sv_machine s) \<le> d"
    and "w' = journey valid r kueue d (leaseName l) w"
  shows "\<exists>p' s'. stage view healthy l p' {PhaseBound} w' \<and> podHotFor l p' \<and>
    nw_pods (wd_net w') (p_PodIP p) = Some s' \<and> IsHot (sv_machine s') \<and>
    mc_leaseName (sv_machine s') = leaseName l \<and> mc_gpuID (sv_machine s') = leaseGPU l"
proof -
  let ?rec = "\<lambda>w :: ('c, 'f) World. snd (leaseReconcile (withPods valid r) (leaseName l) w)"
  let ?req = "activateRequest l" and ?t = "nw_now (wd_net w)"
  define w1 where "w1 = ?rec w"
  define wk where "wk = w1\<lparr>wd_cluster := kueue (wd_cluster w1)\<rparr>"
  define w2 where "w2 = ?rec wk"
  define w3 where "w3 = ?rec w2"
  define we where "we = w3\<lparr>wd_net := elapse d (wd_net w3)\<rparr>"
  obtain wl where s1: "stage view healthy l p {PhaseUnset, PhasePending} w1" "wd_net w1 = wd_net w"
      "v_workloads (view (wd_cluster w1)) (ref_Namespace (claimOf l), leaseName l) = Some wl" "wl_Spec wl = wl_Spec (buildWorkload l)"
    using healthy_env.stage_requested [OF assms(1,3,4,5) w1_def] by blast
  then obtain wl' where wl': "v_workloads (view (wd_cluster wk)) (ref_Namespace (claimOf l), leaseName l) = Some wl'"
      "wl_Spec wl' = wl_Spec (buildWorkload l)" "isWorkloadAdmitted (lrLib r) wl'"
    using assms(2) by (fastforce simp: admitsAll_def stage_def wk_def)
  have sk: "stage view healthy l p {PhaseUnset, PhasePending} wk" "wd_net wk = wd_net w"
    using s1 assms(2) by (simp_all add: admitsAll_def stage_def wk_def)
  have s2: "stage view healthy l p {PhaseAdmitted} w2" "wd_net w2 = wd_net w"
    using healthy_env.stage_admitted [OF assms(1) sk(1) assms(4) wl' w2_def] sk(2) by simp_all
  have s3: "stage view healthy l p {PhaseActivating} w3"
      "wd_net w3 = (wd_net w)\<lparr>nw_pods := (nw_pods (wd_net w))(p_PodIP p \<mapsto> activated ?t ?req s)\<rparr>"
    using healthy_env.stage_activating [OF assms(1) s2(1) assms(4) _ w3_def, of s] s2(2) assms(6) by simp_all
  have se: "stage view healthy l p {PhaseActivating} we" "nw_down (wd_net we) = nw_down (wd_net w) \<and> nw_lost (wd_net we) = nw_lost (wd_net w)"
      "nw_pods (wd_net we) (p_PodIP p) = Some (fireDue (?t + d) (activated ?t ?req s))"
    using s3 by (simp_all add: we_def stage_def elapse_def)
  have hot: "IsHot (sv_machine (fireDue (?t + d) (activated ?t ?req s)))"
    "mc_leaseName (sv_machine (fireDue (?t + d) (activated ?t ?req s))) = leaseName l"
    "mc_gpuID (sv_machine (fireDue (?t + d) (activated ?t ?req s))) = leaseGPU l"
    using activated_fires [of s ?req ?t "?t + d"] assms(6,7) by (simp_all add: warmPodAt_def activateRequest_def)
  have w': "w' = ?rec we"
    unfolding assms(8) journey_def Let_def we_def w3_def w2_def wk_def w1_def ..
  have "\<exists>p'. stage view healthy l p' {PhaseBound} w' \<and> podHotFor l p' \<and> nw_pods (wd_net w') = nw_pods (wd_net we)"
    by (rule healthy_env.stage_bound [OF assms(1) se(1) assms(4) _ _ _ _ se(3) hot(1) w'])
      (use assms(6) se(2) in \<open>simp_all add: warmPodAt_def\<close>)
  with se(3) hot show ?thesis by auto
qed

section \<open>And back\<close>

definition released :: "gotime \<Rightarrow> 'f Server \<Rightarrow> 'f Server" where
  "released now s = (case Release (sv_machine s) of (a, m) \<Rightarrow> finish now a m s)"

lemma hcRelease_releases:
  assumes "plainHost ip" and "valid (podURL ip ''lease'')" and "ip \<notin> set (nw_down nt)" and "nw_pods nt ip = Some s"
  shows "snd (hcRelease (netClient valid) ip nt) = nt\<lparr>nw_pods := (nw_pods nt)(ip \<mapsto> released (nw_now nt) s)\<rparr>"
  using assms by (auto simp: hcRelease_def bnd_app mapErr_app newRequest_app netClient_call url_lease netDo_plain
      serve_lease handleRelease_def released_def status_code_defs split: prod.splits)

lemma hcRelease_unreachable:
  assumes "plainHost ip" and "ip \<in> set (nw_down nt)"
  shows "snd (hcRelease (netClient valid) ip nt) = nt"
  using assms by (simp add: hcRelease_def bnd_app mapErr_app newRequest_app netClient_call url_lease netDo_plain)

lemma released_fires:
  assumes "IsHot (sv_machine s)" and "sv_timers s = []" and "now + mc_teardown (sv_machine s) \<le> t"
  shows "\<not> IsHot (sv_machine (released now s))"
    and "mc_state (sv_machine (fireDue t (released now s))) = StateWarm"
    and "mc_leaseName (sv_machine (fireDue t (released now s))) = ''''"
    and "mc_gpuID (sv_machine (fireDue t (released now s))) = -1"
  using assms by (simp_all add: released_def Release_def finish_def onTransition_def fireDue_def completeTeardown_def
      clearLeaseLocked_def IsHot_def Let_def)

text \<open>The lease is gone, with its Workload, and the pod object is a warm pod again.\<close>

definition handedBack :: "View \<Rightarrow> GPULease \<Rightarrow> bool" where
  "handedBack v l \<longleftrightarrow> v_leases v (leaseName l) = None \<and> v_workloads v (ref_Namespace (claimOf l), leaseName l) = None \<and>
     (\<exists>p'. v_pods v (ref_Namespace (claimOf l), ref_Name (claimOf l)) = Some p' \<and> podWarm p')"

context healthy_env
begin

lemma deletion_world:
  assumes h: "healthy (wd_cluster w)" and cur: "v_leases (view (wd_cluster w)) (leaseName l) = Some l"
    and del: "leaseDeleting l" and fin: "leaseFinalizers l = [Finalizer]"
    and p: "v_pods (view (wd_cluster w)) (ref_Namespace (claimOf l), ref_Name (claimOf l)) = Some p"
    and mine: "claims l p" and ip: "p_PodIP p \<noteq> ''''"
    and w': "w' = snd (leaseReconcile (withPods valid r) (leaseName l) (w :: ('w, 'f) World))"
  shows "handedBack (view (wd_cluster w')) l \<and>
    v_leases (view (wd_cluster w')) = (v_leases (view (wd_cluster w)))(leaseName l := None) \<and>
    wd_net w' = snd (hcRelease (netClient valid) (p_PodIP p) (wd_net w))"
proof -
  have left: "finalizersLeft l = []" using fin by (simp add: finalizersLeft_def)
  have "\<exists>w1 l'. leaseReconcile (withPods valid r) (leaseName l) w = (Inr resultDone, w1) \<and> healthy (wd_cluster w1) \<and>
      v_leases (worldView view w1) = (v_leases (worldView view w))(leaseName l := if finalizersLeft l = [] then None else Some l') \<and>
      leaseFinalizers l' = finalizersLeft l \<and>
      v_workloads (worldView view w1) = (v_workloads (worldView view w))((ref_Namespace (claimOf l), leaseName l) := None) \<and>
      v_pods (worldView view w1) = releasedPods l (v_pods (worldView view w))"
    by (rule healthy_env.leaseReconcile_deletion [OF world_env h]) (use cur del fin in simp_all)
  then have "handedBack (view (wd_cluster w')) l"
    "v_leases (view (wd_cluster w')) = (v_leases (view (wd_cluster w)))(leaseName l := None)"
    using w' p mine left revertWarm_warm by (auto simp: handedBack_def releasedPods_def)
  moreover have "wd_net w' = wd_net (releaseClaimPod (withPods valid r) l w)"
    unfolding w' by (rule healthy_pods.pods_deletion [OF world_pods h]) (use cur del fin in simp_all)
  moreover have "wd_net (releaseClaimPod (withPods valid r) l w) = snd (hcRelease (netClient valid) (p_PodIP p) (wd_net w))"
    using healthy_pods.releaseClaimPod_pods [OF world_pods h, of valid l] p mine ip by simp
  ultimately show ?thesis by simp
qed

end

text \<open>
  C5: deleting a lease gives the GPU and the pod back. One reconcile of a lease under deletion,
  whose hot claim pod is reachable, removes the lease and its Workload, turns the pod object
  into a warm pod and makes the pod stop serving; once the teardown time has passed, the pod's
  state machine is warm again and holds no GPU.
\<close>

theorem deletion_returns_pod:
  fixes w :: "('c, 'f) World"
  assumes "healthy_env r view healthy" and "healthy (wd_cluster w)" and "v_leases (view (wd_cluster w)) (leaseName l) = Some l"
    and "leaseDeleting l" and "leaseFinalizers l = [Finalizer]"
    and "v_pods (view (wd_cluster w)) (ref_Namespace (claimOf l), ref_Name (claimOf l)) = Some p"
    and "claims l p" and "p_PodIP p \<noteq> ''''" and "plainHost (p_PodIP p)" and "valid (podURL (p_PodIP p) ''lease'')"
    and "p_PodIP p \<notin> set (nw_down (wd_net w))" and "nw_pods (wd_net w) (p_PodIP p) = Some s" and "IsHot (sv_machine s)"
    and "sv_timers s = []" and "mc_teardown (sv_machine s) \<le> d"
    and "w' = snd (leaseReconcile (withPods valid r) (leaseName l) w)"
  shows "handedBack (view (wd_cluster w')) l \<and>
    (\<exists>s'. nw_pods (wd_net w') (p_PodIP p) = Some s' \<and> \<not> IsHot (sv_machine s')) \<and>
    (\<exists>s'. nw_pods (elapse d (wd_net w')) (p_PodIP p) = Some s' \<and> mc_state (sv_machine s') = StateWarm \<and>
       mc_leaseName (sv_machine s') = '''' \<and> mc_gpuID (sv_machine s') = -1)"
proof -
  have "handedBack (view (wd_cluster w')) l"
    and "wd_net w' = snd (hcRelease (netClient valid) (p_PodIP p) (wd_net w))"
    using healthy_env.deletion_world [OF assms(1-8,16)] by simp_all
  moreover note hcRelease_releases [where valid = valid, OF assms(9-12)]
    and released_fires [OF assms(13,14), of "nw_now (wd_net w)" "nw_now (wd_net w) + d"]
  ultimately show ?thesis using assms(15) by (simp add: elapse_def)
qed

text \<open>
  C40: what best effort means for the GPU. If the claim pod cannot be reached while its lease is
  deleted, the reconcile still removes the lease, which frees the GPU for the next lease, and
  still labels the pod warm, while the state machine in the pod stays hot, on that GPU, for the
  lease that no longer exists.
\<close>

theorem unreachable_pod_keeps_gpu:
  fixes w :: "('c, 'f) World"
  assumes "healthy_env r view healthy" and "healthy (wd_cluster w)" and "v_leases (view (wd_cluster w)) (leaseName l) = Some l"
    and "leaseDeleting l" and "leaseFinalizers l = [Finalizer]"
    and "v_pods (view (wd_cluster w)) (ref_Namespace (claimOf l), ref_Name (claimOf l)) = Some p"
    and "claims l p" and "p_PodIP p \<noteq> ''''" and "plainHost (p_PodIP p)" and "p_PodIP p \<in> set (nw_down (wd_net w))"
    and "nw_pods (wd_net w) (p_PodIP p) = Some s" and "IsHot (sv_machine s)" and "sv_timers s = []"
    and "w' = snd (leaseReconcile (withPods valid r) (leaseName l) w)"
  shows "handedBack (view (wd_cluster w')) l \<and>
    (\<exists>s'. nw_pods (elapse d (wd_net w')) (p_PodIP p) = Some s' \<and> IsHot (sv_machine s') \<and>
       mc_leaseName (sv_machine s') = mc_leaseName (sv_machine s) \<and> mc_gpuID (sv_machine s') = mc_gpuID (sv_machine s))"
proof -
  have "fireDue t s = s" for t using assms(13) by (simp add: fireDue_def)
  then show ?thesis
    using healthy_env.deletion_world [OF assms(1-8,14)] hcRelease_unreachable [OF assms(9,10), of valid] assms(11,12)
    by (simp add: elapse_def)
qed

text \<open>
  C39: the release does not ask whose lease the pod holds. If a lease under deletion names a pod
  that by now is hot for another, Bound lease (as when the first lease failed and is still kept
  for diagnosis), its reconcile stops that pod and labels it warm, while the other lease stays
  Bound.
\<close>

theorem stale_deletion_stops_pod:
  fixes w :: "('c, 'f) World"
  assumes "healthy_env r view healthy" and "healthy (wd_cluster w)" and "v_leases (view (wd_cluster w)) (leaseName l) = Some l"
    and "leaseDeleting l" and "leaseFinalizers l = [Finalizer]"
    and "v_pods (view (wd_cluster w)) (ref_Namespace (claimOf l), ref_Name (claimOf l)) = Some p"
    and "claims l p" and "p_PodIP p \<noteq> ''''" and "plainHost (p_PodIP p)" and "valid (podURL (p_PodIP p) ''lease'')"
    and "p_PodIP p \<notin> set (nw_down (wd_net w))" and "nw_pods (wd_net w) (p_PodIP p) = Some s" and "IsHot (sv_machine s)"
    and "mc_leaseName (sv_machine s) = leaseName k" and "leaseName k \<noteq> leaseName l"
    and "v_leases (view (wd_cluster w)) (leaseName k) = Some k" and "leasePhase k = PhaseBound" and "claimOf k = claimOf l"
    and "w' = snd (leaseReconcile (withPods valid r) (leaseName l) w)"
  shows "v_leases (view (wd_cluster w')) (leaseName k) = Some k \<and>
    (\<exists>p'. v_pods (view (wd_cluster w')) (ref_Namespace (claimOf k), ref_Name (claimOf k)) = Some p' \<and> podWarm p') \<and>
    (\<exists>s'. nw_pods (wd_net w') (p_PodIP p) = Some s' \<and> mc_state (sv_machine s') = StateReleasing)"
proof -
  have "handedBack (view (wd_cluster w')) l"
    and "v_leases (view (wd_cluster w')) = (v_leases (view (wd_cluster w)))(leaseName l := None)"
    and "wd_net w' = snd (hcRelease (netClient valid) (p_PodIP p) (wd_net w))"
    using healthy_env.deletion_world [OF assms(1-8,19)] by simp_all
  moreover note hcRelease_releases [where valid = valid, OF assms(9-12)]
  moreover have "mc_state (sv_machine (released t s)) = StateReleasing" for t
    using assms(13) by (simp add: released_def Release_def IsHot_def Let_def)
  ultimately show ?thesis using assms(15,16,18) by (simp add: handedBack_def)
qed

section \<open>On the reference cluster\<close>

interpretation ew: healthy_pods "withPods valid eLeaseReconciler" "worldView eView" "\<lambda>w. eHealthy (wd_cluster w)" wd_net
  "\<lambda>ip req nt. snd (hcActivate (netClient valid) ip req nt)" "\<lambda>ip nt. snd (hcRelease (netClient valid) ip nt)"
  "\<lambda>ip nt. snd (hcState (netClient valid) ip nt)" for valid
  by (rule healthy_env.world_pods [OF ehe.healthy_env_axioms])

definition eKueue :: "Cluster \<Rightarrow> Cluster" where
  "eKueue c = c\<lparr>e_workloads := map (\<lambda>(k, wl). (k, wl\<lparr>wl_Status := (wl_Status wl)\<lparr>wt_Conditions :=
     [\<lparr> cond_Type = WlConditionAdmitted, cond_Status = ConditionTrue, cond_ObservedGeneration = 0,
        cond_LastTransitionTime = e_now c, cond_Reason = '''', cond_Message = Lit '''' \<rparr>]\<rparr>\<rparr>)) (e_workloads c)\<rparr>"

lemma eKueue_admits: "admitsAll eLib eView eHealthy eKueue"
proof -
  have healthy_same: "eHealthy c \<Longrightarrow> eHealthy (eKueue c)" for c by (simp add: eHealthy_def eKueue_def)
  have "v_leases (eView (eKueue c)) = v_leases (eView c)" "v_pods (eView (eKueue c)) = v_pods (eView c)" for c
    by (simp_all add: eView_def eKueue_def)
  moreover have "\<exists>wl'. v_workloads (eView (eKueue c)) k = Some wl' \<and> wl_Spec wl' = wl_Spec wl \<and> isWorkloadAdmitted eLib wl'"
    if "v_workloads (eView c) k = Some wl" for c k wl
    using that by (simp add: eView_def eKueue_def map_of_map isWorkloadAdmitted_def wlCondition_def eLib_def)
  ultimately show ?thesis using healthy_same by (auto simp: admitsAll_def)
qed

definition exWorld :: "GPULease list \<Rightarrow> (Cluster, int) World" where
  "exWorld ls = \<lparr> wd_cluster = exCluster ls, wd_net = exampleNet \<rparr>"

lemma exReady: "leaseReady (setVersion 1 (exLease 0 ph)) exPod"
  using exPod_valid by (simp add: leaseReady_def setVersion_def)

lemma exStage: "stage eView eHealthy (setVersion 1 (exLease 0 PhasePending)) exPod {PhaseUnset, PhasePending}
    (exWorld [exLease 0 PhasePending])"
  by (simp add: stage_def exWorld_def exCluster_view exCluster_leases restatus_def setVersion_def)

lemma exWarmPod: "warmPodAt (\<lambda>_. True) ''10'' ''n1'' (NewServer exampleServerConfig False) exampleNet"
  by (simp add: warmPodAt_def plainHost_def exampleNet_def NewServer_def exampleServerConfig_def NewMachine_def)

theorem lease_makes_pod_hot_witness:
  "\<exists>l' p' s'.
     (let w = journey (\<lambda>_. True) eLeaseReconciler eKueue (10 * Second) ''n1-gpu-0'' (exWorld [exLease 0 PhasePending]) in
      eLeases (wd_cluster w) ''n1-gpu-0'' = Some l' \<and> leasePhase l' = PhaseBound \<and>
      map_of (e_pods (wd_cluster w)) (''ns'', ''p0'') = Some p' \<and> podState p' = StateHot \<and>
      nw_pods (wd_net w) ''10'' = Some s' \<and> IsHot (sv_machine s') \<and> mc_gpuID (sv_machine s') = 0)"
proof -
  let ?l = "setVersion 1 (exLease 0 PhasePending)"
  let ?w = "journey (\<lambda>_. True) eLeaseReconciler eKueue (10 * Second) ''n1-gpu-0'' (exWorld [exLease 0 PhasePending])"
  have sel: "leaseName ?l = ''n1-gpu-0''" "leaseNode ?l = ''n1''" "leaseGPU ?l = 0"
    "claimOf ?l = \<lparr> ref_Namespace = ''ns'', ref_Name = ''p0'', ref_UID = ''u0'' \<rparr>"
    by (simp_all add: setVersion_def)
  have "\<exists>p' s'. stage eView eHealthy ?l p' {PhaseBound} ?w \<and> podHotFor ?l p' \<and>
    nw_pods (wd_net ?w) (p_PodIP exPod) = Some s' \<and> IsHot (sv_machine s') \<and>
    mc_leaseName (sv_machine s') = leaseName ?l \<and> mc_gpuID (sv_machine s') = leaseGPU ?l"
    by (rule lease_makes_pod_hot [OF ehe.healthy_env_axioms _ exStage exReady, where kueue = eKueue and d = "10 * Second"
          and valid = "\<lambda>_. True" and s = "NewServer exampleServerConfig False"])
      (use eKueue_admits exWarmPod sel in \<open>simp_all add: eLeaseReconciler_def eRuntime_def exWorld_def exCluster_view
          exampleServer_warm Second_def\<close>)
  then show ?thesis using sel by (auto simp: stage_def eView_def podHotFor_def Let_def)
qed

definition exHotServer :: "int Server" where
  "exHotServer = (NewServer exampleServerConfig False)\<lparr>sv_machine := (NewMachine exampleConfig)\<lparr>mc_state := StateHot,
     mc_leaseName := ''n1-gpu-0'', mc_node := ''n1'', mc_gpuID := 0\<rparr>\<rparr>"

definition exHotWorld :: "string list \<Rightarrow> (Cluster, int) World" where
  "exHotWorld down = \<lparr> wd_cluster = exCluster [exDeleting],
     wd_net = exampleNet\<lparr>nw_pods := [''10'' \<mapsto> exHotServer], nw_down := down\<rparr> \<rparr>"

lemma exHotServer_sel:
  "IsHot (sv_machine exHotServer)" "sv_timers exHotServer = []" "mc_teardown (sv_machine exHotServer) = 2 * Second"
  "mc_gpuID (sv_machine exHotServer) = 0"
  by (simp_all add: exHotServer_def IsHot_def NewServer_def NewMachine_def exampleConfig_def DefaultTeardownDuration_def)

lemma exDeleting_more:
  "leaseName exDeleting = ''n1-gpu-0''" "leaseFinalizers exDeleting = [Finalizer]" "om_DeletionTimestamp (l_Meta exDeleting) = Some 7"
  "claimOf exDeleting = \<lparr> ref_Namespace = ''ns'', ref_Name = ''p0'', ref_UID = ''u0'' \<rparr>"
  "claims (setVersion v exDeleting) exPod"
  using exPod_claims [of v 0 PhaseUnset] by (simp_all add: exDeleting_def markDeleted_def setVersion_def claims_def)

lemmas exHotWorld_facts = exHotServer_sel exDeleting_more exCluster_view exDeleting_stored

theorem deletion_returns_pod_witness:
  "let w = snd (leaseReconcile (withPods (\<lambda>_. True) eLeaseReconciler) ''n1-gpu-0'' (exHotWorld [])) in
     eLeases (wd_cluster w) ''n1-gpu-0'' = None \<and>
     (\<exists>s'. nw_pods (elapse (2 * Second) (wd_net w)) ''10'' = Some s' \<and> mc_gpuID (sv_machine s') = -1)"
  using deletion_returns_pod [OF ehe.healthy_env_axioms, of "exHotWorld []" "setVersion 1 exDeleting" exPod "\<lambda>_. True"
      exHotServer "2 * Second"]
  by (simp add: exHotWorld_facts exHotWorld_def plainHost_def handedBack_def Let_def) (auto simp: eView_def)

theorem unreachable_pod_keeps_gpu_witness:
  "let w = snd (leaseReconcile (withPods (\<lambda>_. True) eLeaseReconciler) ''n1-gpu-0'' (exHotWorld [''10''])) in
     eLeases (wd_cluster w) ''n1-gpu-0'' = None \<and>
     (\<exists>s'. nw_pods (elapse 0 (wd_net w)) ''10'' = Some s' \<and> IsHot (sv_machine s') \<and> mc_gpuID (sv_machine s') = 0)"
  using unreachable_pod_keeps_gpu [OF ehe.healthy_env_axioms, of "exHotWorld [''10'']" "setVersion 1 exDeleting" exPod
      exHotServer _ "\<lambda>_. True" 0]
  by (simp add: exHotWorld_facts exHotWorld_def plainHost_def handedBack_def Let_def) (auto simp: eView_def)

definition exTwoWorld :: "(Cluster, int) World" where
  "exTwoWorld = \<lparr> wd_cluster = exCluster [exLease 1 PhaseBound, exDeleting],
     wd_net = exampleNet\<lparr>nw_pods := [''10'' \<mapsto> exHotServer\<lparr>sv_machine := (sv_machine exHotServer)\<lparr>mc_leaseName := ''n1-gpu-1'', mc_gpuID := 1\<rparr>\<rparr>],
       nw_down := []\<rparr> \<rparr>"

lemma exTwoWorld_leases:
  "eLeases (exCluster [exLease 1 PhaseBound, exDeleting]) =
     [''n1-gpu-1'' \<mapsto> setVersion 1 (exLease 1 PhaseBound), ''n1-gpu-0'' \<mapsto> setVersion 1 exDeleting]"
  using stamp_exLease [of 1 PhaseBound] stamp_setVersion [of exDeleting "''n1-gpu-0''" 1] exDeleting_more(1)
  by (auto simp: eLeases_def eHist_def exCluster_def fun_eq_iff)

theorem stale_deletion_witness:
  "let w = snd (leaseReconcile (withPods (\<lambda>_. True) eLeaseReconciler) ''n1-gpu-0'' exTwoWorld) in
     (\<exists>k. eLeases (wd_cluster w) ''n1-gpu-1'' = Some k \<and> leasePhase k = PhaseBound) \<and>
     (\<exists>s'. nw_pods (wd_net w) ''10'' = Some s' \<and> mc_state (sv_machine s') = StateReleasing)"
proof -
  let ?s = "exHotServer\<lparr>sv_machine := (sv_machine exHotServer)\<lparr>mc_leaseName := ''n1-gpu-1'', mc_gpuID := 1\<rparr>\<rparr>"
  have "IsHot (sv_machine ?s)" using exHotServer_sel(1) by (simp add: IsHot_def)
  then show ?thesis
    using stale_deletion_stops_pod [OF ehe.healthy_env_axioms, of exTwoWorld "setVersion 1 exDeleting" exPod "\<lambda>_. True" ?s
        "setVersion 1 (exLease 1 PhaseBound)"]
    by (simp add: exDeleting_more exCluster_view exTwoWorld_leases exTwoWorld_def plainHost_def Let_def) (auto simp: eView_def)
qed

end
