(* ===== verification/TestUtils.thy ===== *)
theory TestUtils
  imports GoStd
begin

text \<open>
  \<open>test/utils/utils.go\<close>: the helpers of the end-to-end tests. The operating system (working
  directory, environment, files, commands and the test writer) is a record of functions over
  the world; the string functions of Go's \<open>strings\<close> and \<open>bufio\<close> that the helpers use are
  defined here.
\<close>

section \<open>Strings\<close>

definition NL :: char where "NL = CHR 0x0A"
definition CR :: char where "CR = CHR 0x0D"

text \<open>\<open>strings.Index\<close>: the first position of \<open>t\<close> in \<open>s\<close>, or -1.\<close>

fun indexFrom :: "nat \<Rightarrow> string \<Rightarrow> string \<Rightarrow> int" where
  "indexFrom i [] t = (if t = [] then int i else -1)"
| "indexFrom i (c # s) t = (if take (length t) (c # s) = t then int i else indexFrom (i + 1) s t)"

definition stringsIndex :: "string \<Rightarrow> string \<Rightarrow> int" where
  "stringsIndex s t = indexFrom 0 s t"

definition stringsContains :: "string \<Rightarrow> string \<Rightarrow> bool" where
  "stringsContains s t \<longleftrightarrow> 0 \<le> stringsIndex s t"

definition TrimPrefix :: "string \<Rightarrow> string \<Rightarrow> string" where
  "TrimPrefix s p = (if take (length p) s = p then drop (length p) s else s)"

text \<open>\<open>strings.Split\<close> at one character.\<close>

fun stringsSplit :: "char \<Rightarrow> string \<Rightarrow> string list" where
  "stringsSplit c [] = [[]]"
| "stringsSplit c (x # xs) =
     (if x = c then [] # stringsSplit c xs
      else case stringsSplit c xs of [] \<Rightarrow> [[x]] | l # ls \<Rightarrow> (x # l) # ls)"

fun stringsJoin :: "string \<Rightarrow> string list \<Rightarrow> string" where
  "stringsJoin sep [] = []"
| "stringsJoin sep [x] = x"
| "stringsJoin sep (x # xs) = x @ sep @ stringsJoin sep xs"

text \<open>\<open>strings.Replace(s, old, new, -1)\<close> for a non-empty \<open>old\<close>.\<close>

function replaceAll :: "string \<Rightarrow> string \<Rightarrow> string \<Rightarrow> string" where
  "replaceAll old new s =
     (if s = [] \<or> old = [] then s
      else if take (length old) s = old then new @ replaceAll old new (drop (length old) s)
      else hd s # replaceAll old new (tl s))"
  by pat_completeness auto
termination
  by (relation "measure (\<lambda>(old, new, s). length s)") auto

text \<open>
  The tokens of a \<open>bufio.Scanner\<close> with the default split function: the lines, without their end
  and a carriage return before it; the text after the last newline counts when it is not empty.
  A line that does not fit the scanner's buffer ends the scan.
\<close>

definition MaxScanTokenSize :: nat where "MaxScanTokenSize = 64 * 1024"

definition dropCR :: "string \<Rightarrow> string" where
  "dropCR l = (if l \<noteq> [] \<and> last l = CR then butlast l else l)"

function scanLines :: "string \<Rightarrow> string list" where
  "scanLines s =
     (if s = [] then []
      else let line = takeWhile (\<lambda>c. c \<noteq> NL) s in
        if length line \<ge> MaxScanTokenSize then []
        else dropCR line # scanLines (drop (length line + 1) s))"
  by pat_completeness auto
termination
  by (relation "measure length") auto

declare replaceAll.simps [simp del] scanLines.simps [simp del]

section \<open>The operating system\<close>

record Cmd =
  cmd_Args :: "string list"
  cmd_Dir :: string
  cmd_Env :: "string list"

record 'w Sys =
  sy_Getwd :: "'w \<Rightarrow> string \<times> goerr option"
  sy_Chdir :: "string \<Rightarrow> 'w \<Rightarrow> goerr option \<times> 'w"
  sy_Environ :: "'w \<Rightarrow> string list"
  sy_LookupEnv :: "string \<Rightarrow> 'w \<Rightarrow> string option"
  sy_CombinedOutput :: "Cmd \<Rightarrow> 'w \<Rightarrow> (string \<times> goerr option) \<times> 'w"
  sy_Fprintf :: "msg \<Rightarrow> 'w \<Rightarrow> 'w" \<comment> \<open>to \<open>GinkgoWriter\<close>\<close>
  sy_ReadFile :: "string \<Rightarrow> 'w \<Rightarrow> goerr + string"
  sy_WriteFile :: "string \<Rightarrow> string \<Rightarrow> 'w \<Rightarrow> goerr option \<times> 'w"

definition Command :: "string list \<Rightarrow> Cmd" where
  "Command args = \<lparr> cmd_Args = args, cmd_Dir = '''', cmd_Env = [] \<rparr>"

section \<open>Helpers\<close>

definition prometheusOperatorVersion :: string where "prometheusOperatorVersion = ''v0.77.1''"
definition prometheusOperatorURL :: "string \<Rightarrow> string" where
  "prometheusOperatorURL v =
     ''https://github.com/prometheus-operator/prometheus-operator/'' @ ''releases/download/'' @ v @ ''/bundle.yaml''"
definition certmanagerVersion :: string where "certmanagerVersion = ''v1.16.3''"
definition certmanagerURLTmpl :: "string \<Rightarrow> string" where
  "certmanagerURLTmpl v =
     ''https://github.com/cert-manager/cert-manager/releases/download/'' @ v @ ''/cert-manager.yaml''"

definition warnError :: "'w Sys \<Rightarrow> goerr \<Rightarrow> 'w \<Rightarrow> 'w" where
  "warnError sys err = sy_Fprintf sys (Sprintf ''warning: %v'' [FErr err])"

definition GetProjectDir :: "'w Sys \<Rightarrow> 'w \<Rightarrow> string \<times> goerr option" where
  "GetProjectDir sys w =
     (case sy_Getwd sys w of
        (wd, Some err) \<Rightarrow> (wd, Some err)
      | (wd, None) \<Rightarrow> (replaceAll ''/test/e2e'' '''' wd, None))"

definition Run :: "'w Sys \<Rightarrow> Cmd \<Rightarrow> 'w \<Rightarrow> (string \<times> goerr option) \<times> 'w" where
  "Run sys cmd w =
     (let dir = fst (GetProjectDir sys w);
          cmd = cmd\<lparr>cmd_Dir := dir\<rparr>;
          (cderr, w) = sy_Chdir sys (cmd_Dir cmd) w;
          w = (case cderr of None \<Rightarrow> w | Some err \<Rightarrow> sy_Fprintf sys (Sprintf ''chdir dir: %s'' [FErr err]) w);
          cmd = cmd\<lparr>cmd_Env := sy_Environ sys w @ [''GO111MODULE=on'']\<rparr>;
          command = stringsJoin '' '' (cmd_Args cmd);
          w = sy_Fprintf sys (Sprintf ''running: %s'' [FStr command]) w;
          ((output, err), w) = sy_CombinedOutput sys cmd w
      in case err of
           Some e \<Rightarrow> ((output, Some (Errorf ''%s failed with error: (%v) %s'')), w)
         | None \<Rightarrow> ((output, None), w))"

definition InstallPrometheusOperator :: "'w Sys \<Rightarrow> 'w \<Rightarrow> goerr option \<times> 'w" where
  "InstallPrometheusOperator sys w =
     (let url = prometheusOperatorURL prometheusOperatorVersion;
          ((_, err), w) = Run sys (Command [''kubectl'', ''create'', ''-f'', url]) w
      in (err, w))"

definition UninstallPrometheusOperator :: "'w Sys \<Rightarrow> 'w \<Rightarrow> 'w" where
  "UninstallPrometheusOperator sys w =
     (let url = prometheusOperatorURL prometheusOperatorVersion;
          ((_, err), w) = Run sys (Command [''kubectl'', ''delete'', ''-f'', url]) w
      in case err of None \<Rightarrow> w | Some e \<Rightarrow> warnError sys e w)"

text \<open>The loop collects the non-empty elements in order.\<close>

definition GetNonEmptyLines :: "string \<Rightarrow> string list" where
  "GetNonEmptyLines output =
     foldl (\<lambda>res element. if element \<noteq> '''' then res @ [element] else res) [] (stringsSplit NL output)"

text \<open>The two nested loops over names and lines that return at the first match.\<close>

definition anyCRD :: "string list \<Rightarrow> string list \<Rightarrow> bool" where
  "anyCRD crds crdList \<longleftrightarrow> list_ex (\<lambda>crd. list_ex (\<lambda>line. stringsContains line crd) crdList) crds"

definition prometheusCRDs :: "string list" where
  "prometheusCRDs =
     [''prometheuses.monitoring.coreos.com'', ''prometheusrules.monitoring.coreos.com'',
      ''prometheusagents.monitoring.coreos.com'']"

definition IsPrometheusCRDsInstalled :: "'w Sys \<Rightarrow> 'w \<Rightarrow> bool \<times> 'w" where
  "IsPrometheusCRDsInstalled sys w =
     (let ((output, err), w) =
            Run sys (Command [''kubectl'', ''get'', ''crds'', ''-o'', ''custom-columns=NAME:.metadata.name'']) w
      in if err \<noteq> None then (False, w) else (anyCRD prometheusCRDs (GetNonEmptyLines output), w))"

definition UninstallCertManager :: "'w Sys \<Rightarrow> 'w \<Rightarrow> 'w" where
  "UninstallCertManager sys w =
     (let url = certmanagerURLTmpl certmanagerVersion;
          ((_, err), w) = Run sys (Command [''kubectl'', ''delete'', ''-f'', url]) w
      in case err of None \<Rightarrow> w | Some e \<Rightarrow> warnError sys e w)"

definition InstallCertManager :: "'w Sys \<Rightarrow> 'w \<Rightarrow> goerr option \<times> 'w" where
  "InstallCertManager sys w =
     (let url = certmanagerURLTmpl certmanagerVersion;
          ((_, err), w) = Run sys (Command [''kubectl'', ''apply'', ''-f'', url]) w
      in case err of
           Some e \<Rightarrow> (Some e, w)
         | None \<Rightarrow>
             let ((_, err), w) = Run sys (Command [''kubectl'', ''wait'', ''deployment.apps/cert-manager-webhook'',
                    ''--for'', ''condition=Available'', ''--namespace'', ''cert-manager'', ''--timeout'', ''5m'']) w
             in (err, w))"

definition certManagerCRDs :: "string list" where
  "certManagerCRDs =
     [''certificates.cert-manager.io'', ''issuers.cert-manager.io'', ''clusterissuers.cert-manager.io'',
      ''certificaterequests.cert-manager.io'', ''orders.acme.cert-manager.io'', ''challenges.acme.cert-manager.io'']"

definition IsCertManagerCRDsInstalled :: "'w Sys \<Rightarrow> 'w \<Rightarrow> bool \<times> 'w" where
  "IsCertManagerCRDsInstalled sys w =
     (let ((output, err), w) = Run sys (Command [''kubectl'', ''get'', ''crds'']) w
      in if err \<noteq> None then (False, w) else (anyCRD certManagerCRDs (GetNonEmptyLines output), w))"

definition LoadImageToKindClusterWithName :: "'w Sys \<Rightarrow> string \<Rightarrow> 'w \<Rightarrow> goerr option \<times> 'w" where
  "LoadImageToKindClusterWithName sys name w =
     (let cluster = (case sy_LookupEnv sys ''KIND_CLUSTER'' w of Some v \<Rightarrow> v | None \<Rightarrow> ''kind'');
          kindOptions = [''load'', ''docker-image'', name, ''--name'', cluster];
          ((_, err), w) = Run sys (Command (''kind'' # kindOptions)) w
      in (err, w))"

text \<open>
  \<open>UncommentCode\<close>: the lines of the target, without the prefix, are written where the target
  stands; writing to the buffer cannot fail. A target without a line leaves the file alone.
\<close>

definition UncommentCode :: "'w Sys \<Rightarrow> string \<Rightarrow> string \<Rightarrow> string \<Rightarrow> 'w \<Rightarrow> goerr option \<times> 'w" where
  "UncommentCode sys filename target prefix w =
     (case sy_ReadFile sys filename w of
        Inl err \<Rightarrow> (Some err, w)
      | Inr content \<Rightarrow>
          let idx = stringsIndex content target in
          if idx < 0 then (Some (Errorf ''unable to find the code %s to be uncomment''), w)
          else
            let out = take (nat idx) content in
            case scanLines target of
              [] \<Rightarrow> (None, w)
            | toks \<Rightarrow>
                sy_WriteFile sys filename
                  (out @ stringsJoin [NL] (map (\<lambda>l. TrimPrefix l prefix) toks) @ drop (nat idx + length target) content) w)"

section \<open>Lines\<close>

lemma stringsContains_iff: "stringsContains s t \<longleftrightarrow> (\<exists>a b. s = a @ t @ b)"
proof -
  have "0 \<le> indexFrom i s t \<longleftrightarrow> (\<exists>a b. s = a @ t @ b)" for i
  proof (induction s arbitrary: i)
    case (Cons c s)
    have "(\<exists>a b. c # s = a @ t @ b) \<longleftrightarrow> take (length t) (c # s) = t \<or> (\<exists>a b. s = a @ t @ b)"
    proof
      assume "\<exists>a b. c # s = a @ t @ b"
      then obtain a b where ab: "c # s = a @ t @ b" by blast
      then show "take (length t) (c # s) = t \<or> (\<exists>a b. s = a @ t @ b)"
        by (cases a) auto
    next
      assume "take (length t) (c # s) = t \<or> (\<exists>a b. s = a @ t @ b)"
      then show "\<exists>a b. c # s = a @ t @ b"
        by (metis append_Cons append_Nil append_take_drop_id)
    qed
    with Cons show ?case by simp
  qed simp
  then show ?thesis by (simp add: stringsContains_def stringsIndex_def)
qed

lemma split_nonempty: "stringsSplit c s \<noteq> []"
  by (cases s) (auto split: list.splits)

lemma split_join: "stringsJoin [c] (stringsSplit c s) = s"
proof (induction s)
  case (Cons x xs)
  obtain l ls where "stringsSplit c xs = l # ls" using split_nonempty [of c xs] by (cases "stringsSplit c xs") auto
  with Cons show ?case by (cases ls) auto
qed simp

lemma GetNonEmptyLines_filter: "GetNonEmptyLines s = filter (\<lambda>l. l \<noteq> '''') (stringsSplit NL s)"
proof -
  have "foldl (\<lambda>res element. if element \<noteq> '''' then res @ [element] else res) acc ls = acc @ filter (\<lambda>l. l \<noteq> '''') ls"
    for acc ls by (induction ls arbitrary: acc) auto
  from this [of "[]"] show ?thesis unfolding GetNonEmptyLines_def by simp
qed

text \<open>A line as the scanner hands it out.\<close>

definition plainLine :: "string \<Rightarrow> bool" where
  "plainLine l \<longleftrightarrow> NL \<notin> set l \<and> length l < MaxScanTokenSize \<and> (l \<noteq> [] \<longrightarrow> last l \<noteq> CR)"

lemma scan_line:
  assumes "plainLine l"
  shows "scanLines (l @ NL # s) = l # scanLines s" and "l \<noteq> [] \<Longrightarrow> scanLines l = [l]"
proof -
  have t: "takeWhile (\<lambda>c. c \<noteq> NL) (l @ NL # s) = l" "takeWhile (\<lambda>c. c \<noteq> NL) l = l" "dropCR l = l" "length l < MaxScanTokenSize"
    using assms by (auto simp: plainLine_def dropCR_def takeWhile_eq_all_conv takeWhile_append)
  show "scanLines (l @ NL # s) = l # scanLines s"
    by (subst scanLines.simps) (use t in \<open>simp add: Let_def\<close>)
  show "scanLines l = [l]" if "l \<noteq> []"
    unfolding scanLines.simps [of l] t(2) Let_def using t(3,4) that by (simp add: scanLines.simps [of "[]"])
qed

lemma scan_join:
  assumes "ls \<noteq> []" and "list_all plainLine ls"
  shows "last ls \<noteq> [] \<Longrightarrow> scanLines (stringsJoin [NL] ls) = ls"
    and "scanLines (stringsJoin [NL] ls @ [NL]) = ls"
  using assms
proof (induction "[NL]" ls rule: stringsJoin.induct)
  case (2 x)
  { case 1 then show ?case by (simp add: scan_line) }
  { case 2 then show ?case using scan_line(1) [of x "[]"] by (simp add: scanLines.simps [of "[]"]) }
qed (simp_all add: scan_line)

text \<open>
  Uncommenting undoes commenting: when the lines of the target carry the prefix, the first
  occurrence of the target is replaced by the lines without it and the rest of the file is kept.
  A newline at the end of the target, however, is not written back.
\<close>

lemma uncomment_roundtrip:
  assumes "ls \<noteq> []" and "list_all (\<lambda>l. plainLine (pre @ l)) ls" and "pre \<noteq> []"
    and "target = stringsJoin [NL] (map (\<lambda>l. pre @ l) ls) @ nl" and "nl = [] \<or> nl = [NL]"
    and "sy_ReadFile sys f w = Inr (a @ target @ b)" and "stringsIndex (a @ target @ b) target = int (length a)"
  shows "UncommentCode sys f target pre w = sy_WriteFile sys f (a @ stringsJoin [NL] ls @ b) w"
proof -
  let ?ts = "map (\<lambda>l. pre @ l) ls"
  have "list_all plainLine ?ts" "?ts \<noteq> []" "last ?ts \<noteq> []" using assms(1-3) by (auto simp: list_all_iff last_map)
  then have scan: "scanLines target = ?ts" using assms(4,5) scan_join [of ?ts] by auto
  have trim: "map (\<lambda>l. TrimPrefix l pre) ?ts = ls" by (simp add: TrimPrefix_def comp_def)
  obtain x xs where ts: "?ts = x # xs" using assms(1) by (cases ls) auto
  show ?thesis
    using scan trim ts assms(6,7) by (simp add: UncommentCode_def Let_def)
qed

end
