(* ===== verification/GoHeap.thy ===== *)
theory GoHeap
  imports "HOL-Library.AList"
begin

text \<open>
  A store for Go values that are shared by reference: pointers, slices and maps are addresses,
  structs are values that may contain addresses. \<open>deep_copy\<close> is the contract of a deep copy: it
  changes nothing that was allocated before, its result reads as the same value, and everything
  reachable from the result is new. The contract is closed under the ways in which structs are
  built from parts: pairs, slices and pointers.
\<close>

section \<open>The store\<close>

record 'c heap =
  hp_cells :: "nat \<Rightarrow> 'c option"
  hp_next :: nat

definition alloc :: "'c \<Rightarrow> 'c heap \<Rightarrow> nat \<times> 'c heap" where
  "alloc c h = (hp_next h, h\<lparr>hp_cells := (hp_cells h)(hp_next h \<mapsto> c), hp_next := hp_next h + 1\<rparr>)"

definition assign :: "nat \<Rightarrow> 'c \<Rightarrow> 'c heap \<Rightarrow> 'c heap" where
  "assign a c h = h\<lparr>hp_cells := (hp_cells h)(a \<mapsto> c)\<rparr>"

text \<open>Reading a cell as a value of a Go type; \<open>prj\<close> fails on a cell of another type.\<close>

definition deref :: "('c \<Rightarrow> 'a option) \<Rightarrow> nat \<Rightarrow> 'c heap \<Rightarrow> 'a option" where
  "deref prj a h = (case hp_cells h a of None \<Rightarrow> None | Some c \<Rightarrow> prj c)"

text \<open>The two stores hold the same at these addresses.\<close>

definition agree :: "nat set \<Rightarrow> 'c heap \<Rightarrow> 'c heap \<Rightarrow> bool" where
  "agree S h h' \<longleftrightarrow> (\<forall>a \<in> S. hp_cells h' a = hp_cells h a)"

lemma alloc_sel [simp]:
  "fst (alloc c h) = hp_next h" "hp_next (snd (alloc c h)) = hp_next h + 1"
  "hp_cells (snd (alloc c h)) = (hp_cells h)(hp_next h \<mapsto> c)"
  by (simp_all add: alloc_def)

lemma assign_sel [simp]: "hp_next (assign a c h) = hp_next h" "hp_cells (assign a c h) = (hp_cells h)(a \<mapsto> c)"
  by (simp_all add: assign_def)

lemma agree_refl [simp]: "agree S h h"
  by (simp add: agree_def)

lemma agree_trans: "agree S h h1 \<Longrightarrow> agree S h1 h2 \<Longrightarrow> agree S h h2"
  by (simp add: agree_def)

lemma agree_mono: "agree T h h' \<Longrightarrow> S \<subseteq> T \<Longrightarrow> agree S h h'"
  by (auto simp: agree_def)

lemma agree_alloc: "S \<subseteq> {..<hp_next h} \<Longrightarrow> agree S h (snd (alloc c h))"
  by (auto simp: agree_def)

lemma agree_assign: "a \<notin> S \<Longrightarrow> agree S h (assign a c h)"
  by (auto simp: agree_def)

lemma deref_agree: "agree S h h' \<Longrightarrow> a \<in> S \<Longrightarrow> deref prj a h' = deref prj a h"
  by (simp add: agree_def deref_def)

lemma deref_assign [simp]: "deref prj a (assign a c h) = prj c"
  by (simp add: deref_def)

section \<open>The contract of a deep copy\<close>

text \<open>
  The layout of a Go type: \<open>reach x h\<close> are the addresses reachable from \<open>x\<close>, \<open>wf x h\<close> says that
  everything reachable is allocated and has its type, \<open>denote x h\<close> is the value without addresses
  that \<open>x\<close> stands for.
\<close>

record ('a, 'c, 'v) layout =
  reach :: "'a \<Rightarrow> 'c heap \<Rightarrow> nat set"
  wf :: "'a \<Rightarrow> 'c heap \<Rightarrow> bool"
  denote :: "'a \<Rightarrow> 'c heap \<Rightarrow> 'v"

type_synonym ('a, 'c) copier = "'a \<Rightarrow> 'c heap \<Rightarrow> 'a \<times> 'c heap"

locale typed =
  fixes S :: "('a, 'c, 'v) layout"
  assumes wf_reach: "wf S x h \<Longrightarrow> reach S x h \<subseteq> {..<hp_next h}"
    and reach_agree: "agree (reach S x h) h h' \<Longrightarrow> reach S x h' = reach S x h"
    and denote_agree: "agree (reach S x h) h h' \<Longrightarrow> denote S x h' = denote S x h"
    and wf_agree: "wf S x h \<Longrightarrow> agree (reach S x h) h h' \<Longrightarrow> hp_next h \<le> hp_next h' \<Longrightarrow> wf S x h'"
begin

text \<open>A value whose store is kept where it reaches is the same value.\<close>

lemma kept:
  assumes "wf S x h" and "hp_next h \<le> hp_next h'" and "agree T h h'" and "reach S x h \<subseteq> T"
  shows "reach S x h' = reach S x h" "denote S x h' = denote S x h" "wf S x h'"
proof -
  have "agree (reach S x h) h h'" using agree_mono assms(3,4) .
  then show "reach S x h' = reach S x h" "denote S x h' = denote S x h" "wf S x h'"
    using reach_agree denote_agree wf_agree assms(1,2) by auto
qed

lemma kept_below:
  assumes "wf S x h" and "hp_next h \<le> hp_next h'" and "agree {..<hp_next h} h h'"
  shows "reach S x h' = reach S x h" "denote S x h' = denote S x h" "wf S x h'"
  using kept [OF assms wf_reach [OF assms(1)]] by blast+

end

text \<open>
  A deep copy changes nothing that was allocated before, everything its result reaches is new, and
  the result denotes what the original denotes.
\<close>

locale deep_copy = typed S for S :: "('a, 'c, 'v) layout" +
  fixes copy :: "('a, 'c) copier"
  assumes copy_grows: "wf S x h \<Longrightarrow> copy x h = (y, h') \<Longrightarrow> hp_next h \<le> hp_next h' \<and> agree {..<hp_next h} h h'"
    and copy_fresh: "wf S x h \<Longrightarrow> copy x h = (y, h') \<Longrightarrow> wf S y h' \<and> reach S y h' \<subseteq> {hp_next h..<hp_next h'}"
    and copy_denotes: "wf S x h \<Longrightarrow> copy x h = (y, h') \<Longrightarrow> denote S y h' = denote S x h"
begin

lemmas layout_typed = typed_axioms

text \<open>Whatever is written through one of the two is not seen through the other.\<close>

lemma isolated:
  assumes "wf S x h" and "copy x h = (y, h')"
  shows "reach S y h' \<inter> reach S x h' = {}"
    and "agree (- reach S y h') h' h2 \<Longrightarrow> denote S x h2 = denote S x h"
    and "agree (- reach S x h') h' h2 \<Longrightarrow> denote S y h2 = denote S x h"
proof -
  note g = copy_grows [OF assms] and f = copy_fresh [OF assms]
  have s: "reach S x h' = reach S x h" "denote S x h' = denote S x h"
    using kept_below [OF assms(1)] g by blast+
  have disj: "reach S y h' \<inter> reach S x h' = {}" using f wf_reach [OF assms(1)] s(1) by fastforce
  then show "reach S y h' \<inter> reach S x h' = {}" .
  show "denote S x h2 = denote S x h" if "agree (- reach S y h') h' h2"
    using denote_agree [OF agree_mono [OF that], of x] disj s(2) by auto
  show "denote S y h2 = denote S x h" if "agree (- reach S x h') h' h2"
    using denote_agree [OF agree_mono [OF that], of y] disj copy_denotes [OF assms] by auto
qed

end

text \<open>
  The promise of a deep copy as its callers see it: \<open>y\<close>, in the store \<open>h'\<close>, is a copy of \<open>x\<close>, in the
  store \<open>h\<close>, that shares nothing with it.
\<close>

definition separate_copy :: "('a, 'c, 'v) layout \<Rightarrow> 'a \<Rightarrow> 'c heap \<Rightarrow> 'a \<Rightarrow> 'c heap \<Rightarrow> bool" where
  "separate_copy S x h y h' \<longleftrightarrow>
     denote S y h' = denote S x h \<and> wf S y h' \<and> agree {..<hp_next h} h h' \<and>
     reach S y h' \<inter> reach S x h' = {} \<and>
     (\<forall>h2. agree (- reach S y h') h' h2 \<longrightarrow> denote S x h2 = denote S x h) \<and>
     (\<forall>h2. agree (- reach S x h') h' h2 \<longrightarrow> denote S y h2 = denote S x h)"

lemma deep_copy_separates: "deep_copy S copy \<Longrightarrow> wf S x h \<Longrightarrow> copy x h = (y, h') \<Longrightarrow> separate_copy S x h y h'"
  using deep_copy.isolated [of S copy x h y h'] deep_copy.copy_denotes [of S copy x h y h']
    deep_copy.copy_fresh [of S copy x h y h'] deep_copy.copy_grows [of S copy x h y h']
  by (simp add: separate_copy_def)

section \<open>Structs\<close>

text \<open>A struct without references is copied by the assignment \<open>*out = *in\<close>.\<close>

definition flatL :: "('a, 'c, 'a) layout" where
  "flatL = \<lparr> reach = (\<lambda>_ _. {}), wf = (\<lambda>_ _. True), denote = (\<lambda>x _. x) \<rparr>"

definition flatCopy :: "('a, 'c) copier" where
  "flatCopy x h = (x, h)"

lemma deep_copy_flat: "deep_copy flatL flatCopy"
  by unfold_locales (auto simp: flatCopy_def flatL_def)

text \<open>Two parts, one after the other.\<close>

definition pairL :: "('a, 'c, 'v) layout \<Rightarrow> ('b, 'c, 'w) layout \<Rightarrow> ('a \<times> 'b, 'c, 'v \<times> 'w) layout" where
  "pairL S T = \<lparr> reach = (\<lambda>x h. reach S (fst x) h \<union> reach T (snd x) h),
     wf = (\<lambda>x h. wf S (fst x) h \<and> wf T (snd x) h),
     denote = (\<lambda>x h. (denote S (fst x) h, denote T (snd x) h)) \<rparr>"

definition pairCopy :: "('a, 'c) copier \<Rightarrow> ('b, 'c) copier \<Rightarrow> ('a \<times> 'b, 'c) copier" where
  "pairCopy c d x h = (let (y, h1) = c (fst x) h; (z, h2) = d (snd x) h1 in ((y, z), h2))"

lemma pairL_sel [simp]:
  "reach (pairL S T) x h = reach S (fst x) h \<union> reach T (snd x) h"
  "wf (pairL S T) x h \<longleftrightarrow> wf S (fst x) h \<and> wf T (snd x) h"
  "denote (pairL S T) x h = (denote S (fst x) h, denote T (snd x) h)"
  by (simp_all add: pairL_def)

lemma typed_pair:
  assumes S: "typed S" and T: "typed T"
  shows "typed (pairL S T)"
proof
  fix x h h'
  show "wf (pairL S T) x h \<Longrightarrow> reach (pairL S T) x h \<subseteq> {..<hp_next h}"
    using typed.wf_reach [OF S] typed.wf_reach [OF T] by simp
  assume ag: "agree (reach (pairL S T) x h) h h'"
  have a: "agree (reach S (fst x) h) h h'" "agree (reach T (snd x) h) h h'" using agree_mono [OF ag] by auto
  show "reach (pairL S T) x h' = reach (pairL S T) x h"
    using typed.reach_agree [OF S a(1)] typed.reach_agree [OF T a(2)] by simp
  show "denote (pairL S T) x h' = denote (pairL S T) x h"
    using typed.denote_agree [OF S a(1)] typed.denote_agree [OF T a(2)] by simp
  show "wf (pairL S T) x h \<Longrightarrow> hp_next h \<le> hp_next h' \<Longrightarrow> wf (pairL S T) x h'"
    using typed.wf_agree [OF S _ a(1)] typed.wf_agree [OF T _ a(2)] by simp
qed

lemma deep_copy_pair:
  assumes c: "deep_copy S c" and d: "deep_copy T d"
  shows "deep_copy (pairL S T) (pairCopy c d)"
proof (rule deep_copy.intro [OF typed_pair [OF deep_copy.layout_typed [OF c] deep_copy.layout_typed [OF d]]], unfold_locales)
  note C = deep_copy.layout_typed [OF c] and D = deep_copy.layout_typed [OF d]
  fix x h y h'
  assume "wf (pairL S T) x h" and cp: "pairCopy c d x h = (y, h')"
  then have ok: "wf S (fst x) h" "wf T (snd x) h" by simp_all
  obtain y1 h1 where c1: "c (fst x) h = (y1, h1)" by fastforce
  obtain y2 h2 where d2: "d (snd x) h1 = (y2, h2)" by fastforce
  have y: "y = (y1, y2)" "h' = h2" using cp c1 d2 by (simp_all add: pairCopy_def)
  note g1 = deep_copy.copy_grows [OF c ok(1) c1] and f1 = deep_copy.copy_fresh [OF c ok(1) c1]
  have s2: "wf T (snd x) h1" "denote T (snd x) h1 = denote T (snd x) h"
    using typed.kept_below [OF D ok(2)] g1 by blast+
  note g2 = deep_copy.copy_grows [OF d s2(1) d2] and f2 = deep_copy.copy_fresh [OF d s2(1) d2]
  have s1: "reach S y1 h2 = reach S y1 h1" "denote S y1 h2 = denote S y1 h1" "wf S y1 h2"
    using typed.kept_below [OF C, of y1 h1 h2] f1 g2 by blast+
  show "hp_next h \<le> hp_next h' \<and> agree {..<hp_next h} h h'"
    using g1 g2 y(2) agree_trans agree_mono [of "{..<hp_next h1}" h1 h2 "{..<hp_next h}"] by fastforce
  show "wf (pairL S T) y h' \<and> reach (pairL S T) y h' \<subseteq> {hp_next h..<hp_next h'}"
    using f1 f2 s1 g1 g2 y by fastforce
  show "denote (pairL S T) y h' = denote (pairL S T) x h"
    using deep_copy.copy_denotes [OF c ok(1) c1] deep_copy.copy_denotes [OF d s2(1) d2] s1 s2 y by simp
qed

text \<open>
  A struct keeps its references in the parts that \<open>get\<close> selects and \<open>put\<close> replaces; \<open>f\<close> puts its
  other fields and what the parts stand for together.
\<close>

definition structL :: "('s \<Rightarrow> 'a) \<Rightarrow> ('s \<Rightarrow> 'v \<Rightarrow> 'w) \<Rightarrow> ('a, 'c, 'v) layout \<Rightarrow> ('s, 'c, 'w) layout" where
  "structL get f S = \<lparr> reach = (\<lambda>x. reach S (get x)), wf = (\<lambda>x. wf S (get x)),
     denote = (\<lambda>x h. f x (denote S (get x) h)) \<rparr>"

lemma structL_sel [simp]:
  "reach (structL get f S) x h = reach S (get x) h" "wf (structL get f S) x h = wf S (get x) h"
  "denote (structL get f S) x h = f x (denote S (get x) h)"
  by (simp_all add: structL_def)

lemma typed_struct: "typed S \<Longrightarrow> typed (structL get f S)"
  by (auto simp: typed_def)

lemma deep_copy_struct:
  assumes c: "deep_copy S c"
    and copy: "\<And>x h. cs x h = (let (y, h') = c (get x) h in (put y x, h'))"
    and get: "\<And>y x. get (put y x) = y" and f: "\<And>y x v. f (put y x) v = f x v"
  shows "deep_copy (structL get f S) cs"
proof (rule deep_copy.intro [OF typed_struct [OF deep_copy.layout_typed [OF c]]], unfold_locales)
  fix x h y h'
  let ?S = "structL get f S"
  assume "wf ?S x h" and cp: "cs x h = (y, h')"
  then have ok: "wf S (get x) h" by simp
  obtain y0 where y0: "c (get x) h = (y0, h')" and y: "y = put y0 x"
    using cp by (auto simp: copy split: prod.splits)
  show "hp_next h \<le> hp_next h' \<and> agree {..<hp_next h} h h'" by (rule deep_copy.copy_grows [OF c ok y0])
  show "wf ?S y h' \<and> reach ?S y h' \<subseteq> {hp_next h..<hp_next h'}"
    using deep_copy.copy_fresh [OF c ok y0] by (simp add: y get)
  show "denote ?S y h' = denote ?S x h" using deep_copy.copy_denotes [OF c ok y0] by (simp add: y get f)
qed

section \<open>Addresses\<close>

text \<open>
  Pointers, slices and maps are addresses or nil; the cell holds a value of the type pointed to, the
  elements or the entries (\<open>mk\<close> makes the cell, \<open>prj\<close> reads it). The three copies below allocate a
  cell with \<open>init\<close> and then work on it in place; \<open>fill\<close> is that work.
\<close>

definition target :: "('c \<Rightarrow> 'a option) \<Rightarrow> nat option \<Rightarrow> 'c heap \<Rightarrow> 'a option" where
  "target prj p h = (case p of None \<Rightarrow> None | Some a \<Rightarrow> deref prj a h)"

definition ptrL :: "('c \<Rightarrow> 'a option) \<Rightarrow> ('a, 'c, 'v) layout \<Rightarrow> (nat option, 'c, 'v option) layout" where
  "ptrL prj S = \<lparr>
     reach = (\<lambda>p h. set_option p \<union> (case target prj p h of None \<Rightarrow> {} | Some x \<Rightarrow> reach S x h)),
     wf = (\<lambda>p h. case p of None \<Rightarrow> True
        | Some a \<Rightarrow> a < hp_next h \<and> (case deref prj a h of None \<Rightarrow> False | Some x \<Rightarrow> wf S x h)),
     denote = (\<lambda>p h. map_option (\<lambda>x. denote S x h) (target prj p h)) \<rparr>"

definition addrCopy ::
    "('c \<Rightarrow> 'a option) \<Rightarrow> ('a \<Rightarrow> 'c) \<Rightarrow> ('a \<Rightarrow> nat \<Rightarrow> 'c heap \<Rightarrow> 'c heap) \<Rightarrow> (nat option, 'c) copier" where
  "addrCopy prj init fill p h = (case target prj p h of
       None \<Rightarrow> (None, h)
     | Some x \<Rightarrow> (let (b, h1) = alloc (init x) h in (Some b, fill x b h1)))"

lemma ptrL_sel [simp]:
  "reach (ptrL prj S) p h = set_option p \<union> (case target prj p h of None \<Rightarrow> {} | Some x \<Rightarrow> reach S x h)"
  "wf (ptrL prj S) None h"
  "wf (ptrL prj S) (Some a) h \<longleftrightarrow> a < hp_next h \<and> (\<exists>x. deref prj a h = Some x \<and> wf S x h)"
  "denote (ptrL prj S) p h = map_option (\<lambda>x. denote S x h) (target prj p h)"
  by (auto simp: ptrL_def split: option.splits)

lemma target_simps [simp]: "target prj None h = None" "target prj (Some a) h = deref prj a h"
  by (simp_all add: target_def)

lemma deref_alloc [simp]: "deref prj (hp_next h) (snd (alloc c h)) = prj c"
  by (simp add: deref_def)

lemma typed_ptr:
  assumes S: "typed S"
  shows "typed (ptrL prj S)"
proof
  fix p h h'
  show "reach (ptrL prj S) p h \<subseteq> {..<hp_next h}" if "wf (ptrL prj S) p h"
    using that typed.wf_reach [OF S] by (cases p) fastforce+
  assume ag: "agree (reach (ptrL prj S) p h) h h'"
  have t: "target prj p h' = target prj p h" using deref_agree [OF ag] by (cases p) auto
  have x: "agree (reach S x h) h h'" if "target prj p h = Some x" for x
    using agree_mono [OF ag] that by simp
  show "reach (ptrL prj S) p h' = reach (ptrL prj S) p h" "denote (ptrL prj S) p h' = denote (ptrL prj S) p h"
    using typed.reach_agree [OF S x] typed.denote_agree [OF S x] by (cases "target prj p h"; auto simp: t)+
  show "wf (ptrL prj S) p h'" if wf: "wf (ptrL prj S) p h" and n: "hp_next h \<le> hp_next h'"
  proof (cases p)
    case (Some a)
    then obtain v where v: "deref prj a h = Some v" "wf S v h" "a < hp_next h" using wf by auto
    then show ?thesis using typed.wf_agree [OF S v(2) x n] t n Some by simp
  qed simp
qed

text \<open>
  An address copy is deep when its work, on a cell \<open>b\<close> that is new, leaves every older cell alone
  and in \<open>b\<close> a value that reaches newer cells only and denotes the same.
\<close>

lemma deep_copy_addr:
  assumes S: "typed S"
    and fill: "\<And>x b h h'. \<lbrakk>wf S x h; reach S x h \<subseteq> {..<b}; b < hp_next h; hp_cells h b = Some (init x); fill x b h = h'\<rbrakk> \<Longrightarrow>
      hp_next h \<le> hp_next h' \<and> agree {..<b} h h' \<and>
      (\<exists>y. deref prj b h' = Some y \<and> wf S y h' \<and> reach S y h' \<subseteq> {b<..<hp_next h'} \<and> denote S y h' = denote S x h)"
  shows "deep_copy (ptrL prj S) (addrCopy prj init fill)"
proof (rule deep_copy.intro [OF typed_ptr [OF S]], unfold_locales)
  fix p h q h'
  assume wf: "wf (ptrL prj S) p h" and cp: "addrCopy prj init fill p h = (q, h')"
  have "(hp_next h \<le> hp_next h' \<and> agree {..<hp_next h} h h') \<and>
    (wf (ptrL prj S) q h' \<and> reach (ptrL prj S) q h' \<subseteq> {hp_next h..<hp_next h'}) \<and>
    denote (ptrL prj S) q h' = denote (ptrL prj S) p h"
  proof (cases p)
    case None
    then show ?thesis using cp by (auto simp: addrCopy_def)
  next
    case (Some a)
    obtain x where x: "deref prj a h = Some x" "wf S x h" using wf Some by auto
    let ?h1 = "snd (alloc (init x) h)"
    have q: "q = Some (hp_next h)" "h' = fill x (hp_next h) ?h1"
      using cp x(1) Some by (simp_all add: addrCopy_def alloc_def)
    have ag: "agree {..<hp_next h} h ?h1" by (simp add: agree_alloc)
    have s: "reach S x ?h1 = reach S x h" "wf S x ?h1" "denote S x ?h1 = denote S x h"
      using typed.kept_below [OF S x(2) _ ag] by auto
    have "hp_next ?h1 \<le> hp_next h' \<and> agree {..<hp_next h} ?h1 h' \<and>
      (\<exists>y. deref prj (hp_next h) h' = Some y \<and> wf S y h' \<and> reach S y h' \<subseteq> {hp_next h<..<hp_next h'} \<and>
        denote S y h' = denote S x ?h1)"
      using fill [OF s(2) _ _ _ q(2) [symmetric]] typed.wf_reach [OF S x(2)] s(1) by simp
    then show ?thesis using agree_trans [OF ag] s(3) x(1) Some by (fastforce simp: q(1))
  qed
  then show "hp_next h \<le> hp_next h' \<and> agree {..<hp_next h} h h'"
    and "wf (ptrL prj S) q h' \<and> reach (ptrL prj S) q h' \<subseteq> {hp_next h..<hp_next h'}"
    and "denote (ptrL prj S) q h' = denote (ptrL prj S) p h" by blast+
qed

subsection \<open>Pointers\<close>

text \<open>\<open>out = new(T); (*in).DeepCopyInto(out)\<close>.\<close>

definition newCopy :: "('a \<Rightarrow> 'c) \<Rightarrow> ('c \<Rightarrow> 'a option) \<Rightarrow> 'a \<Rightarrow> ('a, 'c) copier \<Rightarrow> (nat option, 'c) copier" where
  "newCopy mk prj zero copyInto =
     addrCopy prj (\<lambda>_. mk zero) (\<lambda>x b h. let (y, h1) = copyInto x h in assign b (mk y) h1)"

lemma deep_copy_new:
  assumes c: "deep_copy S c" and prj: "\<And>v. prj (mk v) = Some v"
  shows "deep_copy (ptrL prj S) (newCopy mk prj zero c)"
  unfolding newCopy_def
proof (rule deep_copy_addr [OF deep_copy.layout_typed [OF c]])
  note C = deep_copy.layout_typed [OF c]
  fix x b h h'
  assume x: "wf S x h" and b: "reach S x h \<subseteq> {..<b}" "b < hp_next h"
    and h': "(let (y, h1) = c x h in assign b (mk y) h1) = h'"
  obtain y h1 where y: "c x h = (y, h1)" by fastforce
  have h1: "h' = assign b (mk y) h1" using h' y by simp
  note g = deep_copy.copy_grows [OF c x y] and f = deep_copy.copy_fresh [OF c x y]
  have ag: "agree (- {b}) h1 h'" by (simp add: h1 agree_assign)
  have sub: "reach S y h1 \<subseteq> - {b}" using f b(2) by auto
  have k: "reach S y h' = reach S y h1" "denote S y h' = denote S y h1" "wf S y h'"
    using typed.kept [OF C conjunct1 [OF f] _ ag sub] by (simp_all add: h1)
  have "agree {..<b} h h'"
    using agree_trans [OF agree_mono [OF conjunct2 [OF g]] agree_mono [OF ag], of "{..<b}"] b(2) by fastforce
  then show "hp_next h \<le> hp_next h' \<and> agree {..<b} h h' \<and>
      (\<exists>y. deref prj b h' = Some y \<and> wf S y h' \<and> reach S y h' \<subseteq> {b<..<hp_next h'} \<and> denote S y h' = denote S x h)"
    using f g k b(2) deep_copy.copy_denotes [OF c x y] by (fastforce simp: h1 prj)
qed

subsection \<open>Slices\<close>

text \<open>
  \<open>*out = make([]T, len( *in)); for i := range *in { ( *in)[i].DeepCopyInto(&( *out)[i]) }\<close>. The
  array is allocated with zero elements, the loop overwrites them one by one.
\<close>

fun copyItems ::
    "('a list \<Rightarrow> 'c) \<Rightarrow> ('c \<Rightarrow> 'a list option) \<Rightarrow> ('a, 'c) copier \<Rightarrow> nat \<Rightarrow> 'a list \<Rightarrow> nat \<Rightarrow> 'c heap \<Rightarrow> 'c heap" where
  "copyItems mk prj copyInto i [] b h = h"
| "copyItems mk prj copyInto i (x # xs) b h =
     (let (y, h1) = copyInto x h in
      copyItems mk prj copyInto (Suc i) xs b
        (case deref prj b h1 of None \<Rightarrow> h1 | Some ys \<Rightarrow> assign b (mk (ys[i := y])) h1))"

definition sliceCopy ::
    "('a list \<Rightarrow> 'c) \<Rightarrow> ('c \<Rightarrow> 'a list option) \<Rightarrow> 'a \<Rightarrow> ('a, 'c) copier \<Rightarrow> (nat option, 'c) copier" where
  "sliceCopy mk prj zero copyInto =
     addrCopy prj (\<lambda>xs. mk (replicate (length xs) zero)) (copyItems mk prj copyInto 0)"

definition listL :: "('a, 'c, 'v) layout \<Rightarrow> ('a list, 'c, 'v list) layout" where
  "listL S = \<lparr> reach = (\<lambda>xs h. \<Union>x \<in> set xs. reach S x h), wf = (\<lambda>xs h. list_all (\<lambda>x. wf S x h) xs),
     denote = (\<lambda>xs h. map (\<lambda>x. denote S x h) xs) \<rparr>"

abbreviation sliceL :: "('c \<Rightarrow> 'a list option) \<Rightarrow> ('a, 'c, 'v) layout \<Rightarrow> (nat option, 'c, 'v list option) layout" where
  "sliceL prj S \<equiv> ptrL prj (listL S)"

lemma listL_sel [simp]:
  "reach (listL S) xs h = (\<Union>x \<in> set xs. reach S x h)"
  "wf (listL S) xs h \<longleftrightarrow> (\<forall>x \<in> set xs. wf S x h)"
  "denote (listL S) xs h = map (\<lambda>x. denote S x h) xs"
  by (simp_all add: listL_def list_all_iff)

lemma typed_list:
  assumes S: "typed S"
  shows "typed (listL S)"
proof
  fix xs h h'
  show "wf (listL S) xs h \<Longrightarrow> reach (listL S) xs h \<subseteq> {..<hp_next h}"
    using typed.wf_reach [OF S] by fastforce
  assume "agree (reach (listL S) xs h) h h'"
  then have a: "agree (reach S x h) h h'" if "x \<in> set xs" for x
    by (rule agree_mono) (use that in auto)
  have "reach S x h' = reach S x h" "denote S x h' = denote S x h" if "x \<in> set xs" for x
    using typed.reach_agree [OF S a [OF that]] typed.denote_agree [OF S a [OF that]] by auto
  then show "reach (listL S) xs h' = reach (listL S) xs h" "denote (listL S) xs h' = denote (listL S) xs h"
    by simp_all
  show "wf (listL S) xs h \<Longrightarrow> hp_next h \<le> hp_next h' \<Longrightarrow> wf (listL S) xs h'"
    using typed.wf_agree [OF S _ a] by simp
qed

text \<open>
  The loop, from index \<open>i\<close> on: the elements before \<open>i\<close> stay, the others become copies of \<open>xs\<close>;
  nothing else that is allocated changes.
\<close>

lemma copyItems_loop:
  assumes c: "deep_copy S c" and prj: "\<And>v. prj (mk v) = Some v"
    and "\<forall>x \<in> set xs. wf S x h \<and> reach S x h \<subseteq> {..<b}" and "b < hp_next h"
    and "deref prj b h = Some ys" and "length ys = i + length xs"
  shows "hp_next h \<le> hp_next (copyItems mk prj c i xs b h) \<and>
    agree ({..<hp_next h} - {b}) h (copyItems mk prj c i xs b h) \<and>
    (\<exists>zs. deref prj b (copyItems mk prj c i xs b h) = Some (take i ys @ zs) \<and>
      (\<forall>z \<in> set zs. wf S z (copyItems mk prj c i xs b h) \<and>
         reach S z (copyItems mk prj c i xs b h) \<subseteq> {b<..<hp_next (copyItems mk prj c i xs b h)}) \<and>
      map (\<lambda>z. denote S z (copyItems mk prj c i xs b h)) zs = map (\<lambda>x. denote S x h) xs)"
  using assms(3-)
proof (induction xs arbitrary: i h ys)
  case Nil
  then show ?case by simp
next
  case (Cons x xs)
  note C = deep_copy.layout_typed [OF c]
  obtain y h1 where y: "c x h = (y, h1)" by fastforce
  have x: "wf S x h" using Cons.prems(1) by simp
  note g = deep_copy.copy_grows [OF c x y] and f = deep_copy.copy_fresh [OF c x y]
  have d1: "deref prj b h1 = Some ys" using deref_agree [OF conjunct2 [OF g], of b prj] Cons.prems(2,3) by simp
  let ?ys = "ys[i := y]"
  define h2 where "h2 = assign b (mk ?ys) h1"
  let ?h' = "copyItems mk prj c (Suc i) xs b h2"
  have eq: "copyItems mk prj c i (x # xs) b h = ?h'" by (simp add: y d1 h2_def)
  have ag2: "agree ({..<hp_next h} - {b}) h h2"
    using agree_trans [OF agree_mono [OF conjunct2 [OF g]] agree_assign, of "{..<hp_next h} - {b}"]
    by (simp add: h2_def)
  have below: "{..<b} \<subseteq> {..<hp_next h} - {b}" using Cons.prems(2) by auto
  have keep: "reach S z h2 = reach S z h" "denote S z h2 = denote S z h" "wf S z h2" if "z \<in> set xs" for z
  proof -
    have z: "wf S z h" "reach S z h \<subseteq> {..<hp_next h} - {b}" using that Cons.prems(1) below by auto
    show "reach S z h2 = reach S z h" "denote S z h2 = denote S z h" "wf S z h2"
      using typed.kept [OF C z(1) _ ag2 z(2)] g by (simp_all add: h2_def)
  qed
  have ih: "hp_next h2 \<le> hp_next ?h' \<and> agree ({..<hp_next h2} - {b}) h2 ?h' \<and>
    (\<exists>zs. deref prj b ?h' = Some (take (Suc i) ?ys @ zs) \<and>
      (\<forall>z \<in> set zs. wf S z ?h' \<and> reach S z ?h' \<subseteq> {b<..<hp_next ?h'}) \<and>
      map (\<lambda>z. denote S z ?h') zs = map (\<lambda>x. denote S x h2) xs)"
    by (rule Cons.IH) (use Cons.prems keep g in \<open>auto simp: h2_def prj\<close>)
  then obtain zs where zs: "deref prj b ?h' = Some (take (Suc i) ?ys @ zs)"
    "\<forall>z \<in> set zs. wf S z ?h' \<and> reach S z ?h' \<subseteq> {b<..<hp_next ?h'}"
    "map (\<lambda>z. denote S z ?h') zs = map (\<lambda>x. denote S x h2) xs" by blast
  have agy: "agree ({..<hp_next h2} - {b}) h1 ?h'"
    by (rule agree_trans [OF agree_assign [of b _ h1 "mk ?ys", folded h2_def]]) (use ih in simp_all)
  have suby: "reach S y h1 \<subseteq> {..<hp_next h2} - {b}" using f Cons.prems(2) by (auto simp: h2_def)
  have ky: "reach S y ?h' = reach S y h1" "denote S y ?h' = denote S y h1" "wf S y ?h'"
    using typed.kept [OF C conjunct1 [OF f] _ agy suby] ih by (simp_all add: h2_def)
  have tk: "take (Suc i) ?ys = take i ys @ [y]"
    using Cons.prems(4) by (simp add: take_Suc_conv_app_nth)
  have "agree ({..<hp_next h} - {b}) h ?h'"
    using agree_trans [OF ag2 agree_mono [OF conjunct1 [OF conjunct2 [OF ih]]]] g by (fastforce simp: h2_def)
  moreover have "reach S y ?h' \<subseteq> {b<..<hp_next ?h'}"
  proof -
    have "reach S y h1 \<subseteq> {hp_next h..<hp_next h1}" "hp_next h1 \<le> hp_next ?h'"
      using f ih by (simp_all add: h2_def)
    then show ?thesis using Cons.prems(2) unfolding ky(1) by force
  qed
  moreover have "denote S y ?h' = denote S x h" using ky deep_copy.copy_denotes [OF c x y] by simp
  moreover have "hp_next h \<le> hp_next ?h'" using ih g by (simp add: h2_def)
  moreover have "map (\<lambda>x. denote S x h2) xs = map (\<lambda>x. denote S x h) xs" using keep(2) by simp
  ultimately show ?case
    unfolding eq using zs ky(3) by (intro conjI exI [of _ "y # zs"]) (simp_all add: tk)
qed

lemma deep_copy_slice:
  assumes c: "deep_copy S c" and prj: "\<And>v. prj (mk v) = Some v"
  shows "deep_copy (sliceL prj S) (sliceCopy mk prj zero c)"
  unfolding sliceCopy_def
proof (rule deep_copy_addr [OF typed_list [OF deep_copy.layout_typed [OF c]]])
  fix xs b h h'
  assume xs: "wf (listL S) xs h" "reach (listL S) xs h \<subseteq> {..<b}" and b: "b < hp_next h"
    and init: "hp_cells h b = Some (mk (replicate (length xs) zero))" and h': "copyItems mk prj c 0 xs b h = h'"
  have "\<forall>x \<in> set xs. wf S x h \<and> reach S x h \<subseteq> {..<b}" using xs by auto
  moreover have "deref prj b h = Some (replicate (length xs) zero)" by (simp add: deref_def init prj)
  ultimately have loop: "hp_next h \<le> hp_next h' \<and> agree ({..<hp_next h} - {b}) h h' \<and>
    (\<exists>zs. deref prj b h' = Some zs \<and> (\<forall>z \<in> set zs. wf S z h' \<and> reach S z h' \<subseteq> {b<..<hp_next h'}) \<and>
      map (\<lambda>z. denote S z h') zs = map (\<lambda>x. denote S x h) xs)"
    using copyItems_loop [of S c prj mk, OF c prj _ b, where i = 0] h' by fastforce
  moreover have "{..<b} \<subseteq> {..<hp_next h} - {b}" using b by auto
  ultimately show "hp_next h \<le> hp_next h' \<and> agree {..<b} h h' \<and>
      (\<exists>y. deref prj b h' = Some y \<and> wf (listL S) y h' \<and> reach (listL S) y h' \<subseteq> {b<..<hp_next h'} \<and>
        denote (listL S) y h' = denote (listL S) xs h)"
    using agree_mono by fastforce
qed

subsection \<open>Maps\<close>

text \<open>
  \<open>*out = make(map[K]V, len( *in)); for key, val := range *in { ( *out)[key] = val }\<close>. The cell of a
  map lists its entries in the order in which \<open>range\<close> visits them, which Go leaves open.
\<close>

fun copyEntries ::
    "(('k \<times> 'v) list \<Rightarrow> 'c) \<Rightarrow> ('c \<Rightarrow> ('k \<times> 'v) list option) \<Rightarrow> ('k \<times> 'v) list \<Rightarrow> nat \<Rightarrow> 'c heap \<Rightarrow> 'c heap" where
  "copyEntries mk prj [] b h = h"
| "copyEntries mk prj ((k, v) # es) b h =
     copyEntries mk prj es b (case deref prj b h of None \<Rightarrow> h | Some m \<Rightarrow> assign b (mk (AList.update k v m)) h)"

definition mapCopy :: "(('k \<times> 'v) list \<Rightarrow> 'c) \<Rightarrow> ('c \<Rightarrow> ('k \<times> 'v) list option) \<Rightarrow> (nat option, 'c) copier" where
  "mapCopy mk prj = addrCopy prj (\<lambda>_. mk []) (copyEntries mk prj)"

definition entriesL :: "(('k \<times> 'v) list, 'c, 'k \<rightharpoonup> 'v) layout" where
  "entriesL = \<lparr> reach = (\<lambda>_ _. {}), wf = (\<lambda>es _. distinct (map fst es)), denote = (\<lambda>es _. map_of es) \<rparr>"

abbreviation mapL :: "('c \<Rightarrow> ('k \<times> 'v) list option) \<Rightarrow> (nat option, 'c, ('k \<rightharpoonup> 'v) option) layout" where
  "mapL prj \<equiv> ptrL prj entriesL"

lemma entriesL_sel [simp]:
  "reach entriesL es h = {}" "wf entriesL es h \<longleftrightarrow> distinct (map fst es)" "denote entriesL es h = map_of es"
  by (simp_all add: entriesL_def)

lemma copyEntries_loop:
  assumes prj: "\<And>v. prj (mk v) = Some v" and "deref prj b h = Some m" and "distinct (map fst m)"
    and "distinct (map fst es)"
  shows "hp_next (copyEntries mk prj es b h) = hp_next h \<and> agree (- {b}) h (copyEntries mk prj es b h) \<and>
    (\<exists>m'. deref prj b (copyEntries mk prj es b h) = Some m' \<and> distinct (map fst m') \<and>
      map_of m' = map_of m ++ map_of es)"
  using assms(2-)
proof (induction es arbitrary: h m)
  case (Cons e es)
  obtain k v where e: "e = (k, v)" by (cases e)
  let ?m = "AList.update k v m" and ?h = "assign b (mk (AList.update k v m)) h"
  have "hp_next (copyEntries mk prj es b ?h) = hp_next ?h \<and> agree (- {b}) ?h (copyEntries mk prj es b ?h) \<and>
    (\<exists>m'. deref prj b (copyEntries mk prj es b ?h) = Some m' \<and> distinct (map fst m') \<and>
      map_of m' = map_of ?m ++ map_of es)"
    by (rule Cons.IH) (use Cons.prems in \<open>simp_all add: prj AList.distinct_update\<close>)
  moreover have "map_of ?m ++ map_of es = map_of m ++ map_of (e # es)"
    using Cons.prems(3) e by (simp add: update_conv' map_add_upd_left dom_map_of_conv_image_fst)
  moreover have "copyEntries mk prj (e # es) b h = copyEntries mk prj es b ?h"
    by (simp add: e Cons.prems(1))
  ultimately show ?case
    using agree_trans [OF agree_assign [of b "- {b}"]] by (metis assign_sel(1) Compl_iff singletonI)
qed simp

lemma deep_copy_map:
  assumes prj: "\<And>v. prj (mk v) = Some v"
  shows "deep_copy (mapL prj) (mapCopy mk prj)"
  unfolding mapCopy_def
proof (rule deep_copy_addr)
  show "typed entriesL" by unfold_locales auto
  fix es b h h'
  assume es: "wf entriesL es h" and b: "b < hp_next h" and init: "hp_cells h b = Some (mk [])"
    and h': "copyEntries mk prj es b h = h'"
  have "deref prj b h = Some []" by (simp add: deref_def init prj)
  then show "hp_next h \<le> hp_next h' \<and> agree {..<b} h h' \<and>
      (\<exists>y. deref prj b h' = Some y \<and> wf entriesL y h' \<and> reach entriesL y h' \<subseteq> {b<..<hp_next h'} \<and>
        denote entriesL y h' = denote entriesL es h)"
    using copyEntries_loop [of prj mk b h "[]" es, OF prj] es h' agree_mono [of "- {b}" h h' "{..<b}"] by auto
qed

end
