(* ===== verification/DeepCopy.thy ===== *)
theory DeepCopy
  imports Types GoHeap
begin

text \<open>
  The generated deep copies of both API packages (\<open>api/v1alpha1/zz_generated.deepcopy.go\<close> and
  \<open>internal/kueue/v1beta2/zz_generated.deepcopy.go\<close>) on the store of \<open>GoHeap\<close>. The client's cache
  hands out deep copies of what it holds, so that a reconciler may change the object it got without
  anybody else seeing it; the rest of the development uses this when it treats objects as values.

  A struct of the sources is a record here, with an address (or nil) for every pointer, slice and
  map. \<open>ObjectMeta\<close>, \<open>ListMeta\<close> and \<open>PodTemplateSpec\<close> are structs of libraries: type variables \<open>'m\<close>,
  \<open>'l\<close> and \<open>'t\<close>, whose copies, together with those of \<open>Time\<close> and \<open>Condition\<close>, are the record
  \<open>CopyLib\<close>. \<open>machinery\<close> is what these libraries document: their copies are deep.
\<close>

section \<open>Structs\<close>

record TypeMeta =
  tm_Kind :: string
  tm_APIVersion :: string

record hGPULeaseStatus =
  hs_Phase :: GPULeasePhase
  hs_WorkloadName :: string
  hs_Message :: msg
  hs_AdmittedAt :: "nat option"
  hs_BoundAt :: "nat option"
  hs_Conditions :: "nat option"

record 'm hGPULease =
  hl_Type :: TypeMeta
  hl_Meta :: 'm
  hl_Spec :: GPULeaseSpec
  hl_Status :: hGPULeaseStatus

record 'l hGPULeaseList =
  hll_Type :: TypeMeta
  hll_Meta :: 'l
  hll_Items :: "nat option"

record hPodSetAssignment =
  hpa_Name :: string
  hpa_Flavors :: "nat option"

record hAdmission =
  ha_ClusterQueue :: string
  ha_PodSetAssignments :: "nat option"

record 't hPodSet =
  hps_Name :: string
  hps_Count :: int32
  hps_Template :: 't

record hWorkloadSpec =
  hws_QueueName :: string
  hws_PodSets :: "nat option"
  hws_PriorityClassName :: string

record hWorkloadStatus =
  hwt_Conditions :: "nat option"
  hwt_Admission :: "nat option"

record 'm hWorkload =
  hw_Type :: TypeMeta
  hw_Meta :: 'm
  hw_Spec :: hWorkloadSpec
  hw_Status :: hWorkloadStatus

record 'l hWorkloadList =
  hwl_Type :: TypeMeta
  hwl_Meta :: 'l
  hwl_Items :: "nat option"

record hResourceFlavorSpec =
  hrs_NodeLabels :: "nat option"

record 'm hResourceFlavor =
  hrf_Type :: TypeMeta
  hrf_Meta :: 'm
  hrf_Spec :: hResourceFlavorSpec

record 'l hResourceFlavorList =
  hrl_Type :: TypeMeta
  hrl_Meta :: 'l
  hrl_Items :: "nat option"

section \<open>Cells\<close>

text \<open>
  What an address can hold: a value of a type that is allocated with \<open>new\<close>, the elements of a slice,
  the entries of a map. \<open>Foreign\<close> cells belong to the libraries.
\<close>

datatype ('m, 'l, 't, 'x) cell =
    TimeCell gotime
  | ConditionsCell "Condition list"
  | StringsCell "(string \<times> string) list"
  | DeploymentSettingsCell DeploymentSettings
  | ObjectRefCell ObjectRef
  | GPULeaseSpecCell GPULeaseSpec
  | GPULeaseStatusCell hGPULeaseStatus
  | GPULeaseCell "'m hGPULease"
  | GPULeasesCell "'m hGPULease list"
  | GPULeaseListCell "'l hGPULeaseList"
  | PodSetAssignmentCell hPodSetAssignment
  | PodSetAssignmentsCell "hPodSetAssignment list"
  | AdmissionCell hAdmission
  | PodSetCell "'t hPodSet"
  | PodSetsCell "'t hPodSet list"
  | WorkloadSpecCell hWorkloadSpec
  | WorkloadStatusCell hWorkloadStatus
  | WorkloadCell "'m hWorkload"
  | WorkloadsCell "'m hWorkload list"
  | WorkloadListCell "'l hWorkloadList"
  | ResourceFlavorSpecCell hResourceFlavorSpec
  | ResourceFlavorCell "'m hResourceFlavor"
  | ResourceFlavorsCell "'m hResourceFlavor list"
  | ResourceFlavorListCell "'l hResourceFlavorList"
  | Foreign 'x

type_synonym ('m, 'l, 't, 'x) store = "('m, 'l, 't, 'x) cell heap"

definition asTime :: "('m, 'l, 't, 'x) cell \<Rightarrow> (gotime) option" where
  "asTime c = (case c of TimeCell v \<Rightarrow> Some v | _ \<Rightarrow> None)"

definition asConditions :: "('m, 'l, 't, 'x) cell \<Rightarrow> (Condition list) option" where
  "asConditions c = (case c of ConditionsCell v \<Rightarrow> Some v | _ \<Rightarrow> None)"

definition asStrings :: "('m, 'l, 't, 'x) cell \<Rightarrow> ((string \<times> string) list) option" where
  "asStrings c = (case c of StringsCell v \<Rightarrow> Some v | _ \<Rightarrow> None)"

definition asDeploymentSettings :: "('m, 'l, 't, 'x) cell \<Rightarrow> (DeploymentSettings) option" where
  "asDeploymentSettings c = (case c of DeploymentSettingsCell v \<Rightarrow> Some v | _ \<Rightarrow> None)"

definition asObjectRef :: "('m, 'l, 't, 'x) cell \<Rightarrow> (ObjectRef) option" where
  "asObjectRef c = (case c of ObjectRefCell v \<Rightarrow> Some v | _ \<Rightarrow> None)"

definition asGPULeaseSpec :: "('m, 'l, 't, 'x) cell \<Rightarrow> (GPULeaseSpec) option" where
  "asGPULeaseSpec c = (case c of GPULeaseSpecCell v \<Rightarrow> Some v | _ \<Rightarrow> None)"

definition asGPULeaseStatus :: "('m, 'l, 't, 'x) cell \<Rightarrow> (hGPULeaseStatus) option" where
  "asGPULeaseStatus c = (case c of GPULeaseStatusCell v \<Rightarrow> Some v | _ \<Rightarrow> None)"

definition asGPULease :: "('m, 'l, 't, 'x) cell \<Rightarrow> ('m hGPULease) option" where
  "asGPULease c = (case c of GPULeaseCell v \<Rightarrow> Some v | _ \<Rightarrow> None)"

definition asGPULeases :: "('m, 'l, 't, 'x) cell \<Rightarrow> ('m hGPULease list) option" where
  "asGPULeases c = (case c of GPULeasesCell v \<Rightarrow> Some v | _ \<Rightarrow> None)"

definition asGPULeaseList :: "('m, 'l, 't, 'x) cell \<Rightarrow> ('l hGPULeaseList) option" where
  "asGPULeaseList c = (case c of GPULeaseListCell v \<Rightarrow> Some v | _ \<Rightarrow> None)"

definition asPodSetAssignment :: "('m, 'l, 't, 'x) cell \<Rightarrow> (hPodSetAssignment) option" where
  "asPodSetAssignment c = (case c of PodSetAssignmentCell v \<Rightarrow> Some v | _ \<Rightarrow> None)"

definition asPodSetAssignments :: "('m, 'l, 't, 'x) cell \<Rightarrow> (hPodSetAssignment list) option" where
  "asPodSetAssignments c = (case c of PodSetAssignmentsCell v \<Rightarrow> Some v | _ \<Rightarrow> None)"

definition asAdmission :: "('m, 'l, 't, 'x) cell \<Rightarrow> (hAdmission) option" where
  "asAdmission c = (case c of AdmissionCell v \<Rightarrow> Some v | _ \<Rightarrow> None)"

definition asPodSet :: "('m, 'l, 't, 'x) cell \<Rightarrow> ('t hPodSet) option" where
  "asPodSet c = (case c of PodSetCell v \<Rightarrow> Some v | _ \<Rightarrow> None)"

definition asPodSets :: "('m, 'l, 't, 'x) cell \<Rightarrow> ('t hPodSet list) option" where
  "asPodSets c = (case c of PodSetsCell v \<Rightarrow> Some v | _ \<Rightarrow> None)"

definition asWorkloadSpec :: "('m, 'l, 't, 'x) cell \<Rightarrow> (hWorkloadSpec) option" where
  "asWorkloadSpec c = (case c of WorkloadSpecCell v \<Rightarrow> Some v | _ \<Rightarrow> None)"

definition asWorkloadStatus :: "('m, 'l, 't, 'x) cell \<Rightarrow> (hWorkloadStatus) option" where
  "asWorkloadStatus c = (case c of WorkloadStatusCell v \<Rightarrow> Some v | _ \<Rightarrow> None)"

definition asWorkload :: "('m, 'l, 't, 'x) cell \<Rightarrow> ('m hWorkload) option" where
  "asWorkload c = (case c of WorkloadCell v \<Rightarrow> Some v | _ \<Rightarrow> None)"

definition asWorkloads :: "('m, 'l, 't, 'x) cell \<Rightarrow> ('m hWorkload list) option" where
  "asWorkloads c = (case c of WorkloadsCell v \<Rightarrow> Some v | _ \<Rightarrow> None)"

definition asWorkloadList :: "('m, 'l, 't, 'x) cell \<Rightarrow> ('l hWorkloadList) option" where
  "asWorkloadList c = (case c of WorkloadListCell v \<Rightarrow> Some v | _ \<Rightarrow> None)"

definition asResourceFlavorSpec :: "('m, 'l, 't, 'x) cell \<Rightarrow> (hResourceFlavorSpec) option" where
  "asResourceFlavorSpec c = (case c of ResourceFlavorSpecCell v \<Rightarrow> Some v | _ \<Rightarrow> None)"

definition asResourceFlavor :: "('m, 'l, 't, 'x) cell \<Rightarrow> ('m hResourceFlavor) option" where
  "asResourceFlavor c = (case c of ResourceFlavorCell v \<Rightarrow> Some v | _ \<Rightarrow> None)"

definition asResourceFlavors :: "('m, 'l, 't, 'x) cell \<Rightarrow> ('m hResourceFlavor list) option" where
  "asResourceFlavors c = (case c of ResourceFlavorsCell v \<Rightarrow> Some v | _ \<Rightarrow> None)"

definition asResourceFlavorList :: "('m, 'l, 't, 'x) cell \<Rightarrow> ('l hResourceFlavorList) option" where
  "asResourceFlavorList c = (case c of ResourceFlavorListCell v \<Rightarrow> Some v | _ \<Rightarrow> None)"

lemma as_cell [simp]:
  "asTime (TimeCell v0) = Some v0"
  "asConditions (ConditionsCell v1) = Some v1"
  "asStrings (StringsCell v2) = Some v2"
  "asDeploymentSettings (DeploymentSettingsCell v3) = Some v3"
  "asObjectRef (ObjectRefCell v4) = Some v4"
  "asGPULeaseSpec (GPULeaseSpecCell v5) = Some v5"
  "asGPULeaseStatus (GPULeaseStatusCell v6) = Some v6"
  "asGPULease (GPULeaseCell v7) = Some v7"
  "asGPULeases (GPULeasesCell v8) = Some v8"
  "asGPULeaseList (GPULeaseListCell v9) = Some v9"
  "asPodSetAssignment (PodSetAssignmentCell v10) = Some v10"
  "asPodSetAssignments (PodSetAssignmentsCell v11) = Some v11"
  "asAdmission (AdmissionCell v12) = Some v12"
  "asPodSet (PodSetCell v13) = Some v13"
  "asPodSets (PodSetsCell v14) = Some v14"
  "asWorkloadSpec (WorkloadSpecCell v15) = Some v15"
  "asWorkloadStatus (WorkloadStatusCell v16) = Some v16"
  "asWorkload (WorkloadCell v17) = Some v17"
  "asWorkloads (WorkloadsCell v18) = Some v18"
  "asWorkloadList (WorkloadListCell v19) = Some v19"
  "asResourceFlavorSpec (ResourceFlavorSpecCell v20) = Some v20"
  "asResourceFlavor (ResourceFlavorCell v21) = Some v21"
  "asResourceFlavors (ResourceFlavorsCell v22) = Some v22"
  "asResourceFlavorList (ResourceFlavorListCell v23) = Some v23"
  by (simp_all add: asTime_def asConditions_def asStrings_def asDeploymentSettings_def asObjectRef_def asGPULeaseSpec_def asGPULeaseStatus_def asGPULease_def asGPULeases_def asGPULeaseList_def asPodSetAssignment_def asPodSetAssignments_def asAdmission_def asPodSet_def asPodSets_def asWorkloadSpec_def asWorkloadStatus_def asWorkload_def asWorkloads_def asWorkloadList_def asResourceFlavorSpec_def asResourceFlavor_def asResourceFlavors_def asResourceFlavorList_def)

section \<open>The libraries\<close>

record ('m, 'l, 't, 'x) CopyLib =
  cl_Time :: "(nat option, ('m, 'l, 't, 'x) cell) copier"
  cl_Condition :: "(Condition, ('m, 'l, 't, 'x) cell) copier"
  cl_ObjectMeta :: "('m, ('m, 'l, 't, 'x) cell) copier"
  cl_ListMeta :: "('l, ('m, 'l, 't, 'x) cell) copier"
  cl_PodTemplateSpec :: "('t, ('m, 'l, 't, 'x) cell) copier"
  cl_zeroMeta :: 'm
  cl_zeroListMeta :: 'l
  cl_zeroTemplate :: 't

abbreviation timeL :: "(nat option, ('m, 'l, 't, 'x) cell, gotime option) layout" where
  "timeL \<equiv> ptrL asTime flatL"

definition machinery ::
    "('m, 'l, 't, 'x) CopyLib \<Rightarrow> ('m, ('m, 'l, 't, 'x) cell, 'mv) layout \<Rightarrow>
     ('l, ('m, 'l, 't, 'x) cell, 'lv) layout \<Rightarrow> ('t, ('m, 'l, 't, 'x) cell, 'tv) layout \<Rightarrow> bool" where
  "machinery L M N T \<longleftrightarrow>
     deep_copy timeL (cl_Time L) \<and> deep_copy flatL (cl_Condition L) \<and> deep_copy M (cl_ObjectMeta L) \<and>
     deep_copy N (cl_ListMeta L) \<and> deep_copy T (cl_PodTemplateSpec L)"

section \<open>Zero values\<close>

definition zeroCondition :: Condition where
  "zeroCondition = \<lparr> cond_Type = '''', cond_Status = '''', cond_ObservedGeneration = 0,
     cond_LastTransitionTime = 0, cond_Reason = '''', cond_Message = Lit '''' \<rparr>"

definition zeroObjectRef :: ObjectRef where
  "zeroObjectRef = \<lparr> ref_Namespace = '''', ref_Name = '''', ref_UID = '''' \<rparr>"

definition zeroGPULeaseSpec :: GPULeaseSpec where
  "zeroGPULeaseSpec = \<lparr> ls_NodeName = '''', ls_GPUID = 0, ls_GPUModel = '''', ls_ClaimRef = zeroObjectRef,
     ls_DeploymentRef = zeroObjectRef, ls_LocalQueueName = '''' \<rparr>"

definition zeroTypeMeta :: TypeMeta where
  "zeroTypeMeta = \<lparr> tm_Kind = '''', tm_APIVersion = '''' \<rparr>"

definition zeroGPULeaseStatus :: hGPULeaseStatus where
  "zeroGPULeaseStatus = \<lparr> hs_Phase = PhaseUnset, hs_WorkloadName = '''', hs_Message = Lit '''',
     hs_AdmittedAt = None, hs_BoundAt = None, hs_Conditions = None \<rparr>"

definition zeroGPULease :: "('m, 'l, 't, 'x) CopyLib \<Rightarrow> 'm hGPULease" where
  "zeroGPULease L = \<lparr> hl_Type = zeroTypeMeta, hl_Meta = cl_zeroMeta L, hl_Spec = zeroGPULeaseSpec,
     hl_Status = zeroGPULeaseStatus \<rparr>"

definition zeroAssignment :: hPodSetAssignment where
  "zeroAssignment = \<lparr> hpa_Name = '''', hpa_Flavors = None \<rparr>"

definition zeroPodSet :: "('m, 'l, 't, 'x) CopyLib \<Rightarrow> 't hPodSet" where
  "zeroPodSet L = \<lparr> hps_Name = '''', hps_Count = 0, hps_Template = cl_zeroTemplate L \<rparr>"

definition zeroWorkloadSpec :: hWorkloadSpec where
  "zeroWorkloadSpec = \<lparr> hws_QueueName = '''', hws_PodSets = None, hws_PriorityClassName = '''' \<rparr>"

definition zeroWorkloadStatus :: hWorkloadStatus where
  "zeroWorkloadStatus = \<lparr> hwt_Conditions = None, hwt_Admission = None \<rparr>"

definition zeroWorkload :: "('m, 'l, 't, 'x) CopyLib \<Rightarrow> 'm hWorkload" where
  "zeroWorkload L = \<lparr> hw_Type = zeroTypeMeta, hw_Meta = cl_zeroMeta L, hw_Spec = zeroWorkloadSpec,
     hw_Status = zeroWorkloadStatus \<rparr>"

definition zeroFlavor :: "('m, 'l, 't, 'x) CopyLib \<Rightarrow> 'm hResourceFlavor" where
  "zeroFlavor L = \<lparr> hrf_Type = zeroTypeMeta, hrf_Meta = cl_zeroMeta L, hrf_Spec = \<lparr> hrs_NodeLabels = None \<rparr> \<rparr>"

section \<open>api/v1alpha1\<close>

text \<open>
  \<open>in.DeepCopyInto(out)\<close> begins with \<open>*out = *in\<close> and so depends on nothing that \<open>*out\<close> held: it is
  a function from the struct \<open>*in\<close> to the struct left in \<open>*out\<close>. \<open>ifSet\<close> is the test for nil that
  guards a reference; in \<open>DeepCopy\<close> and in the copies of slices and maps it is part of \<open>newCopy\<close>,
  \<open>sliceCopy\<close> and \<open>mapCopy\<close>.
\<close>

definition ifSet :: "(nat option, 'c) copier \<Rightarrow> (nat option, 'c) copier" where
  "ifSet copy p h = (if p \<noteq> None then copy p h else (None, h))"

text \<open>
  A \<open>runtime.Object\<close> is an interface value: nil, or a type and a pointer of that type, which may be
  nil itself. \<open>DeepCopyObject\<close> returns the former for a nil receiver, not the latter.
\<close>

datatype ObjectKind =
    KindGPULease
  | KindGPULeaseList
  | KindWorkload
  | KindWorkloadList
  | KindResourceFlavor
  | KindResourceFlavorList

datatype Object = NilObject | Object ObjectKind "nat option"

definition DeepCopyInto_DeploymentSettings :: "(DeploymentSettings, ('m, 'l, 't, 'x) cell) copier" where
  "DeepCopyInto_DeploymentSettings src h = (src, h)"

definition DeepCopy_DeploymentSettings :: "(nat option, ('m, 'l, 't, 'x) cell) copier" where
  "DeepCopy_DeploymentSettings = newCopy DeploymentSettingsCell asDeploymentSettings 
     \<lparr> WarmReplicas = 0, MinHotReplicas = 0, LocalQueueName = [], PodCapacityRPS = 0, ActivationTimeout = 0,
       AdmissionTimeout = 0 \<rparr> DeepCopyInto_DeploymentSettings"

definition DeepCopyInto_ObjectRef :: "(ObjectRef, ('m, 'l, 't, 'x) cell) copier" where
  "DeepCopyInto_ObjectRef src h = (src, h)"

definition DeepCopy_ObjectRef :: "(nat option, ('m, 'l, 't, 'x) cell) copier" where
  "DeepCopy_ObjectRef = newCopy ObjectRefCell asObjectRef zeroObjectRef DeepCopyInto_ObjectRef"

definition DeepCopyInto_GPULeaseSpec :: "(GPULeaseSpec, ('m, 'l, 't, 'x) cell) copier" where
  "DeepCopyInto_GPULeaseSpec src h = (src\<lparr>ls_ClaimRef := ls_ClaimRef src, ls_DeploymentRef := ls_DeploymentRef src\<rparr>, h)"

definition DeepCopy_GPULeaseSpec :: "(nat option, ('m, 'l, 't, 'x) cell) copier" where
  "DeepCopy_GPULeaseSpec = newCopy GPULeaseSpecCell asGPULeaseSpec zeroGPULeaseSpec DeepCopyInto_GPULeaseSpec"

definition DeepCopyInto_GPULeaseStatus :: "('m, 'l, 't, 'x) CopyLib \<Rightarrow> (hGPULeaseStatus, ('m, 'l, 't, 'x) cell) copier" where
  "DeepCopyInto_GPULeaseStatus L src h = (let
       (a, h1) = ifSet (cl_Time L) (hs_AdmittedAt src) h;
       (b, h2) = ifSet (cl_Time L) (hs_BoundAt src) h1;
       (cs, h3) = sliceCopy ConditionsCell asConditions zeroCondition (cl_Condition L) (hs_Conditions src) h2
     in (src\<lparr>hs_AdmittedAt := a, hs_BoundAt := b, hs_Conditions := cs\<rparr>, h3))"

definition DeepCopy_GPULeaseStatus :: "('m, 'l, 't, 'x) CopyLib \<Rightarrow> (nat option, ('m, 'l, 't, 'x) cell) copier" where
  "DeepCopy_GPULeaseStatus L = newCopy GPULeaseStatusCell asGPULeaseStatus zeroGPULeaseStatus (DeepCopyInto_GPULeaseStatus L)"

definition DeepCopyInto_GPULease :: "('m, 'l, 't, 'x) CopyLib \<Rightarrow> ('m hGPULease, ('m, 'l, 't, 'x) cell) copier" where
  "DeepCopyInto_GPULease L src h = (let
       (m, h1) = cl_ObjectMeta L (hl_Meta src) h;
       (st, h2) = DeepCopyInto_GPULeaseStatus L (hl_Status src) h1
     in (src\<lparr>hl_Type := hl_Type src, hl_Meta := m, hl_Spec := hl_Spec src, hl_Status := st\<rparr>, h2))"

definition DeepCopy_GPULease :: "('m, 'l, 't, 'x) CopyLib \<Rightarrow> (nat option, ('m, 'l, 't, 'x) cell) copier" where
  "DeepCopy_GPULease L = newCopy GPULeaseCell asGPULease (zeroGPULease L) (DeepCopyInto_GPULease L)"

definition DeepCopyObject_GPULease :: "('m, 'l, 't, 'x) CopyLib \<Rightarrow> nat option \<Rightarrow> (('m, 'l, 't, 'x) cell) heap \<Rightarrow> Object \<times> (('m, 'l, 't, 'x) cell) heap" where
  "DeepCopyObject_GPULease L p h =
     (let (c, h1) = DeepCopy_GPULease L p h in (if c \<noteq> None then Object KindGPULease c else NilObject, h1))"

definition DeepCopyInto_GPULeaseList :: "('m, 'l, 't, 'x) CopyLib \<Rightarrow> ('l hGPULeaseList, ('m, 'l, 't, 'x) cell) copier" where
  "DeepCopyInto_GPULeaseList L src h = (let
       (m, h1) = cl_ListMeta L (hll_Meta src) h;
       (items, h2) = sliceCopy GPULeasesCell asGPULeases (zeroGPULease L) (DeepCopyInto_GPULease L) (hll_Items src) h1
     in (src\<lparr>hll_Type := hll_Type src, hll_Meta := m, hll_Items := items\<rparr>, h2))"

definition DeepCopy_GPULeaseList :: "('m, 'l, 't, 'x) CopyLib \<Rightarrow> (nat option, ('m, 'l, 't, 'x) cell) copier" where
  "DeepCopy_GPULeaseList L = newCopy GPULeaseListCell asGPULeaseList 
     \<lparr> hll_Type = zeroTypeMeta, hll_Meta = cl_zeroListMeta L, hll_Items = None \<rparr> (DeepCopyInto_GPULeaseList L)"

definition DeepCopyObject_GPULeaseList :: "('m, 'l, 't, 'x) CopyLib \<Rightarrow> nat option \<Rightarrow> (('m, 'l, 't, 'x) cell) heap \<Rightarrow> Object \<times> (('m, 'l, 't, 'x) cell) heap" where
  "DeepCopyObject_GPULeaseList L p h =
     (let (c, h1) = DeepCopy_GPULeaseList L p h in (if c \<noteq> None then Object KindGPULeaseList c else NilObject, h1))"

section \<open>internal/kueue/v1beta2\<close>

definition DeepCopyInto_PodSetAssignment :: "(hPodSetAssignment, ('m, 'l, 't, 'x) cell) copier" where
  "DeepCopyInto_PodSetAssignment src h = (let
       (m, h1) = mapCopy StringsCell asStrings (hpa_Flavors src) h
     in (src\<lparr>hpa_Flavors := m\<rparr>, h1))"

definition DeepCopy_PodSetAssignment :: "(nat option, ('m, 'l, 't, 'x) cell) copier" where
  "DeepCopy_PodSetAssignment = newCopy PodSetAssignmentCell asPodSetAssignment zeroAssignment DeepCopyInto_PodSetAssignment"

definition DeepCopyInto_Admission :: "(hAdmission, ('m, 'l, 't, 'x) cell) copier" where
  "DeepCopyInto_Admission src h = (let
       (as, h1) = sliceCopy PodSetAssignmentsCell asPodSetAssignments zeroAssignment DeepCopyInto_PodSetAssignment
         (ha_PodSetAssignments src) h
     in (src\<lparr>ha_PodSetAssignments := as\<rparr>, h1))"

definition DeepCopy_Admission :: "(nat option, ('m, 'l, 't, 'x) cell) copier" where
  "DeepCopy_Admission = newCopy AdmissionCell asAdmission \<lparr> ha_ClusterQueue = [], ha_PodSetAssignments = None \<rparr> DeepCopyInto_Admission"

definition DeepCopyInto_PodSet :: "('m, 'l, 't, 'x) CopyLib \<Rightarrow> ('t hPodSet, ('m, 'l, 't, 'x) cell) copier" where
  "DeepCopyInto_PodSet L src h = (let
       (t, h1) = cl_PodTemplateSpec L (hps_Template src) h
     in (src\<lparr>hps_Template := t\<rparr>, h1))"

definition DeepCopy_PodSet :: "('m, 'l, 't, 'x) CopyLib \<Rightarrow> (nat option, ('m, 'l, 't, 'x) cell) copier" where
  "DeepCopy_PodSet L = newCopy PodSetCell asPodSet (zeroPodSet L) (DeepCopyInto_PodSet L)"

definition DeepCopyInto_ResourceFlavorSpec :: "(hResourceFlavorSpec, ('m, 'l, 't, 'x) cell) copier" where
  "DeepCopyInto_ResourceFlavorSpec src h = (let
       (m, h1) = mapCopy StringsCell asStrings (hrs_NodeLabels src) h
     in (src\<lparr>hrs_NodeLabels := m\<rparr>, h1))"

definition DeepCopy_ResourceFlavorSpec :: "(nat option, ('m, 'l, 't, 'x) cell) copier" where
  "DeepCopy_ResourceFlavorSpec = newCopy ResourceFlavorSpecCell asResourceFlavorSpec \<lparr> hrs_NodeLabels = None \<rparr> DeepCopyInto_ResourceFlavorSpec"

definition DeepCopyInto_ResourceFlavor :: "('m, 'l, 't, 'x) CopyLib \<Rightarrow> ('m hResourceFlavor, ('m, 'l, 't, 'x) cell) copier" where
  "DeepCopyInto_ResourceFlavor L src h = (let
       (m, h1) = cl_ObjectMeta L (hrf_Meta src) h;
       (sp, h2) = DeepCopyInto_ResourceFlavorSpec (hrf_Spec src) h1
     in (src\<lparr>hrf_Type := hrf_Type src, hrf_Meta := m, hrf_Spec := sp\<rparr>, h2))"

definition DeepCopy_ResourceFlavor :: "('m, 'l, 't, 'x) CopyLib \<Rightarrow> (nat option, ('m, 'l, 't, 'x) cell) copier" where
  "DeepCopy_ResourceFlavor L = newCopy ResourceFlavorCell asResourceFlavor (zeroFlavor L) (DeepCopyInto_ResourceFlavor L)"

definition DeepCopyObject_ResourceFlavor :: "('m, 'l, 't, 'x) CopyLib \<Rightarrow> nat option \<Rightarrow> (('m, 'l, 't, 'x) cell) heap \<Rightarrow> Object \<times> (('m, 'l, 't, 'x) cell) heap" where
  "DeepCopyObject_ResourceFlavor L p h =
     (let (c, h1) = DeepCopy_ResourceFlavor L p h in (if c \<noteq> None then Object KindResourceFlavor c else NilObject, h1))"

definition DeepCopyInto_ResourceFlavorList :: "('m, 'l, 't, 'x) CopyLib \<Rightarrow> ('l hResourceFlavorList, ('m, 'l, 't, 'x) cell) copier" where
  "DeepCopyInto_ResourceFlavorList L src h = (let
       (m, h1) = cl_ListMeta L (hrl_Meta src) h;
       (items, h2) = sliceCopy ResourceFlavorsCell asResourceFlavors (zeroFlavor L) (DeepCopyInto_ResourceFlavor L)
         (hrl_Items src) h1
     in (src\<lparr>hrl_Type := hrl_Type src, hrl_Meta := m, hrl_Items := items\<rparr>, h2))"

definition DeepCopy_ResourceFlavorList :: "('m, 'l, 't, 'x) CopyLib \<Rightarrow> (nat option, ('m, 'l, 't, 'x) cell) copier" where
  "DeepCopy_ResourceFlavorList L = newCopy ResourceFlavorListCell asResourceFlavorList 
     \<lparr> hrl_Type = zeroTypeMeta, hrl_Meta = cl_zeroListMeta L, hrl_Items = None \<rparr> (DeepCopyInto_ResourceFlavorList L)"

definition DeepCopyObject_ResourceFlavorList :: "('m, 'l, 't, 'x) CopyLib \<Rightarrow> nat option \<Rightarrow> (('m, 'l, 't, 'x) cell) heap \<Rightarrow> Object \<times> (('m, 'l, 't, 'x) cell) heap" where
  "DeepCopyObject_ResourceFlavorList L p h =
     (let (c, h1) = DeepCopy_ResourceFlavorList L p h in (if c \<noteq> None then Object KindResourceFlavorList c else NilObject, h1))"

definition DeepCopyInto_WorkloadSpec :: "('m, 'l, 't, 'x) CopyLib \<Rightarrow> (hWorkloadSpec, ('m, 'l, 't, 'x) cell) copier" where
  "DeepCopyInto_WorkloadSpec L src h = (let
       (ps, h1) = sliceCopy PodSetsCell asPodSets (zeroPodSet L) (DeepCopyInto_PodSet L) (hws_PodSets src) h
     in (src\<lparr>hws_PodSets := ps\<rparr>, h1))"

definition DeepCopy_WorkloadSpec :: "('m, 'l, 't, 'x) CopyLib \<Rightarrow> (nat option, ('m, 'l, 't, 'x) cell) copier" where
  "DeepCopy_WorkloadSpec L = newCopy WorkloadSpecCell asWorkloadSpec zeroWorkloadSpec (DeepCopyInto_WorkloadSpec L)"

definition DeepCopyInto_WorkloadStatus :: "('m, 'l, 't, 'x) CopyLib \<Rightarrow> (hWorkloadStatus, ('m, 'l, 't, 'x) cell) copier" where
  "DeepCopyInto_WorkloadStatus L src h = (let
       (cs, h1) = sliceCopy ConditionsCell asConditions zeroCondition (cl_Condition L) (hwt_Conditions src) h;
       (a, h2) = newCopy AdmissionCell asAdmission \<lparr> ha_ClusterQueue = [], ha_PodSetAssignments = None \<rparr>
         DeepCopyInto_Admission (hwt_Admission src) h1
     in (src\<lparr>hwt_Conditions := cs, hwt_Admission := a\<rparr>, h2))"

definition DeepCopy_WorkloadStatus :: "('m, 'l, 't, 'x) CopyLib \<Rightarrow> (nat option, ('m, 'l, 't, 'x) cell) copier" where
  "DeepCopy_WorkloadStatus L = newCopy WorkloadStatusCell asWorkloadStatus zeroWorkloadStatus (DeepCopyInto_WorkloadStatus L)"

definition DeepCopyInto_Workload :: "('m, 'l, 't, 'x) CopyLib \<Rightarrow> ('m hWorkload, ('m, 'l, 't, 'x) cell) copier" where
  "DeepCopyInto_Workload L src h = (let
       (m, h1) = cl_ObjectMeta L (hw_Meta src) h;
       (sp, h2) = DeepCopyInto_WorkloadSpec L (hw_Spec src) h1;
       (st, h3) = DeepCopyInto_WorkloadStatus L (hw_Status src) h2
     in (src\<lparr>hw_Type := hw_Type src, hw_Meta := m, hw_Spec := sp, hw_Status := st\<rparr>, h3))"

definition DeepCopy_Workload :: "('m, 'l, 't, 'x) CopyLib \<Rightarrow> (nat option, ('m, 'l, 't, 'x) cell) copier" where
  "DeepCopy_Workload L = newCopy WorkloadCell asWorkload (zeroWorkload L) (DeepCopyInto_Workload L)"

definition DeepCopyObject_Workload :: "('m, 'l, 't, 'x) CopyLib \<Rightarrow> nat option \<Rightarrow> (('m, 'l, 't, 'x) cell) heap \<Rightarrow> Object \<times> (('m, 'l, 't, 'x) cell) heap" where
  "DeepCopyObject_Workload L p h =
     (let (c, h1) = DeepCopy_Workload L p h in (if c \<noteq> None then Object KindWorkload c else NilObject, h1))"

definition DeepCopyInto_WorkloadList :: "('m, 'l, 't, 'x) CopyLib \<Rightarrow> ('l hWorkloadList, ('m, 'l, 't, 'x) cell) copier" where
  "DeepCopyInto_WorkloadList L src h = (let
       (m, h1) = cl_ListMeta L (hwl_Meta src) h;
       (items, h2) = sliceCopy WorkloadsCell asWorkloads (zeroWorkload L) (DeepCopyInto_Workload L) (hwl_Items src) h1
     in (src\<lparr>hwl_Type := hwl_Type src, hwl_Meta := m, hwl_Items := items\<rparr>, h2))"

definition DeepCopy_WorkloadList :: "('m, 'l, 't, 'x) CopyLib \<Rightarrow> (nat option, ('m, 'l, 't, 'x) cell) copier" where
  "DeepCopy_WorkloadList L = newCopy WorkloadListCell asWorkloadList 
     \<lparr> hwl_Type = zeroTypeMeta, hwl_Meta = cl_zeroListMeta L, hwl_Items = None \<rparr> (DeepCopyInto_WorkloadList L)"

definition DeepCopyObject_WorkloadList :: "('m, 'l, 't, 'x) CopyLib \<Rightarrow> nat option \<Rightarrow> (('m, 'l, 't, 'x) cell) heap \<Rightarrow> Object \<times> (('m, 'l, 't, 'x) cell) heap" where
  "DeepCopyObject_WorkloadList L p h =
     (let (c, h1) = DeepCopy_WorkloadList L p h in (if c \<noteq> None then Object KindWorkloadList c else NilObject, h1))"

section \<open>Layouts\<close>

text \<open>What the structs reach and denote: a nil slice and an empty one are different values.\<close>

definition layoutGPULeaseStatus where
  "layoutGPULeaseStatus = structL (\<lambda>s. (hs_AdmittedAt s, hs_BoundAt s, hs_Conditions s))
     (\<lambda>s v. (hs_Phase s, hs_WorkloadName s, hs_Message s, v))
     (pairL timeL (pairL timeL (sliceL asConditions flatL)))"

definition layoutGPULease where
  "layoutGPULease M = structL (\<lambda>l. (hl_Meta l, hl_Status l)) (\<lambda>l v. (hl_Type l, hl_Spec l, v))
     (pairL M layoutGPULeaseStatus)"

definition layoutGPULeaseList where
  "layoutGPULeaseList M N = structL (\<lambda>l. (hll_Meta l, hll_Items l)) (\<lambda>l v. (hll_Type l, v))
     (pairL N (sliceL asGPULeases (layoutGPULease M)))"

definition layoutPodSetAssignment where
  "layoutPodSetAssignment = structL hpa_Flavors (\<lambda>a v. (hpa_Name a, v)) (mapL asStrings)"

definition layoutAdmission where
  "layoutAdmission = structL ha_PodSetAssignments (\<lambda>a v. (ha_ClusterQueue a, v))
     (sliceL asPodSetAssignments layoutPodSetAssignment)"

definition layoutPodSet where
  "layoutPodSet T = structL hps_Template (\<lambda>s v. (hps_Name s, hps_Count s, v)) T"

definition layoutResourceFlavorSpec where
  "layoutResourceFlavorSpec = structL hrs_NodeLabels (\<lambda>_ v. v) (mapL asStrings)"

definition layoutResourceFlavor where
  "layoutResourceFlavor M = structL (\<lambda>f. (hrf_Meta f, hrf_Spec f)) (\<lambda>f v. (hrf_Type f, v))
     (pairL M layoutResourceFlavorSpec)"

definition layoutResourceFlavorList where
  "layoutResourceFlavorList M N = structL (\<lambda>l. (hrl_Meta l, hrl_Items l)) (\<lambda>l v. (hrl_Type l, v))
     (pairL N (sliceL asResourceFlavors (layoutResourceFlavor M)))"

definition layoutWorkloadSpec where
  "layoutWorkloadSpec T = structL hws_PodSets (\<lambda>s v. (hws_QueueName s, hws_PriorityClassName s, v))
     (sliceL asPodSets (layoutPodSet T))"

definition layoutWorkloadStatus where
  "layoutWorkloadStatus = structL (\<lambda>s. (hwt_Conditions s, hwt_Admission s)) (\<lambda>_ v. v)
     (pairL (sliceL asConditions flatL) (ptrL asAdmission layoutAdmission))"

definition layoutWorkload where
  "layoutWorkload M T = structL (\<lambda>w. (hw_Meta w, hw_Spec w, hw_Status w)) (\<lambda>w v. (hw_Type w, v))
     (pairL M (pairL (layoutWorkloadSpec T) layoutWorkloadStatus))"

definition layoutWorkloadList where
  "layoutWorkloadList M N T = structL (\<lambda>l. (hwl_Meta l, hwl_Items l)) (\<lambda>l v. (hwl_Type l, v))
     (pairL N (sliceL asWorkloads (layoutWorkload M T)))"

section \<open>The copies are deep\<close>

lemma deep_copy_ifSet:
  assumes c: "deep_copy (ptrL prj S) c"
  shows "deep_copy (ptrL prj S) (ifSet c)"
proof (rule deep_copy.intro [OF deep_copy.layout_typed [OF c]], unfold_locales)
  fix p h q h'
  assume wf: "wf (ptrL prj S) p h" and cp: "ifSet c p h = (q, h')"
  show "hp_next h \<le> hp_next h' \<and> agree {..<hp_next h} h h'"
    and "wf (ptrL prj S) q h' \<and> reach (ptrL prj S) q h' \<subseteq> {hp_next h..<hp_next h'}"
    and "denote (ptrL prj S) q h' = denote (ptrL prj S) p h"
    using cp deep_copy.copy_grows [OF c wf] deep_copy.copy_fresh [OF c wf] deep_copy.copy_denotes [OF c wf]
    by (cases p; auto simp: ifSet_def)+
qed

text \<open>The structs without parts of the libraries.\<close>

interpretation settings_copy: deep_copy flatL DeepCopyInto_DeploymentSettings
  by unfold_locales (auto simp: flatL_def DeepCopyInto_DeploymentSettings_def)

interpretation ref_copy: deep_copy flatL DeepCopyInto_ObjectRef
  by unfold_locales (auto simp: flatL_def DeepCopyInto_ObjectRef_def)

interpretation spec_copy: deep_copy flatL DeepCopyInto_GPULeaseSpec
  by unfold_locales (auto simp: flatL_def DeepCopyInto_GPULeaseSpec_def)

interpretation assignment_copy: deep_copy layoutPodSetAssignment DeepCopyInto_PodSetAssignment
  unfolding layoutPodSetAssignment_def
  by (rule deep_copy_struct [OF deep_copy_map [where mk = StringsCell], where put = "\<lambda>m a. a\<lparr>hpa_Flavors := m\<rparr>"])
    (simp_all add: DeepCopyInto_PodSetAssignment_def)

interpretation admission_copy: deep_copy layoutAdmission DeepCopyInto_Admission
  unfolding layoutAdmission_def
  by (rule deep_copy_struct [OF deep_copy_slice [OF assignment_copy.deep_copy_axioms, where mk = PodSetAssignmentsCell],
        where put = "\<lambda>s a. a\<lparr>ha_PodSetAssignments := s\<rparr>"])
    (simp_all add: DeepCopyInto_Admission_def)

interpretation flavor_spec_copy: deep_copy layoutResourceFlavorSpec DeepCopyInto_ResourceFlavorSpec
  unfolding layoutResourceFlavorSpec_def
  by (rule deep_copy_struct [OF deep_copy_map [where mk = StringsCell], where put = "\<lambda>m s. s\<lparr>hrs_NodeLabels := m\<rparr>"])
    (simp_all add: DeepCopyInto_ResourceFlavorSpec_def)

text \<open>The others, given that the copies of the libraries are.\<close>

lemma machinery_copies:
  assumes "machinery L M N T"
  shows "deep_copy timeL (cl_Time L)" "deep_copy flatL (cl_Condition L)" "deep_copy M (cl_ObjectMeta L)"
    "deep_copy N (cl_ListMeta L)" "deep_copy T (cl_PodTemplateSpec L)"
  using assms by (simp_all add: machinery_def)

lemma conditions_copy:
  "machinery L M N T \<Longrightarrow>
    deep_copy (sliceL asConditions flatL) (sliceCopy ConditionsCell asConditions zeroCondition (cl_Condition L))"
  by (simp add: deep_copy_slice machinery_copies)

lemma lease_status_copy:
  assumes "machinery L M N T"
  shows "deep_copy layoutGPULeaseStatus (DeepCopyInto_GPULeaseStatus L)"
proof -
  note t = deep_copy_ifSet [OF machinery_copies(1) [OF assms]]
  show ?thesis unfolding layoutGPULeaseStatus_def
    by (rule deep_copy_struct [OF deep_copy_pair [OF t deep_copy_pair [OF t conditions_copy [OF assms]]],
          where put = "\<lambda>(a, b, cs) s. s\<lparr>hs_AdmittedAt := a, hs_BoundAt := b, hs_Conditions := cs\<rparr>"])
      (auto simp: DeepCopyInto_GPULeaseStatus_def pairCopy_def split: prod.splits)
qed

lemma lease_copy:
  assumes "machinery L M N T"
  shows "deep_copy (layoutGPULease M) (DeepCopyInto_GPULease L)"
  unfolding layoutGPULease_def
  by (rule deep_copy_struct [OF deep_copy_pair [OF machinery_copies(3) [OF assms] lease_status_copy [OF assms]],
        where put = "\<lambda>(m, st) l. l\<lparr>hl_Meta := m, hl_Status := st\<rparr>"])
    (auto simp: DeepCopyInto_GPULease_def pairCopy_def split: prod.splits)

lemma lease_list_copy:
  assumes "machinery L M N T"
  shows "deep_copy (layoutGPULeaseList M N) (DeepCopyInto_GPULeaseList L)"
  unfolding layoutGPULeaseList_def
  by (rule deep_copy_struct [OF deep_copy_pair [OF machinery_copies(4) [OF assms]
          deep_copy_slice [OF lease_copy [OF assms], where mk = GPULeasesCell and zero = "zeroGPULease L"]],
        where put = "\<lambda>(m, is) l. l\<lparr>hll_Meta := m, hll_Items := is\<rparr>"])
    (auto simp: DeepCopyInto_GPULeaseList_def pairCopy_def split: prod.splits)

lemma flavor_copy:
  assumes "machinery L M N T"
  shows "deep_copy (layoutResourceFlavor M) (DeepCopyInto_ResourceFlavor L)"
  unfolding layoutResourceFlavor_def
  by (rule deep_copy_struct [OF deep_copy_pair [OF machinery_copies(3) [OF assms] flavor_spec_copy.deep_copy_axioms],
        where put = "\<lambda>(m, sp) f. f\<lparr>hrf_Meta := m, hrf_Spec := sp\<rparr>"])
    (auto simp: DeepCopyInto_ResourceFlavor_def pairCopy_def split: prod.splits)

lemma flavor_list_copy:
  assumes "machinery L M N T"
  shows "deep_copy (layoutResourceFlavorList M N) (DeepCopyInto_ResourceFlavorList L)"
  unfolding layoutResourceFlavorList_def
  by (rule deep_copy_struct [OF deep_copy_pair [OF machinery_copies(4) [OF assms]
          deep_copy_slice [OF flavor_copy [OF assms], where mk = ResourceFlavorsCell and zero = "zeroFlavor L"]],
        where put = "\<lambda>(m, is) l. l\<lparr>hrl_Meta := m, hrl_Items := is\<rparr>"])
    (auto simp: DeepCopyInto_ResourceFlavorList_def pairCopy_def split: prod.splits)

lemma pod_set_copy: "machinery L M N T \<Longrightarrow> deep_copy (layoutPodSet T) (DeepCopyInto_PodSet L)"
  unfolding layoutPodSet_def
  by (rule deep_copy_struct [OF machinery_copies(5), where put = "\<lambda>t s. s\<lparr>hps_Template := t\<rparr>"])
    (simp_all add: DeepCopyInto_PodSet_def)

lemma workload_spec_copy:
  assumes "machinery L M N T"
  shows "deep_copy (layoutWorkloadSpec T) (DeepCopyInto_WorkloadSpec L)"
  unfolding layoutWorkloadSpec_def
  by (rule deep_copy_struct [OF deep_copy_slice [OF pod_set_copy [OF assms], where mk = PodSetsCell and zero = "zeroPodSet L"],
        where put = "\<lambda>ps s. s\<lparr>hws_PodSets := ps\<rparr>"])
    (simp_all add: DeepCopyInto_WorkloadSpec_def)

lemma workload_status_copy:
  assumes "machinery L M N T"
  shows "deep_copy layoutWorkloadStatus (DeepCopyInto_WorkloadStatus L)"
  unfolding layoutWorkloadStatus_def
  by (rule deep_copy_struct [OF deep_copy_pair [OF conditions_copy [OF assms]
          deep_copy_new [OF admission_copy.deep_copy_axioms, where mk = AdmissionCell
            and zero = "\<lparr> ha_ClusterQueue = [], ha_PodSetAssignments = None \<rparr>"]],
        where put = "\<lambda>(cs, a) s. s\<lparr>hwt_Conditions := cs, hwt_Admission := a\<rparr>"])
    (auto simp: DeepCopyInto_WorkloadStatus_def pairCopy_def split: prod.splits)

lemma workload_copy:
  assumes "machinery L M N T"
  shows "deep_copy (layoutWorkload M T) (DeepCopyInto_Workload L)"
  unfolding layoutWorkload_def
  by (rule deep_copy_struct [OF deep_copy_pair [OF machinery_copies(3) [OF assms]
          deep_copy_pair [OF workload_spec_copy [OF assms] workload_status_copy [OF assms]]],
        where put = "\<lambda>(m, sp, st) w. w\<lparr>hw_Meta := m, hw_Spec := sp, hw_Status := st\<rparr>"])
    (auto simp: DeepCopyInto_Workload_def pairCopy_def split: prod.splits)

lemma workload_list_copy:
  assumes "machinery L M N T"
  shows "deep_copy (layoutWorkloadList M N T) (DeepCopyInto_WorkloadList L)"
  unfolding layoutWorkloadList_def
  by (rule deep_copy_struct [OF deep_copy_pair [OF machinery_copies(4) [OF assms]
          deep_copy_slice [OF workload_copy [OF assms], where mk = WorkloadsCell and zero = "zeroWorkload L"]],
        where put = "\<lambda>(m, is) l. l\<lparr>hwl_Meta := m, hwl_Items := is\<rparr>"])
    (auto simp: DeepCopyInto_WorkloadList_def pairCopy_def split: prod.splits)

text \<open>\<open>DeepCopy\<close> of the structs that are parts of API objects.\<close>

lemma part_copies:
  assumes "machinery L M N T"
  shows "deep_copy (ptrL asDeploymentSettings flatL) DeepCopy_DeploymentSettings"
    "deep_copy (ptrL asObjectRef flatL) DeepCopy_ObjectRef"
    "deep_copy (ptrL asGPULeaseSpec flatL) DeepCopy_GPULeaseSpec"
    "deep_copy (ptrL asGPULeaseStatus layoutGPULeaseStatus) (DeepCopy_GPULeaseStatus L)"
    "deep_copy (ptrL asPodSetAssignment layoutPodSetAssignment) DeepCopy_PodSetAssignment"
    "deep_copy (ptrL asAdmission layoutAdmission) DeepCopy_Admission"
    "deep_copy (ptrL asPodSet (layoutPodSet T)) (DeepCopy_PodSet L)"
    "deep_copy (ptrL asResourceFlavorSpec layoutResourceFlavorSpec) DeepCopy_ResourceFlavorSpec"
    "deep_copy (ptrL asWorkloadSpec (layoutWorkloadSpec T)) (DeepCopy_WorkloadSpec L)"
    "deep_copy (ptrL asWorkloadStatus layoutWorkloadStatus) (DeepCopy_WorkloadStatus L)"
  by (simp_all add: deep_copy_new DeepCopy_DeploymentSettings_def DeepCopy_ObjectRef_def DeepCopy_GPULeaseSpec_def
      DeepCopy_GPULeaseStatus_def DeepCopy_PodSetAssignment_def DeepCopy_Admission_def DeepCopy_PodSet_def
      DeepCopy_ResourceFlavorSpec_def DeepCopy_WorkloadSpec_def DeepCopy_WorkloadStatus_def
      settings_copy.deep_copy_axioms ref_copy.deep_copy_axioms spec_copy.deep_copy_axioms
      assignment_copy.deep_copy_axioms admission_copy.deep_copy_axioms flavor_spec_copy.deep_copy_axioms
      lease_status_copy [OF assms] pod_set_copy [OF assms] workload_spec_copy [OF assms] workload_status_copy [OF assms])

section \<open>Copies of API objects\<close>

text \<open>
  \<open>isolates copyObject k S\<close>: the copy of a nil pointer is the nil interface; the copy of any other is
  an object of kind \<open>k\<close> with a pointer to a separate copy.
\<close>

fun pointerOf :: "Object \<Rightarrow> nat option" where
  "pointerOf NilObject = None"
| "pointerOf (Object k p) = p"

definition isolates ::
    "(nat option \<Rightarrow> 'c heap \<Rightarrow> Object \<times> 'c heap) \<Rightarrow> ObjectKind \<Rightarrow> (nat option, 'c, 'v) layout \<Rightarrow> bool" where
  "isolates copyObject k S \<longleftrightarrow>
     (\<forall>p h obj h'. wf S p h \<longrightarrow> copyObject p h = (obj, h') \<longrightarrow>
        (p = None \<longrightarrow> obj = NilObject) \<and> (p \<noteq> None \<longrightarrow> (\<exists>b. obj = Object k (Some b))) \<and>
        separate_copy S p h (pointerOf obj) h')"

lemma newCopy_nil [simp]: "newCopy mk prj zero c None h = (None, h)"
  by (simp add: newCopy_def addrCopy_def)

lemma newCopy_new: "wf (ptrL prj S) (Some a) h \<Longrightarrow> \<exists>b h'. newCopy mk prj zero c (Some a) h = (Some b, h')"
  by (auto simp: newCopy_def addrCopy_def split: prod.splits)

lemma isolates_new:
  assumes c: "deep_copy S c" and prj: "\<And>v. prj (mk v) = Some v"
    and obj: "\<And>p h. copyObject p h =
      (let (q, h1) = newCopy mk prj zero c p h in (if q \<noteq> None then Object k q else NilObject, h1))"
  shows "isolates copyObject k (ptrL prj S)"
  unfolding isolates_def
proof (intro allI impI)
  fix p h ob h'
  assume wf: "wf (ptrL prj S) p h" and cp: "copyObject p h = (ob, h')"
  obtain q where q: "newCopy mk prj zero c p h = (q, h')" "ob = (if q \<noteq> None then Object k q else NilObject)"
    using cp by (auto simp: obj split: prod.splits if_splits)
  have "separate_copy (ptrL prj S) p h q h'"
    by (rule deep_copy_separates [OF deep_copy_new [of S c prj mk, OF c prj] wf q(1)])
  moreover have "p = None \<longleftrightarrow> q = None" using q(1) wf newCopy_new [of prj S _ h mk zero c] by (cases p) fastforce+
  ultimately show "(p = None \<longrightarrow> ob = NilObject) \<and> (p \<noteq> None \<longrightarrow> (\<exists>b. ob = Object k (Some b))) \<and>
      separate_copy (ptrL prj S) p h (pointerOf ob) h'"
    using q(2) by (cases q) auto
qed

text \<open>
  C20: A reconciler may change the objects the client gives it: for every kind the two API packages
  register, \<open>DeepCopyObject\<close> of an object returns an object of the same kind that reads the same
  (nil and empty slices and maps included), leaves everything that was allocated as it was, and
  shares no memory with the original, so that whatever is written through one of the two is not
  seen through the other; of a nil pointer it returns the nil interface. This assumes that the copies
  of the libraries' own types are deep (\<open>machinery\<close>).
\<close>

theorem deepcopy_isolates:
  assumes "machinery L M N T"
  shows "isolates (DeepCopyObject_GPULease L) KindGPULease (ptrL asGPULease (layoutGPULease M)) \<and>
    isolates (DeepCopyObject_GPULeaseList L) KindGPULeaseList (ptrL asGPULeaseList (layoutGPULeaseList M N)) \<and>
    isolates (DeepCopyObject_Workload L) KindWorkload (ptrL asWorkload (layoutWorkload M T)) \<and>
    isolates (DeepCopyObject_WorkloadList L) KindWorkloadList (ptrL asWorkloadList (layoutWorkloadList M N T)) \<and>
    isolates (DeepCopyObject_ResourceFlavor L) KindResourceFlavor (ptrL asResourceFlavor (layoutResourceFlavor M)) \<and>
    isolates (DeepCopyObject_ResourceFlavorList L) KindResourceFlavorList
      (ptrL asResourceFlavorList (layoutResourceFlavorList M N))"
proof (intro conjI)
  show "isolates (DeepCopyObject_GPULease L) KindGPULease (ptrL asGPULease (layoutGPULease M))"
    by (rule isolates_new [OF lease_copy [OF assms], where mk = GPULeaseCell and zero = "zeroGPULease L"])
      (simp_all add: DeepCopyObject_GPULease_def DeepCopy_GPULease_def)
  show "isolates (DeepCopyObject_GPULeaseList L) KindGPULeaseList (ptrL asGPULeaseList (layoutGPULeaseList M N))"
    by (rule isolates_new [OF lease_list_copy [OF assms], where mk = GPULeaseListCell])
      (simp_all add: DeepCopyObject_GPULeaseList_def DeepCopy_GPULeaseList_def)
  show "isolates (DeepCopyObject_Workload L) KindWorkload (ptrL asWorkload (layoutWorkload M T))"
    by (rule isolates_new [OF workload_copy [OF assms], where mk = WorkloadCell])
      (simp_all add: DeepCopyObject_Workload_def DeepCopy_Workload_def)
  show "isolates (DeepCopyObject_WorkloadList L) KindWorkloadList (ptrL asWorkloadList (layoutWorkloadList M N T))"
    by (rule isolates_new [OF workload_list_copy [OF assms], where mk = WorkloadListCell])
      (simp_all add: DeepCopyObject_WorkloadList_def DeepCopy_WorkloadList_def)
  show "isolates (DeepCopyObject_ResourceFlavor L) KindResourceFlavor (ptrL asResourceFlavor (layoutResourceFlavor M))"
    by (rule isolates_new [OF flavor_copy [OF assms], where mk = ResourceFlavorCell])
      (simp_all add: DeepCopyObject_ResourceFlavor_def DeepCopy_ResourceFlavor_def)
  show "isolates (DeepCopyObject_ResourceFlavorList L) KindResourceFlavorList
      (ptrL asResourceFlavorList (layoutResourceFlavorList M N))"
    by (rule isolates_new [OF flavor_list_copy [OF assms], where mk = ResourceFlavorListCell])
      (simp_all add: DeepCopyObject_ResourceFlavorList_def DeepCopy_ResourceFlavorList_def)
qed

text \<open>
  An instance of the libraries for the witness: metadata is a name and a map of labels in a cell of
  the library, the other library structs have no references.
\<close>

definition asLabels :: "('m, 'l, 't, (string \<times> string) list) cell \<Rightarrow> (string \<times> string) list option" where
  "asLabels c = (case c of Foreign v \<Rightarrow> Some v | _ \<Rightarrow> None)"

definition exMetaCopy :: "(string \<times> nat option, ('m, 'l, 't, (string \<times> string) list) cell) copier" where
  "exMetaCopy m h = (let (q, h1) = mapCopy Foreign asLabels (snd m) h in ((fst m, q), h1))"

definition exMetaL ::
    "(string \<times> nat option, ('m, 'l, 't, (string \<times> string) list) cell, string \<times> (string \<rightharpoonup> string) option) layout" where
  "exMetaL = structL snd (\<lambda>m v. (fst m, v)) (mapL asLabels)"

definition exLib :: "(string \<times> nat option, string, string, (string \<times> string) list) CopyLib" where
  "exLib = \<lparr> cl_Time = newCopy TimeCell asTime 0 flatCopy, cl_Condition = flatCopy, cl_ObjectMeta = exMetaCopy,
     cl_ListMeta = flatCopy, cl_PodTemplateSpec = flatCopy, cl_zeroMeta = ([], None), cl_zeroListMeta = [],
     cl_zeroTemplate = [] \<rparr>"

lemma exLib_machinery: "machinery exLib exMetaL flatL flatL"
proof -
  have "deep_copy exMetaL exMetaCopy" unfolding exMetaL_def
    by (rule deep_copy_struct [OF deep_copy_map [where mk = Foreign], where put = "\<lambda>q m. (fst m, q)"])
      (simp_all add: exMetaCopy_def asLabels_def)
  then show ?thesis by (simp add: machinery_def exLib_def deep_copy_flat deep_copy_new)
qed

definition exCondition :: Condition where
  "exCondition = zeroCondition\<lparr>cond_Type := ''Ready'', cond_Status := ''True''\<rparr>"

definition exLeaseStruct :: "(string \<times> nat option) hGPULease" where
  "exLeaseStruct = \<lparr> hl_Type = zeroTypeMeta, hl_Meta = (''n1-gpu-0'', Some 1), hl_Spec = zeroGPULeaseSpec,
     hl_Status = zeroGPULeaseStatus\<lparr>hs_Phase := PhaseBound, hs_BoundAt := Some 2, hs_Conditions := Some 3\<rparr> \<rparr>"

definition exStore :: "(string \<times> nat option, string, string, (string \<times> string) list) store" where
  "exStore = \<lparr> hp_cells = [0 \<mapsto> GPULeaseCell exLeaseStruct, 1 \<mapsto> Foreign [(''a'', ''b'')], 2 \<mapsto> TimeCell 7,
       3 \<mapsto> ConditionsCell [exCondition]], hp_next = 4 \<rparr>"

text \<open>
  Witness of deepcopy\_isolates: the copy of a Bound lease with labels, an instant and a condition is
  a new object, at the first free address, and separate from the original.
\<close>

theorem deepcopy_isolates_witness:
  "let S = ptrL asGPULease (layoutGPULease exMetaL); (obj, h') = DeepCopyObject_GPULease exLib (Some 0) exStore in
     wf S (Some 0) exStore \<and> obj = Object KindGPULease (Some 4) \<and>
     separate_copy S (Some 0) exStore (pointerOf obj) h'"
proof -
  let ?S = "ptrL asGPULease (layoutGPULease exMetaL)"
  have wf: "wf ?S (Some 0) exStore"
    by (simp add: layoutGPULease_def layoutGPULeaseStatus_def exStore_def deref_def exLeaseStruct_def exMetaL_def
        zeroGPULeaseStatus_def asLabels_def flatL_def)
  obtain obj h' where o: "DeepCopyObject_GPULease exLib (Some 0) exStore = (obj, h')" by fastforce
  have "isolates (DeepCopyObject_GPULease exLib) KindGPULease ?S"
    using deepcopy_isolates [OF exLib_machinery] by blast
  then have "(\<exists>b. obj = Object KindGPULease (Some b)) \<and> separate_copy ?S (Some 0) exStore (pointerOf obj) h'"
    using wf o unfolding isolates_def by blast
  moreover have "fst (DeepCopyObject_GPULease exLib (Some 0) exStore) = Object KindGPULease (Some 4)"
    by (simp add: DeepCopyObject_GPULease_def DeepCopy_GPULease_def newCopy_def addrCopy_def exStore_def deref_def
        alloc_def split: prod.splits)
  ultimately show ?thesis using wf o by simp
qed

end
