(* ===== verification/Registration.thy ===== *)
theory Registration
  imports DeepCopy Env
begin

text \<open>
  What the manager's packages do before \<open>main\<close>: the two API packages register their types with a
  scheme builder (\<open>groupversion_info.go\<close> and the \<open>init\<close> functions beside the types),
  \<open>internal/controller/metrics.go\<close> registers its metrics, and \<open>init\<close> of \<open>cmd/manager/main.go\<close>
  adds the packages to the scheme. Builder, scheme and metric registry are libraries: the record
  \<open>InitLib\<close>, with what they document in \<open>init_lib\<close>.
\<close>

section \<open>The API packages\<close>

record GroupVersion =
  gv_Group :: string
  gv_Version :: string

definition PocGroupVersion :: GroupVersion where
  "PocGroupVersion = \<lparr> gv_Group = ''poc.llm-d.ai'', gv_Version = ''v1alpha1'' \<rparr>"

definition KueueGroupVersion :: GroupVersion where
  "KueueGroupVersion = \<lparr> gv_Group = ''kueue.x-k8s.io'', gv_Version = ''v1beta2'' \<rparr>"

section \<open>Metrics\<close>

record MetricVec =
  mv_Name :: string
  mv_Labels :: "string list"

definition poolLabels :: "string list" where
  "poolLabels = [''workload_namespace'', ''deployment'']"

text \<open>The vector a metric operation goes to, and the label values it is called with.\<close>

fun metricVec :: "MetricOp \<Rightarrow> MetricVec" where
  "metricVec (PoolHotPods ns n v) = \<lparr> mv_Name = ''gpulease_pool_hot_pods'', mv_Labels = poolLabels \<rparr>"
| "metricVec (PoolWarmPods ns n v) = \<lparr> mv_Name = ''gpulease_pool_warm_pods'', mv_Labels = poolLabels \<rparr>"
| "metricVec (PoolWarmDesired ns n v) = \<lparr> mv_Name = ''gpulease_pool_warm_desired'', mv_Labels = poolLabels \<rparr>"
| "metricVec (LeasesActive node v) = \<lparr> mv_Name = ''gpulease_leases_active'', mv_Labels = [''node''] \<rparr>"
| "metricVec (NodeGPUsFree node v) = \<lparr> mv_Name = ''gpulease_node_gpus_free'', mv_Labels = [''node''] \<rparr>"
| "metricVec (LeaseAcquireFailuresTotal d reason) =
     \<lparr> mv_Name = ''gpulease_lease_acquire_failures_total'', mv_Labels = [''deployment'', ''reason''] \<rparr>"
| "metricVec PromotionsTotal = \<lparr> mv_Name = ''gpulease_promotions_total'', mv_Labels = [] \<rparr>"
| "metricVec DemotionsTotal = \<lparr> mv_Name = ''gpulease_demotions_total'', mv_Labels = [] \<rparr>"

fun metricLabelValues :: "MetricOp \<Rightarrow> string list" where
  "metricLabelValues (PoolHotPods ns n v) = [ns, n]"
| "metricLabelValues (PoolWarmPods ns n v) = [ns, n]"
| "metricLabelValues (PoolWarmDesired ns n v) = [ns, n]"
| "metricLabelValues (LeasesActive node v) = [node]"
| "metricLabelValues (NodeGPUsFree node v) = [node]"
| "metricLabelValues (LeaseAcquireFailuresTotal d reason) = [d, reason]"
| "metricLabelValues PromotionsTotal = []"
| "metricLabelValues DemotionsTotal = []"

text \<open>The arguments of \<open>MustRegister\<close>, in its order; a vector is the same for every operation on it.\<close>

definition controllerMetrics :: "MetricVec list" where
  "controllerMetrics = map metricVec
     [PoolHotPods [] [] 0, PoolWarmPods [] [] 0, PoolWarmDesired [] [] 0, LeasesActive [] 0, NodeGPUsFree [] 0,
      LeaseAcquireFailuresTotal [] [], PromotionsTotal, DemotionsTotal]"

section \<open>Initialisation\<close>

record 's InitLib =
  il_Register :: "GroupVersion \<Rightarrow> ObjectKind list \<Rightarrow> 's \<Rightarrow> 's" \<comment> \<open>\<open>SchemeBuilder.Register\<close>\<close>
  il_AddToScheme :: "GroupVersion \<Rightarrow> 's \<Rightarrow> goerr + 's" \<comment> \<open>\<open>SchemeBuilder.AddToScheme(scheme)\<close>\<close>
  il_AddClientGo :: "'s \<Rightarrow> goerr + 's" \<comment> \<open>\<open>clientgoscheme.AddToScheme(scheme)\<close>\<close>
  il_MetricsRegister :: "MetricVec \<Rightarrow> 's \<Rightarrow> goerr + 's" \<comment> \<open>\<open>Registry.Register\<close>\<close>

text \<open>\<open>utilruntime.Must\<close> and \<open>MustRegister\<close> panic on the first error: the result is then \<open>Inl\<close>.\<close>

fun mustAll :: "('s \<Rightarrow> goerr + 's) list \<Rightarrow> 's \<Rightarrow> goerr + 's" where
  "mustAll [] s = Inr s"
| "mustAll (f # fs) s = (case f s of Inl e \<Rightarrow> Inl e | Inr s' \<Rightarrow> mustAll fs s')"

definition pocInit :: "'s InitLib \<Rightarrow> 's \<Rightarrow> 's" where
  "pocInit L = il_Register L PocGroupVersion [KindGPULease, KindGPULeaseList]"

definition kueueFlavorInit :: "'s InitLib \<Rightarrow> 's \<Rightarrow> 's" where
  "kueueFlavorInit L = il_Register L KueueGroupVersion [KindResourceFlavor, KindResourceFlavorList]"

definition kueueWorkloadInit :: "'s InitLib \<Rightarrow> 's \<Rightarrow> 's" where
  "kueueWorkloadInit L = il_Register L KueueGroupVersion [KindWorkload, KindWorkloadList]"

definition metricsInit :: "'s InitLib \<Rightarrow> 's \<Rightarrow> goerr + 's" where
  "metricsInit L = mustAll (map (il_MetricsRegister L) controllerMetrics)"

definition mainInit :: "'s InitLib \<Rightarrow> 's \<Rightarrow> goerr + 's" where
  "mainInit L = mustAll [il_AddClientGo L, il_AddToScheme L PocGroupVersion, il_AddToScheme L KueueGroupVersion]"

text \<open>
  Go initialises a package after the ones it imports, the files of a package in the order of their
  names, and \<open>main\<close> last.
\<close>

definition managerInit :: "'s InitLib \<Rightarrow> 's \<Rightarrow> goerr + 's" where
  "managerInit L s = mustAll
     [Inr \<circ> pocInit L, Inr \<circ> kueueFlavorInit L, Inr \<circ> kueueWorkloadInit L, metricsInit L, mainInit L] s"

text \<open>
  What the libraries document: a builder collects types (\<open>pending\<close>), adding it to a scheme makes them
  \<open>known\<close> under its group and version; adding client-go's scheme succeeds and concerns its own groups;
  a metric is registered (\<open>metrics\<close>) unless one of its name already is.
\<close>

definition init_lib ::
    "'s InitLib \<Rightarrow> ('s \<Rightarrow> GroupVersion \<Rightarrow> ObjectKind set) \<Rightarrow> ('s \<Rightarrow> GroupVersion \<Rightarrow> ObjectKind set) \<Rightarrow> ('s \<Rightarrow> string set) \<Rightarrow> bool" where
  "init_lib L pending known metrics \<longleftrightarrow>
     (\<forall>gv ks s. pending (il_Register L gv ks s) = (pending s)(gv := pending s gv \<union> set ks) \<and>
        known (il_Register L gv ks s) = known s \<and> metrics (il_Register L gv ks s) = metrics s) \<and>
     (\<forall>gv s. \<exists>s'. il_AddToScheme L gv s = Inr s' \<and> pending s' = pending s \<and> metrics s' = metrics s \<and>
        known s' = (known s)(gv := known s gv \<union> pending s gv)) \<and>
     (\<forall>s. \<exists>s'. il_AddClientGo L s = Inr s' \<and> pending s' = pending s \<and> metrics s' = metrics s \<and>
        (\<forall>gv \<in> {PocGroupVersion, KueueGroupVersion}. known s' gv = known s gv)) \<and>
     (\<forall>v s. if mv_Name v \<in> metrics s then \<exists>e. il_MetricsRegister L v s = Inl e
        else \<exists>s'. il_MetricsRegister L v s = Inr s' \<and> pending s' = pending s \<and> known s' = known s \<and>
          metrics s' = insert (mv_Name v) (metrics s))"

lemma init_lib_register:
  assumes "init_lib L pending known metrics"
  shows "pending (il_Register L gv ks s) = (pending s)(gv := pending s gv \<union> set ks)"
    "known (il_Register L gv ks s) = known s" "metrics (il_Register L gv ks s) = metrics s"
  using assms unfolding init_lib_def by blast+

lemma init_lib_metrics:
  assumes L: "init_lib L pending known metrics"
    and "distinct (map mv_Name vs)" and "mv_Name ` set vs \<inter> metrics s = {}"
  shows "\<exists>s'. mustAll (map (il_MetricsRegister L) vs) s = Inr s' \<and> pending s' = pending s \<and> known s' = known s \<and>
    metrics s' = metrics s \<union> mv_Name ` set vs"
  using assms(2-)
proof (induction vs arbitrary: s)
  case (Cons v vs)
  obtain s1 where s1: "il_MetricsRegister L v s = Inr s1" "pending s1 = pending s" "known s1 = known s"
    "metrics s1 = insert (mv_Name v) (metrics s)"
    using L Cons.prems(2) unfolding init_lib_def by (metis disjoint_iff image_eqI list.set_intros(1))
  show ?case using Cons.IH [of s1] Cons.prems s1 by auto
qed simp

text \<open>A name that is taken makes \<open>MustRegister\<close> panic.\<close>

lemma init_lib_metrics_taken:
  assumes L: "init_lib L pending known metrics"
    and "mv_Name ` set vs \<inter> metrics s \<noteq> {}"
  shows "\<exists>e. mustAll (map (il_MetricsRegister L) vs) s = Inl e"
  using assms(2)
proof (induction vs arbitrary: s)
  case (Cons v vs)
  show ?case
  proof (cases "mv_Name v \<in> metrics s")
    case True
    then obtain e where "il_MetricsRegister L v s = Inl e" using L unfolding init_lib_def by meson
    then show ?thesis by simp
  next
    case False
    then obtain s1 where s1: "il_MetricsRegister L v s = Inr s1" "metrics s1 = insert (mv_Name v) (metrics s)"
      using L unfolding init_lib_def by meson
    with Cons.prems False have "mv_Name ` set vs \<inter> metrics s1 \<noteq> {}" by auto
    with Cons.IH s1(1) show ?thesis by simp
  qed
qed simp

lemma gv_differ: "PocGroupVersion \<noteq> KueueGroupVersion"
  by (simp add: PocGroupVersion_def KueueGroupVersion_def)

lemma mainInit_adds:
  assumes L: "init_lib L pending known metrics"
  shows "\<exists>s'. mainInit L s = Inr s' \<and> metrics s' = metrics s \<and>
    (\<forall>gv \<in> {PocGroupVersion, KueueGroupVersion}. known s' gv = known s gv \<union> pending s gv)"
proof -
  obtain s1 where s1: "il_AddClientGo L s = Inr s1" "pending s1 = pending s" "metrics s1 = metrics s"
    "\<forall>gv \<in> {PocGroupVersion, KueueGroupVersion}. known s1 gv = known s gv"
    using L unfolding init_lib_def by blast
  obtain s2 where s2: "il_AddToScheme L PocGroupVersion s1 = Inr s2" "pending s2 = pending s1" "metrics s2 = metrics s1"
    "known s2 = (known s1)(PocGroupVersion := known s1 PocGroupVersion \<union> pending s1 PocGroupVersion)"
    using L unfolding init_lib_def by blast
  obtain s3 where s3: "il_AddToScheme L KueueGroupVersion s2 = Inr s3" "metrics s3 = metrics s2"
    "known s3 = (known s2)(KueueGroupVersion := known s2 KueueGroupVersion \<union> pending s2 KueueGroupVersion)"
    using L unfolding init_lib_def by blast
  show ?thesis using s1 s2 s3 gv_differ by (simp add: mainInit_def)
qed

lemma controllerMetrics_distinct: "distinct (map mv_Name controllerMetrics)"
  by (simp add: controllerMetrics_def)

text \<open>
  C36: initialisation completes and registers everything. Whatever the libraries are, as long as they
  keep what they document, and whatever the global metric registry already holds, of which
  controller-runtime's own packages have filled a part: unless one of the eight names of the controller
  is taken there, no \<open>Must\<close> of the packages panics; afterwards the scheme, which did not know
  the two API groups before, knows exactly the four Kueue types and the two GPULease types,
  each under the group and version of its API, and the registry holds what it held and the eight
  controller metrics. If a name is taken, the process panics before \<open>main\<close>. Every metric operation of
  the reconcilers goes to one of the eight vectors with as many label values as it has labels (a
  mismatch would panic), and the pool gauges of two Deployments are the same series only when
  namespace and name agree.
\<close>

theorem registration_complete:
  assumes "init_lib L pending known metrics"
    and "\<forall>gv \<in> {PocGroupVersion, KueueGroupVersion}. pending s0 gv = {} \<and> known s0 gv = {}"
  shows "(if mv_Name ` set controllerMetrics \<inter> metrics s0 = {}
      then \<exists>s. managerInit L s0 = Inr s \<and>
        known s PocGroupVersion = {KindGPULease, KindGPULeaseList} \<and>
        known s KueueGroupVersion = {KindResourceFlavor, KindResourceFlavorList, KindWorkload, KindWorkloadList} \<and>
        metrics s = metrics s0 \<union> mv_Name ` set controllerMetrics \<and> card (metrics s - metrics s0) = 8
      else \<exists>e. managerInit L s0 = Inl e) \<and>
    metricVec op \<in> set controllerMetrics \<and> length (metricLabelValues op) = length (mv_Labels (metricVec op)) \<and>
    (metricVec op = metricVec op' \<and> metricLabelValues op = metricLabelValues op' \<and> mv_Labels (metricVec op) = poolLabels
      \<longrightarrow> (\<exists>f ns n v v'. f \<in> {PoolHotPods, PoolWarmPods, PoolWarmDesired} \<and> op = f ns n v \<and> op' = f ns n v'))"
proof (intro conjI impI)
  let ?s1 = "kueueWorkloadInit L (kueueFlavorInit L (pocInit L s0))" and ?M = "mv_Name ` set controllerMetrics"
  note reg = init_lib_register [OF assms(1)] and inits = pocInit_def kueueFlavorInit_def kueueWorkloadInit_def
  have s1: "pending ?s1 PocGroupVersion = {KindGPULease, KindGPULeaseList}"
    "pending ?s1 KueueGroupVersion = {KindResourceFlavor, KindResourceFlavorList, KindWorkload, KindWorkloadList}"
    "known ?s1 = known s0" "metrics ?s1 = metrics s0"
    using assms(2) gv_differ by (auto simp: inits reg)
  have "\<exists>s. managerInit L s0 = Inr s \<and> known s PocGroupVersion = {KindGPULease, KindGPULeaseList} \<and>
      known s KueueGroupVersion = {KindResourceFlavor, KindResourceFlavorList, KindWorkload, KindWorkloadList} \<and>
      metrics s = metrics s0 \<union> ?M \<and> card (metrics s - metrics s0) = 8" if free: "?M \<inter> metrics s0 = {}"
  proof -
    obtain s2 where s2: "metricsInit L ?s1 = Inr s2" "pending s2 = pending ?s1" "known s2 = known ?s1"
      "metrics s2 = metrics s0 \<union> ?M"
      using init_lib_metrics [OF assms(1) controllerMetrics_distinct, of ?s1] s1(4) free by (auto simp: metricsInit_def)
    obtain s where s: "mainInit L s2 = Inr s" "metrics s = metrics s2"
      "\<forall>gv \<in> {PocGroupVersion, KueueGroupVersion}. known s gv = known s2 gv \<union> pending s2 gv"
      using mainInit_adds [OF assms(1)] by blast
    have "card ?M = 8" using distinct_card [OF controllerMetrics_distinct] by (simp add: controllerMetrics_def)
    moreover have "metrics s - metrics s0 = ?M" using s(2) s2(4) free by auto
    ultimately show ?thesis using s s2 s1 assms(2) by (intro exI [of _ s]) (simp add: managerInit_def)
  qed
  moreover have "\<exists>e. managerInit L s0 = Inl e" if taken: "?M \<inter> metrics s0 \<noteq> {}"
    using init_lib_metrics_taken [OF assms(1), of controllerMetrics ?s1] s1(4) taken
    by (auto simp: managerInit_def metricsInit_def)
  ultimately show "if ?M \<inter> metrics s0 = {}
      then \<exists>s. managerInit L s0 = Inr s \<and>
        known s PocGroupVersion = {KindGPULease, KindGPULeaseList} \<and>
        known s KueueGroupVersion = {KindResourceFlavor, KindResourceFlavorList, KindWorkload, KindWorkloadList} \<and>
        metrics s = metrics s0 \<union> ?M \<and> card (metrics s - metrics s0) = 8
      else \<exists>e. managerInit L s0 = Inl e" by simp
  show "metricVec op \<in> set controllerMetrics" by (cases op) (simp_all add: controllerMetrics_def)
  show "length (metricLabelValues op) = length (mv_Labels (metricVec op))" by (cases op) (simp_all add: poolLabels_def)
  assume "metricVec op = metricVec op' \<and> metricLabelValues op = metricLabelValues op' \<and> mv_Labels (metricVec op) = poolLabels"
  then show "\<exists>f ns n v v'. f \<in> {PoolHotPods, PoolWarmPods, PoolWarmDesired} \<and> op = f ns n v \<and> op' = f ns n v'"
    by (cases op; cases op') (auto simp: poolLabels_def)
qed

text \<open>A scheme, its builders and a metric registry as sets, for the witness.\<close>

type_synonym SetScheme = "(GroupVersion \<Rightarrow> ObjectKind set) \<times> (GroupVersion \<Rightarrow> ObjectKind set) \<times> string set"

definition setInitLib :: "SetScheme InitLib" where
  "setInitLib = \<lparr>
     il_Register = (\<lambda>gv ks (p, k, m). (p(gv := p gv \<union> set ks), k, m)),
     il_AddToScheme = (\<lambda>gv (p, k, m). Inr (p, k(gv := k gv \<union> p gv), m)),
     il_AddClientGo = Inr,
     il_MetricsRegister = (\<lambda>v (p, k, m).
       if mv_Name v \<in> m then Inl (ErrNet ''duplicate metrics collector registration attempted'')
       else Inr (p, k, insert (mv_Name v) m)) \<rparr>"

lemma setInitLib_ok: "init_lib setInitLib fst (fst \<circ> snd) (snd \<circ> snd)"
  by (auto simp: init_lib_def setInitLib_def)

text \<open>
  Witness of registration\_complete: on sets, from an empty scheme and a registry with two metrics of
  controller-runtime; and the panic when the name of a controller metric is already there.
\<close>

definition exRegistry :: "string set" where
  "exRegistry = {''controller_runtime_reconcile_total'', ''workqueue_depth''}"

theorem registration_complete_witness:
  "(\<exists>p k m. managerInit setInitLib (\<lambda>_. {}, \<lambda>_. {}, exRegistry) = Inr (p, k, m) \<and>
      k PocGroupVersion = {KindGPULease, KindGPULeaseList} \<and> exRegistry \<subseteq> m \<and> card (m - exRegistry) = 8) \<and>
   (\<exists>e. managerInit setInitLib (\<lambda>_. {}, \<lambda>_. {}, {''gpulease_promotions_total''}) = Inl e)"
proof -
  note ok = setInitLib_ok
  have e: "\<forall>gv \<in> {PocGroupVersion, KueueGroupVersion}. fst ((\<lambda>_. {}, \<lambda>_. {}, m) :: SetScheme) gv = {} \<and>
    (fst \<circ> snd) ((\<lambda>_. {}, \<lambda>_. {}, m) :: SetScheme) gv = {}" for m by simp
  have free: "mv_Name ` set controllerMetrics \<inter> exRegistry = {}"
    and taken: "mv_Name ` set controllerMetrics \<inter> {''gpulease_promotions_total''} \<noteq> {}"
    by (simp_all add: controllerMetrics_def exRegistry_def)
  show ?thesis
    using registration_complete [OF ok, where ?s0.0 = "(\<lambda>_. {}, \<lambda>_. {}, exRegistry)", OF e, THEN conjunct1]
      registration_complete [OF ok, where ?s0.0 = "(\<lambda>_. {}, \<lambda>_. {}, {''gpulease_promotions_total''})", OF e, THEN conjunct1]
      free taken by auto
qed

end
