(* ===== verification/Deadline.thy ===== *)
theory Deadline
  imports Journey
begin

text \<open>
  The reconciler's waiting loops end. A lease that waits, for Kueue to admit its Workload or for its
  pod to become hot, is reconciled again after each \<open>RequeueAfter\<close>; what happens in between is an
  argument. The number of waits left until a deadline is the measure.
\<close>

section \<open>Waits\<close>

text \<open>How many waits of the poll interval cover a time.\<close>

definition polls :: "duration \<Rightarrow> nat" where
  "polls t = nat ((t + pollInterval - 1) div pollInterval)"

lemma polls_mono: "t \<le> u \<Longrightarrow> polls t \<le> polls u"
  by (simp add: polls_def pollInterval_def Second_def zdiv_mono1 nat_mono)

lemma polls_none: "t \<le> 0 \<Longrightarrow> polls t = 0"
proof -
  assume "t \<le> 0"
  then have "(t + pollInterval - 1) div pollInterval \<le> (pollInterval - 1) div pollInterval"
    by (intro zdiv_mono1) (simp_all add: pollInterval_def Second_def)
  then show ?thesis by (simp add: polls_def pollInterval_def Second_def)
qed

lemma polls_some: "0 < t \<Longrightarrow> 0 < polls t"
proof -
  assume "0 < t"
  then have "pollInterval div pollInterval \<le> (t + pollInterval - 1) div pollInterval"
    by (intro zdiv_mono1) (simp_all add: pollInterval_def Second_def)
  then show ?thesis by (simp add: polls_def pollInterval_def Second_def)
qed

lemma polls_wait: "0 < t \<Longrightarrow> u \<le> t - nextPoll t \<Longrightarrow> polls u < polls t"
proof (cases "t < pollInterval")
  case True
  assume "0 < t" "u \<le> t - nextPoll t"
  then show ?thesis using True polls_none [of u] polls_some [of t] by (simp add: nextPoll_def)
next
  case False
  assume t: "0 < t" "u \<le> t - nextPoll t"
  have "(t - pollInterval + pollInterval - 1) div pollInterval = (t + pollInterval - 1) div pollInterval - 1"
    by (simp add: pollInterval_def Second_def)
  then have "polls (t - pollInterval) < polls t"
    using polls_some [OF t(1)] by (simp add: polls_def)
  moreover have "polls u \<le> polls (t - pollInterval)" using t False by (intro polls_mono) (simp add: nextPoll_def)
  ultimately show ?thesis by simp
qed

text \<open>A wait that begins at \<open>t1\<close>, before the deadline, and is over at \<open>t2\<close>.\<close>

lemma wait_progress:
  assumes "a \<le> t1" and "time_sub t1 a < T" and "in_int64 T" and "t0 \<le> t1"
    and "t1 + nextPoll (wrap64 (T - time_sub t1 a)) \<le> t2"
  shows "polls (T - (t2 - a)) < polls (T - (t0 - a))" and "t1 < t2"
proof -
  have e: "time_sub t1 a = t1 - a" using assms(1-3) by (auto simp: time_sub_def in_int64_def min_def max_def split: if_splits)
  have "in_int64 (T - (t1 - a))" using assms(1-3) e by (simp add: in_int64_def)
  then have w: "t1 + nextPoll (T - (t1 - a)) \<le> t2" and pos: "0 < T - (t1 - a)"
    using assms(2,5) e by (simp_all add: wrap64_id)
  have "polls (T - (t2 - a)) < polls (T - (t1 - a))"
    by (rule polls_wait [OF pos]) (use w in simp)
  also have "\<dots> \<le> polls (T - (t0 - a))" by (rule polls_mono) (use assms(4) in simp)
  finally show "polls (T - (t2 - a)) < polls (T - (t0 - a))" .
  show "t1 < t2" using w pos by (auto simp: nextPoll_def pollInterval_def Second_def split: if_splits)
qed

section \<open>The work queue\<close>

text \<open>
  The lease is reconciled until \<open>stop\<close> holds, at most \<open>k\<close> times; \<open>pass\<close> is what happens between the
  result of a reconcile and the next one. \<open>None\<close>: not yet stopped after \<open>k\<close> reconciles.
\<close>

fun workqueue ::
    "'w GPULeaseReconciler \<Rightarrow> (goerr + Result \<Rightarrow> 'w \<Rightarrow> 'w) \<Rightarrow> string \<Rightarrow> ('w \<Rightarrow> bool) \<Rightarrow> nat \<Rightarrow> 'w \<Rightarrow> 'w option" where
  "workqueue r pass n stop 0 w = (if stop w then Some w else None)"
| "workqueue r pass n stop (Suc k) w =
     (if stop w then Some w
      else case leaseReconcile r n w of (res, w') \<Rightarrow> workqueue r pass n stop k (pass res w'))"

text \<open>The loop rule: an invariant that every round keeps, and a measure that every round decreases.\<close>

lemma workqueue_ends:
  assumes "\<And>w. I w \<Longrightarrow> \<not> stop w \<Longrightarrow>
      I (case leaseReconcile r n w of (res, w') \<Rightarrow> pass res w') \<and>
      rank (case leaseReconcile r n w of (res, w') \<Rightarrow> pass res w') < (rank w :: nat)"
    and "I w" and "rank w \<le> k"
  shows "\<exists>w'. workqueue r pass n stop k w = Some w' \<and> stop w' \<and> I w'"
  using assms(2,3)
proof (induction k arbitrary: w)
  case 0
  then show ?case using assms(1) [of w] by (cases "stop w") auto
next
  case (Suc k)
  show ?case
  proof (cases "stop w")
    case True
    then show ?thesis using Suc.prems by simp
  next
    case False
    obtain res w1 where rec: "leaseReconcile r n w = (res, w1)" by fastforce
    then have "I (pass res w1)" "rank (pass res w1) \<le> k" using assms(1) [OF Suc.prems(1) False] Suc.prems(2) by auto
    then show ?thesis using Suc.IH [of "pass res w1"] False rec by simp
  qed
qed

section \<open>One round\<close>

text \<open>A lease on its way, and one that is decided.\<close>

definition underway :: "GPULease \<Rightarrow> bool" where
  "underway l \<longleftrightarrow> leasePhase l \<in> {PhaseUnset, PhasePending, PhaseAdmitted, PhaseActivating} \<and> \<not> leaseDeleting l \<and>
     Finalizer \<in> set (leaseFinalizers l)"

definition leaseDecided :: "GPULease \<Rightarrow> bool" where
  "leaseDecided l \<longleftrightarrow> leasePhase l \<in> {PhaseBound, PhaseFailed}"

lemma timeouts_range:
  "in_int64 (AdmissionTimeout (deploymentSettings r l w))" "in_int64 (ActivationTimeout (deploymentSettings r l w))"
  using durSetting_range [of DefaultAdmissionTimeout] durSetting_range [of DefaultActivationTimeout]
  by (auto simp: deploymentSettings_def ParseDeploymentSettings_def settings_default_defs in_int64_def
      split: sum.splits)

text \<open>The rest of two handlers after the call that may fail, named for their lemmas.\<close>

definition recordWorkload :: "'w GPULeaseReconciler \<Rightarrow> GPULease \<Rightarrow> ('w, Result) go" where
  "recordWorkload r lease =
     bnd (if lt_WorkloadName (l_Status lease) \<noteq> leaseName lease
          then wrapErr ''record workload name on lease''
                 (updateLeaseStatus (lr_Client r) (lease\<lparr>l_Status := (l_Status lease)\<lparr>lt_WorkloadName := leaseName lease\<rparr>\<rparr>))
          else ret lease) (\<lambda>_. ret (resultAfter pollInterval))"

definition markActivating :: "'w GPULeaseReconciler \<Rightarrow> GPULease \<Rightarrow> Pod \<Rightarrow> ('w, Result) go" where
  "markActivating r lease pod =
     (let message = Sprintf ''POST /lease accepted by pod %s/%s; waiting for state hot'' (podRefArgs pod) in
      bnd (asks (\<lambda>w. setLeaseCondition r ConditionPodActivated ConditionFalse ''Activating'' message w
                        (setPhase PhaseActivating message lease))) (\<lambda>lease.
      bnd (wrapErr ''update lease status to Activating'' (updateLeaseStatus (lr_Client r) lease)) (\<lambda>lease.
      bnd (act (lrEvent r lease EventTypeNormal EventReasonActivating message)) (\<lambda>_.
      ret (resultAfter pollInterval)))))"

context healthy_env
begin

lemma fails_round:
  assumes "healthy w" and "v_leases (view w) (leaseName l) = Some l"
  shows "\<exists>w' l'. transitionToFailed r l reason m w = (Inr resultDone, w') \<and> healthy w' \<and>
    v_leases (view w') (leaseName l) = Some l' \<and> leaseDecided l'"
  using transitionToFailed_healthy [OF assms, of reason m] by (auto simp: leaseFailed_def leaseDecided_def)

lemma recordWorkload_round:
  assumes h: "healthy w" and cur: "v_leases (view w) (leaseName l) = Some l"
  shows "\<exists>w' l'. recordWorkload r l w = (Inr (resultAfter pollInterval), w') \<and> healthy w' \<and>
    view w' = setLease (leaseName l) (Some l') (view w) \<and> restatus l l' \<and> leasePhase l' = leasePhase l \<and>
    podActivatedAnchor (lrLib r) l' = podActivatedAnchor (lrLib r) l"
proof (cases "lt_WorkloadName (l_Status l) = leaseName l")
  case True
  have "setLease (leaseName l) (Some l) (view w) = view w" using cur by (simp add: setLease_def fun_upd_idem)
  with True h show ?thesis
    by (intro exI [of _ w] exI [of _ l]) (simp add: recordWorkload_def restatus_def)
next
  case False
  let ?l1 = "l\<lparr>l_Status := (l_Status l)\<lparr>lt_WorkloadName := leaseName l\<rparr>\<rparr>"
  obtain v w1 where u: "updateLeaseStatus (lr_Client r) ?l1 w = (Inr (setVersion v (l\<lparr>l_Status := l_Status ?l1\<rparr>)), w1)"
    and h1: "healthy w1" and v1: "view w1 = setLease (leaseName l) (Some (setVersion v (l\<lparr>l_Status := l_Status ?l1\<rparr>))) (view w)"
    using status_healthy [OF h cur, of ?l1] by auto
  have "recordWorkload r l w = (Inr (resultAfter pollInterval), w1)"
    using u False by (simp add: recordWorkload_def bnd_app [of "mapErr _ _"] mapErr_app)
  with h1 v1 show ?thesis
    by (intro exI [of _ w1] exI [of _ "setVersion v (l\<lparr>l_Status := l_Status ?l1\<rparr>)"])
      (simp add: podActivatedAnchor_def split: option.split)
qed

lemma markActivating_round:
  assumes h: "healthy w" and cur: "v_leases (view w) (leaseName l) = Some l"
  shows "\<exists>w' l'. markActivating r l p w = (Inr (resultAfter pollInterval), w') \<and> healthy w' \<and>
    view w' = setLease (leaseName l) (Some l') (view w) \<and> restatus l l' \<and> leasePhase l' = PhaseActivating \<and>
    podActivatedAnchor (lrLib r) l' \<in> {podActivatedAnchor (lrLib r) l, rt_Now (lr_Runtime r) w}"
proof -
  let ?m = "Sprintf ''POST /lease accepted by pod %s/%s; waiting for state hot'' (podRefArgs p)"
  let ?l1 = "setLeaseCondition r ConditionPodActivated ConditionFalse ''Activating'' ?m w (setPhase PhaseActivating ?m l)"
  obtain v w1 where u: "updateLeaseStatus (lr_Client r) ?l1 w = (Inr (setVersion v (l\<lparr>l_Status := l_Status ?l1\<rparr>)), w1)"
    and h1: "healthy w1" and v1: "view w1 = setLease (leaseName l) (Some (setVersion v (l\<lparr>l_Status := l_Status ?l1\<rparr>))) (view w)"
    using status_healthy [OF h cur, of ?l1] by auto
  let ?l' = "setVersion v (l\<lparr>l_Status := l_Status ?l1\<rparr>)"
  let ?w2 = "lrEvent r ?l' EventTypeNormal EventReasonActivating ?m w1"
  have "markActivating r l p w = (Inr (resultAfter pollInterval), ?w2)"
    using u by (simp add: markActivating_def bnd_app [of "mapErr _ _"] mapErr_app Let_def)
  moreover have "healthy ?w2" "view ?w2 = view w1" using h1 by (simp_all add: lrEvent_view)
  moreover have "podActivatedAnchor (lrLib r) ?l' \<in> {podActivatedAnchor (lrLib r) l, rt_Now (lr_Runtime r) w}"
    using set_condition_same [of "rt_Now (lr_Runtime r) w" "lt_Conditions (l_Status l)" "\<lparr> cond_Type = ConditionPodActivated,
        cond_Status = ConditionFalse, cond_ObservedGeneration = om_Generation (l_Meta l), cond_LastTransitionTime = 0,
        cond_Reason = ''Activating'', cond_Message = ?m \<rparr>"]
    by (auto simp: podActivatedAnchor_def setLeaseCondition_def setPhase_def split: option.splits if_splits)
  ultimately show ?thesis using v1 by (intro exI [of _ ?w2] exI [of _ ?l']) simp
qed

text \<open>Pending with a Workload: the lease is admitted, fails, or waits.\<close>

lemma evaluateAdmission_round:
  assumes h: "healthy w" and cur: "v_leases (view w) (leaseName l) = Some l"
  shows "\<exists>res w'. evaluateAdmission r l wl w = (res, w') \<and> healthy w' \<and>
    ((\<exists>l'. v_leases (view w') (leaseName l) = Some l' \<and> leaseDecided l') \<or>
     (\<exists>l'. view w' = setLease (leaseName l) (Some l') (view w) \<and> restatus l l' \<and> leasePhase l' = PhaseAdmitted \<and>
        podActivatedAnchor (lrLib r) l' = podActivatedAnchor (lrLib r) l) \<or>
     (let T = AdmissionTimeout (deploymentSettings r l w); e = time_sub (lrNow r w) (admissionAnchor (lrLib r) wl) in
        w' = w \<and> e < T \<and> res = Inr (resultAfter (nextPoll (wrap64 (T - e))))))"
proof (cases "isWorkloadAdmitted (lrLib r) wl")
  case True
  then show ?thesis using admitLease_healthy [OF h cur, of wl] by (auto simp: evaluateAdmission_def)
next
  case False
  obtain bad km where inadm: "workloadInadmissible (lrLib r) wl = (bad, km)" by fastforce
  show ?thesis
  proof (cases "bad \<or> AdmissionTimeout (deploymentSettings r l w) \<le> time_sub (lrNow r w) (admissionAnchor (lrLib r) wl)")
    case True
    then obtain reason m where "evaluateAdmission r l wl w = transitionToFailed r l reason m w"
      using False inadm by (cases bad) (auto simp: evaluateAdmission_def)
    then show ?thesis using fails_round [OF h cur, of reason m] by auto
  next
    case wait: False
    then show ?thesis using False inadm h by (auto simp: evaluateAdmission_def Let_def not_le)
  qed
qed

text \<open>Activating: the lease is bound, fails, or waits.\<close>

lemma reconcileActivating_round:
  assumes h: "healthy w" and cur: "v_leases (view w) (leaseName l) = Some l"
  shows "\<exists>res w'. reconcileActivating r l w = (res, w') \<and> healthy w' \<and>
    ((\<exists>l'. v_leases (view w') (leaseName l) = Some l' \<and> leaseDecided l') \<or>
     (let T = ActivationTimeout (deploymentSettings r l w'); e = time_sub (lrNow r w') (podActivatedAnchor (lrLib r) l) in
        view w' = view w \<and> e < T \<and> res = Inr (resultAfter (nextPoll (wrap64 (T - e))))))"
proof (cases "claimValid (v_pods (view w) (ref_Namespace (claimOf l), ref_Name (claimOf l))) l None")
  case False
  then obtain reason m where "reconcileActivating r l w = transitionToFailed r l reason m w"
    using leaseOrphanReason_valid [of "v_pods (view w) (ref_Namespace (claimOf l), ref_Name (claimOf l))" l None]
    by (simp add: reconcileActivating_def withClaim_def bnd_query_app getClaimPod_healthy [OF h] Let_def)
  then show ?thesis using fails_round [OF h cur, of reason m] by auto
next
  case valid: True
  then obtain p where p: "v_pods (view w) (ref_Namespace (claimOf l), ref_Name (claimOf l)) = Some p"
    by (auto simp: claimValid_def split: option.splits)
  obtain st w1 where st: "cl_State (lr_PodClient r) (p_PodIP p) w = (st, w1)" by fastforce
  have w1: "healthy w1" "view w1 = view w" using pod_state [OF h st] by auto
  have cur1: "v_leases (view w1) (leaseName l) = Some l" "v_pods (view w1) (ref_Namespace (claimOf l), ref_Name (claimOf l)) = Some p"
    using w1 cur p by simp_all
  let ?T = "ActivationTimeout (deploymentSettings r l w1)" and ?e = "time_sub (lrNow r w1) (podActivatedAnchor (lrLib r) l)"
  let ?hot = "case st of Inl _ \<Rightarrow> False | Inr s \<Rightarrow> sr_State s = PcStateHot"
  let ?m = "Sprintf ''pod %s/%s did not report state hot within activation-timeout (%s)'' (podRefArgs p @ [FDur ?T])"
  have eq: "reconcileActivating r l w = (if ?hot then bindLease r l p w1
      else if ?T \<le> ?e then transitionToFailed r l ReasonActivationTimeout ?m w1
      else (Inr (resultAfter (nextPoll (wrap64 (?T - ?e)))), w1))"
    using withClaim_healthy [OF h p] valid p st by (simp add: reconcileActivating_def bnd_attempt_app)
  consider ?hot | "\<not> ?hot" "?T \<le> ?e" | "\<not> ?hot" "?e < ?T" by linarith
  then show ?thesis
  proof cases
    case 1
    then show ?thesis using bindLease_healthy [OF w1(1) cur1] eq by (auto simp: leaseDecided_def)
  next
    case 2
    then show ?thesis using fails_round [OF w1(1) cur1(1), of ReasonActivationTimeout ?m] eq by auto
  next
    case 3
    then show ?thesis using w1 eq by (auto simp: Let_def)
  qed
qed

text \<open>Admitted: the pod is asked, or the lease fails.\<close>

lemma reconcileAdmitted_round:
  assumes h: "healthy w" and cur: "v_leases (view w) (leaseName l) = Some l"
  shows "(\<exists>w' l'. reconcileAdmitted r l w = (Inr resultDone, w') \<and> healthy w' \<and>
      v_leases (view w') (leaseName l) = Some l' \<and> leaseDecided l') \<or>
    (\<exists>p w1. reconcileAdmitted r l w = markActivating r l p w1 \<and> healthy w1 \<and> v_leases (view w1) = v_leases (view w) \<and>
      v_workloads (view w1) = v_workloads (view w))"
proof (cases "claimValid (v_pods (view w) (ref_Namespace (claimOf l), ref_Name (claimOf l))) l None")
  case False
  then obtain reason m where "reconcileAdmitted r l w = transitionToFailed r l reason m w"
    using leaseOrphanReason_valid [of "v_pods (view w) (ref_Namespace (claimOf l), ref_Name (claimOf l))" l None]
    by (simp add: reconcileAdmitted_def withClaim_def bnd_query_app getClaimPod_healthy [OF h] Let_def)
  then show ?thesis using fails_round [OF h cur, of reason m] by auto
next
  case valid: True
  then obtain p where p: "v_pods (view w) (ref_Namespace (claimOf l), ref_Name (claimOf l)) = Some p"
    by (auto simp: claimValid_def split: option.splits)
  note wc = withClaim_healthy [OF h p] and v = valid [unfolded p]
  obtain res w1 where act: "cl_Activate (lr_PodClient r) (p_PodIP p) (activateRequest l) w = (res, w1)" by fastforce
  have w1: "healthy w1" "v_leases (view w1) = v_leases (view w)" "v_workloads (view w1) = v_workloads (view w)"
    using activate_pod [OF h act] by auto
  show ?thesis
  proof (cases "p_PodIP p = ''''")
    case True
    then obtain reason m where "reconcileAdmitted r l w = transitionToFailed r l reason m w"
      using wc [OF v] by (simp add: reconcileAdmitted_def)
    then show ?thesis using fails_round [OF h cur, of reason m] by auto
  next
    case ip: False
    show ?thesis
    proof (cases res)
      case (Inl e)
      then obtain reason m where "reconcileAdmitted r l w = transitionToFailed r l reason m w1"
        using wc [OF v] act ip by (cases "errorsIs e ErrPodNodeMismatch") (simp_all add: reconcileAdmitted_def bnd_attempt_app)
      then show ?thesis using fails_round [OF w1(1), of l reason m] cur w1(2) by auto
    next
      case (Inr u)
      then have "reconcileAdmitted r l w = markActivating r l p w1"
        using wc [OF v] act ip by (simp add: reconcileAdmitted_def markActivating_def bnd_attempt_app)
      then show ?thesis using w1 by blast
    qed
  qed
qed

text \<open>Pending without a Workload: it is created.\<close>

lemma createWorkload_round:
  assumes h: "healthy w" and new: "v_workloads (view w) (ref_Namespace (claimOf l), leaseName l) = None"
  shows "\<exists>want wl w1. createWorkload r l (buildWorkload l) w = recordWorkload r l w1 \<and>
    createWorkloadObj (lr_Client r) want w = (Inr wl, w1) \<and> wl_Status want = wl_Status (buildWorkload l) \<and>
    healthy w1 \<and> wl_Spec wl = wl_Spec (buildWorkload l) \<and>
    view w1 = setWorkload (ref_Namespace (claimOf l), leaseName l) (Some wl) (view w)"
proof -
  obtain want where want: "SetControllerReference (lrLib r) l (buildWorkload l) = Inr want"
    using own_workload by blast
  then have m: "om_Name (wl_Meta want) = leaseName l" "om_Namespace (wl_Meta want) = ref_Namespace (claimOf l)"
    "wl_Spec want = wl_Spec (buildWorkload l)" "wl_Status want = wl_Status (buildWorkload l)"
    using controller_reference [OF want] by simp_all
  obtain wl w1 where c: "createWorkloadObj (lr_Client r) want w = (Inr wl, w1)" and h1: "healthy w1"
    and sp: "wl_Spec wl = wl_Spec (buildWorkload l)"
    and v1: "view w1 = setWorkload (ref_Namespace (claimOf l), leaseName l) (Some wl) (view w)"
    using put_workload [OF h, of want] new m by auto
  have "createWorkload r l (buildWorkload l) w = recordWorkload r l w1"
    using want c m(1) by (simp add: createWorkload_def recordWorkload_def bnd_attempt_app bnd_app [of "mapErr _ _"] mapErr_app)
  with c h1 sp v1 m(4) show ?thesis by blast
qed

end

section \<open>The environment between rounds\<close>

text \<open>
  Time passes: no operation turns the clock back (\<open>clock_forward\<close>), a request comes back no earlier than its
  \<open>RequeueAfter\<close> (\<open>pass_time\<close>). In between, anything may happen to pods, other leases and the status
  of the Workload, except that the lease itself is left alone and its Workload stays. Kueue may move
  the moment from which admission is timed whenever it likes: each flap of \<open>QuotaReserved\<close> restarts the
  admission window, and \<open>restarts\<close> is a number of restarts that is left at most (\<open>workloadKept\<close>). The timeouts
  of the Deployment do not change.
\<close>

definition keeps :: "('w \<Rightarrow> bool) \<Rightarrow> 'w GPULeaseReconciler \<Rightarrow> bool" where
  "keeps J r \<longleftrightarrow> (\<forall>w. J w \<longrightarrow>
     (\<forall>l. J (snd (updateLeaseStatus (lr_Client r) l w)) \<and> J (snd (updateLease (lr_Client r) l w)) \<and>
        J (snd (deleteLease (lr_Client r) l w))) \<and>
     (\<forall>wl ns n. J (snd (createWorkloadObj (lr_Client r) wl w)) \<and> J (snd (deleteWorkloadObj (lr_Client r) ns n w))) \<and>
     (\<forall>p p'. J (snd (patchPod (lr_Client r) p p' w))) \<and>
     (\<forall>ip req. J (snd (cl_Activate (lr_PodClient r) ip req w)) \<and> J (snd (cl_Release (lr_PodClient r) ip w)) \<and>
        J (snd (cl_State (lr_PodClient r) ip w))) \<and>
     (\<forall>mop. J (rt_Metric (lr_Runtime r) mop w)) \<and>
     (\<forall>eventf ob ty rs m. lr_Recorder r = Some eventf \<longrightarrow> J (eventf ob ty rs m w)))"

lemma keeps_ops:
  assumes "keeps J r" and "J w"
  shows "J (snd (updateLeaseStatus (lr_Client r) l w))" "J (snd (updateLease (lr_Client r) l w))"
    "J (snd (deleteLease (lr_Client r) l w))" "J (snd (createWorkloadObj (lr_Client r) wl w))"
    "J (snd (deleteWorkloadObj (lr_Client r) ns n w))" "J (snd (patchPod (lr_Client r) p p' w))"
    "J (snd (cl_Activate (lr_PodClient r) ip req w))" "J (snd (cl_Release (lr_PodClient r) ip w))"
    "J (snd (cl_State (lr_PodClient r) ip w))" "J (rt_Metric (lr_Runtime r) mop w)"
    "lr_Recorder r = Some eventf \<Longrightarrow> J (eventf ob ty rs m w)"
  using assms by (simp_all add: keeps_def)

text \<open>What every operation keeps can be added to the meaning of healthy.\<close>

lemma healthy_client_keeps:
  assumes c: "healthy_client (lr_Client r) view healthy" and k: "keeps J r"
  shows "healthy_client (lr_Client r) view (\<lambda>w. healthy w \<and> J w)"
proof
  fix w n ns l l0 p L A wl kp
  assume hj: "healthy w \<and> J w"
  then have h: "healthy w" and j: "J w" by simp_all
  show "v_leases (view w) n = Some l \<Longrightarrow> leaseName l = n" by (rule healthy_client.lease_named [OF c h])
  show "v_pods (view w) kp = Some p \<Longrightarrow> kp = (podNamespace p, podName p)" by (rule healthy_client.pod_named [OF c h])
  show "getLease (lr_Client r) n w = found (v_leases (view w) n)" by (rule healthy_client.get_lease [OF c h])
  show "getPod (lr_Client r) ns n w = found (v_pods (view w) (ns, n))" by (rule healthy_client.get_pod [OF c h])
  show "getWorkload (lr_Client r) ns n w = found (v_workloads (view w) (ns, n))"
    by (rule healthy_client.get_workload [OF c h])
  assume cur: "v_leases (view w) (leaseName l) = Some l0"
  show "\<exists>x w'. deleteLease (lr_Client r) l w = (Inr (), w') \<and> (healthy w' \<and> J w') \<and>
      view w' = setLease (leaseName l) (if leaseFinalizers l0 = [] then None else Some x) (view w) \<and>
      leaseDeleting x \<and> l_Status x = l_Status l0 \<and> l_Spec x = l_Spec l0"
    using healthy_client.drop_lease [OF c h cur] keeps_ops(3) [OF k j, where l = l] by (metis snd_conv)
  assume v: "leaseVersion l0 = leaseVersion l"
  show "\<exists>v w'. updateLeaseStatus (lr_Client r) l w = (Inr (setVersion v (l0\<lparr>l_Status := l_Status l\<rparr>)), w') \<and>
      (healthy w' \<and> J w') \<and> view w' = setLease (leaseName l) (Some (setVersion v (l0\<lparr>l_Status := l_Status l\<rparr>))) (view w)"
    using healthy_client.put_status [OF c h cur v] keeps_ops(1) [OF k j, where l = l] by (metis snd_conv)
  show "\<exists>v w'. let l' = setVersion v (setFinalizers (leaseFinalizers l) (l0\<lparr>l_Spec := l_Spec l\<rparr>)) in
      updateLease (lr_Client r) l w = (Inr l', w') \<and> (healthy w' \<and> J w') \<and>
      view w' = setLease (leaseName l) (if leaseDeleting l0 \<and> leaseFinalizers l = [] then None else Some l') (view w)"
    using healthy_client.put_lease [OF c h cur v] keeps_ops(2) [OF k j, where l = l] unfolding Let_def by (metis snd_conv)
next
  fix w ns n wl p L A
  assume hj: "healthy w \<and> J w"
  then have h: "healthy w" and j: "J w" by simp_all
  show "\<exists>w'. deleteWorkloadObj (lr_Client r) ns n w =
           (if v_workloads (view w) (ns, n) = None then Inl (ErrApi NotFound) else Inr (), w') \<and> (healthy w' \<and> J w') \<and>
      view w' = setWorkload (ns, n) None (view w)"
    using healthy_client.drop_workload [OF c h, of ns n] keeps_ops(5) [OF k j, where ns = ns and n = n] by (metis snd_conv)
  show "v_workloads (view w) (om_Namespace (wl_Meta wl), om_Name (wl_Meta wl)) = None \<Longrightarrow>
    \<exists>wl' w'. createWorkloadObj (lr_Client r) wl w = (Inr wl', w') \<and> (healthy w' \<and> J w') \<and> wl_Spec wl' = wl_Spec wl \<and>
      view w' = setWorkload (om_Namespace (wl_Meta wl), om_Name (wl_Meta wl)) (Some wl') (view w)"
    using healthy_client.put_workload [OF c h, of wl] keeps_ops(4) [OF k j, where wl = wl] by (metis snd_conv)
  show "v_pods (view w) (podNamespace p, podName p) = Some p \<Longrightarrow>
    \<exists>w'. patchPod (lr_Client r) p (withMeta p L A) w = (Inr (withMeta p L A), w') \<and> (healthy w' \<and> J w') \<and>
      view w' = setPod (podNamespace p, podName p) (Some (withMeta p L A)) (view w)"
    using healthy_client.patch_pod [OF c h, of p L A] keeps_ops(6) [OF k j, where p = p and p' = "withMeta p L A"] by (metis snd_conv)
qed

lemma healthy_env_keeps:
  assumes e: "healthy_env r view healthy" and k: "keeps J r"
  shows "healthy_env r view (\<lambda>w. healthy w \<and> J w)"
proof (intro healthy_env.intro)
  note K = keeps_ops [OF k]
  show "k8s_lib (lrLib r)" by (rule healthy_env.axioms(2) [OF e])
  show "healthy_client (lr_Client r) view (\<lambda>w. healthy w \<and> J w)"
    by (rule healthy_client_keeps [OF healthy_env.axioms(1) [OF e] k])
  show "healthy_env_axioms r view (\<lambda>w. healthy w \<and> J w)"
  proof
    fix w w' ip req and res :: "goerr + unit" and st eventf ob ty rs m mop l
    show "\<exists>wl. SetControllerReference (lrLib r) l (buildWorkload l) = Inr wl" by (rule healthy_env.own_workload [OF e])
    assume hj: "healthy w \<and> J w"
    then have h: "healthy w" and j: "J w" by simp_all
    show "cl_Activate (lr_PodClient r) ip req w = (res, w') \<Longrightarrow> (healthy w' \<and> J w') \<and> (res \<noteq> Inr () \<and> view w' = view w \<or>
        (\<exists>x \<in> {PcStateActivating, PcStateHot}. view w' = setLife ip x (view w)))"
      using healthy_env.activate_pod [OF e h, of ip req res w'] K(7) [OF j, where ip = ip and req = req] by simp
    show "cl_Release (lr_PodClient r) ip w = (res, w') \<Longrightarrow> (healthy w' \<and> J w') \<and> (res \<noteq> Inr () \<and> view w' = view w \<or>
        (\<exists>x. x \<notin> {PcStateActivating, PcStateHot} \<and> view w' = setLife ip x (view w)))"
      using healthy_env.release_pod [OF e h, of ip res w'] K(8) [OF j, where ip = ip] by simp
    show "cl_State (lr_PodClient r) ip w = (st, w') \<Longrightarrow> (healthy w' \<and> J w') \<and> view w' = view w \<and>
        (\<forall>s. st = Inr s \<longrightarrow> sr_State s = v_life (view w) ip)"
      using healthy_env.pod_state [OF e h, of ip st w'] K(9) [OF j, where ip = ip] by simp
    show "lr_Recorder r = Some eventf \<Longrightarrow> (healthy (eventf ob ty rs m w) \<and> J (eventf ob ty rs m w)) \<and> view (eventf ob ty rs m w) = view w"
      using healthy_env.record_event [OF e h, of eventf ob ty rs m] K(11) [OF j] by blast
    show "(healthy (rt_Metric (lr_Runtime r) mop w) \<and> J (rt_Metric (lr_Runtime r) mop w)) \<and> view (rt_Metric (lr_Runtime r) mop w) = view w"
      using healthy_env.set_metric [OF e h, of mop] K(10) [OF j] by simp
  qed
qed

definition requeueAfter :: "goerr + Result \<Rightarrow> duration" where
  "requeueAfter res = (case res of Inl _ \<Rightarrow> 0 | Inr x \<Rightarrow> max 0 (RequeueAfter x))"

text \<open>
  The Workload between two rounds: its admission window goes on, or is restarted, which uses up one of
  the restarts left (\<open>b\<close> before, \<open>b'\<close> after).
\<close>

definition workloadKept :: "K8sLib \<Rightarrow> gotime \<Rightarrow> nat \<Rightarrow> nat \<Rightarrow> Workload \<Rightarrow> Workload \<Rightarrow> bool" where
  "workloadKept lib now b b' wl wl' \<longleftrightarrow> wl_Spec wl' = wl_Spec wl \<and>
     (admissionAnchor lib wl' = admissionAnchor lib wl \<and> b' \<le> b \<or> admissionAnchor lib wl' \<le> now \<and> b' < b)"

lemma keeps_conj: "keeps J r \<Longrightarrow> keeps K r \<Longrightarrow> keeps (\<lambda>w. J w \<and> K w) r"
  by (simp add: keeps_def)

locale deadline_env = healthy_env r view healthy
  for r :: "'w GPULeaseReconciler" and view :: "'w \<Rightarrow> View" and healthy :: "'w \<Rightarrow> bool" +
  fixes pass :: "goerr + Result \<Rightarrow> 'w \<Rightarrow> 'w" and n :: string and spec :: GPULeaseSpec and Ta :: duration and Tc :: duration
    and restarts :: "'w \<Rightarrow> nat"
  assumes real_clock: "lr_Clock r = None"
    and clock_forward: "keeps (\<lambda>w. t \<le> lrNow r w) r"
    and restarts_kept: "keeps (\<lambda>w. restarts w \<le> b) r"
    and created: "healthy w \<Longrightarrow> wl_Status want = wl_Status (buildWorkload l) \<Longrightarrow>
      createWorkloadObj (lr_Client r) want w = (Inr wl, w') \<Longrightarrow> admissionAnchor (lrLib r) wl \<le> lrNow r w'"
    and timeouts: "healthy w \<Longrightarrow> l_Spec l = spec \<Longrightarrow>
      AdmissionTimeout (deploymentSettings r l w) = Ta \<and> ActivationTimeout (deploymentSettings r l w) = Tc"
    and pass_healthy: "healthy w \<Longrightarrow> healthy (pass res w)"
    and pass_lease: "healthy w \<Longrightarrow> v_leases (view (pass res w)) n = v_leases (view w) n"
    and pass_workload: "healthy w \<Longrightarrow>
      rel_option (workloadKept (lrLib r) (lrNow r (pass res w)) (restarts w) (restarts (pass res w)))
      (v_workloads (view w) (ref_Namespace (ls_ClaimRef spec), n))
      (v_workloads (view (pass res w)) (ref_Namespace (ls_ClaimRef spec), n))"
    and pass_time: "healthy w \<Longrightarrow> lrNow r w + requeueAfter res \<le> lrNow r (pass res w)"
begin

text \<open>No operation turns the clock back or gives Kueue restarts.\<close>

definition later :: "'w \<Rightarrow> 'w \<Rightarrow> bool" where
  "later w w' \<longleftrightarrow> lrNow r w \<le> lrNow r w' \<and> restarts w' \<le> restarts w"

lemma later_refl [simp]: "later w w"
  by (simp add: later_def)

lemma laterD: "later w w' \<Longrightarrow> lrNow r w \<le> lrNow r w'" "later w w' \<Longrightarrow> restarts w' \<le> restarts w"
  by (simp_all add: later_def)

lemma clocked: "healthy_env r view (\<lambda>w. healthy w \<and> t \<le> lrNow r w)"
  by (rule healthy_env_keeps [OF healthy_env_axioms clock_forward])

lemma paced: "healthy_env r view (\<lambda>w'. healthy w' \<and> later w w')"
  unfolding later_def by (intro healthy_env_keeps [OF healthy_env_axioms] keeps_conj clock_forward restarts_kept)

definition stored :: "'w \<Rightarrow> Workload option" where
  "stored w = v_workloads (view w) (ref_Namespace (ls_ClaimRef spec), n)"

definition onTime :: "'w \<Rightarrow> bool" where
  "onTime w \<longleftrightarrow> healthy w \<and> (\<exists>l. v_leases (view w) n = Some l \<and>
     (leaseDecided l \<or> underway l \<and> l_Spec l = spec \<and> podActivatedAnchor (lrLib r) l \<le> lrNow r w \<and>
        (\<forall>wl. leasePhase l \<in> {PhaseUnset, PhasePending} \<longrightarrow> stored w = Some wl \<longrightarrow>
           wl_Spec wl = wl_Spec (buildWorkload l) \<and> admissionAnchor (lrLib r) wl \<le> lrNow r w)))"

definition stops :: "'w \<Rightarrow> bool" where
  "stops w \<longleftrightarrow> (\<exists>l. v_leases (view w) n = Some l \<and> leaseDecided l)"

text \<open>The reconciles that are left at most.\<close>

definition admissionRank :: "'w \<Rightarrow> Workload \<Rightarrow> nat" where
  "admissionRank w wl = polls (Ta - (lrNow r w - admissionAnchor (lrLib r) wl)) + restarts w * (polls Ta + 1)"

definition rank :: "'w \<Rightarrow> nat" where
  "rank w = (case v_leases (view w) n of None \<Rightarrow> 0 | Some l \<Rightarrow>
     if leasePhase l \<in> {PhaseUnset, PhasePending} then
       (case stored w of None \<Rightarrow> (restarts w + 1) * (polls Ta + 1) + polls Tc + 3 | Some wl \<Rightarrow> admissionRank w wl + polls Tc + 3)
     else if leasePhase l = PhaseAdmitted then polls Tc + 2
     else if leasePhase l = PhaseActivating then polls (Tc - (lrNow r w - podActivatedAnchor (lrLib r) l)) + 1
     else 0)"

definition nextRound :: "'w \<Rightarrow> 'w" where
  "nextRound w = (case leaseReconcile r n w of (res, w') \<Rightarrow> pass res w')"

lemma rank_eqs:
  assumes "v_leases (view w) n = Some l"
  shows "leasePhase l \<in> {PhaseUnset, PhasePending} \<Longrightarrow> stored w = None \<Longrightarrow> rank w = (restarts w + 1) * (polls Ta + 1) + polls Tc + 3"
    "leasePhase l \<in> {PhaseUnset, PhasePending} \<Longrightarrow> stored w = Some wl \<Longrightarrow> rank w = admissionRank w wl + polls Tc + 3"
    "leasePhase l = PhaseAdmitted \<Longrightarrow> rank w = polls Tc + 2"
    "leasePhase l = PhaseActivating \<Longrightarrow> rank w = polls (Tc - (lrNow r w - podActivatedAnchor (lrLib r) l)) + 1"
    "leaseDecided l \<Longrightarrow> rank w = 0"
  using assms by (auto simp: rank_def leaseDecided_def)

lemma onTime_underway:
  assumes "healthy w" and "v_leases (view w) n = Some l" and "underway l" and "l_Spec l = spec"
    and "podActivatedAnchor (lrLib r) l \<le> lrNow r w"
    and "\<And>wl. leasePhase l \<in> {PhaseUnset, PhasePending} \<Longrightarrow> stored w = Some wl \<Longrightarrow>
      wl_Spec wl = wl_Spec (buildWorkload l) \<and> admissionAnchor (lrLib r) wl \<le> lrNow r w"
  shows "onTime w"
  using assms by (auto simp: onTime_def)

lemma underway_restatus:
  "underway l \<Longrightarrow> restatus l l' \<Longrightarrow> leasePhase l' \<in> {PhaseUnset, PhasePending, PhaseAdmitted, PhaseActivating} \<Longrightarrow> underway l'"
  by (auto simp: underway_def restatus_def)

lemma now_is: "lrNow r w = rt_Now (lr_Runtime r) w"
  by (simp add: lrNow_def real_clock)

lemma after_round:
  assumes h: "healthy w" and cur: "v_leases (view w) n = Some l" and up: "underway l"
    and ph: "reconcilePhase r l w = (res, w1)" and h1: "healthy w1"
  shows "healthy (nextRound w)" and "v_leases (view (nextRound w)) n = v_leases (view w1) n"
    and "rel_option (workloadKept (lrLib r) (lrNow r (nextRound w)) (restarts w1) (restarts (nextRound w)))
      (stored w1) (stored (nextRound w))"
    and "lrNow r w1 + requeueAfter res \<le> lrNow r (nextRound w)"
proof -
  let ?w2 = "refreshMetrics r w1"
  have nx: "nextRound w = pass res ?w2"
    using leaseReconcile_live [OF h cur] up ph by (simp add: nextRound_def underway_def)
  have w2: "healthy ?w2" "view ?w2 = view w1" using refreshMetrics_healthy [OF h1] by simp_all
  have lt: "later w1 ?w2" using healthy_env.refreshMetrics_healthy [OF paced [of w1], of w1] h1 by simp
  then show "healthy (nextRound w)" "v_leases (view (nextRound w)) n = v_leases (view w1) n"
    "lrNow r w1 + requeueAfter res \<le> lrNow r (nextRound w)"
    using pass_healthy [OF w2(1)] pass_lease [OF w2(1)] pass_time [OF w2(1), of res] w2(2)
    by (simp_all add: nx later_def)
  have "rel_option (workloadKept (lrLib r) (lrNow r (nextRound w)) (restarts ?w2) (restarts (nextRound w)))
      (stored w1) (stored (nextRound w))"
    using pass_workload [OF w2(1), of res] w2(2) by (simp add: nx stored_def)
  then show "rel_option (workloadKept (lrLib r) (lrNow r (nextRound w)) (restarts w1) (restarts (nextRound w)))
      (stored w1) (stored (nextRound w))"
    by (rule option.rel_mono_strong) (use laterD(2) [OF lt] in \<open>auto simp: workloadKept_def\<close>)
qed

lemma decided_round:
  assumes "onTime w" and "\<not> stops w" and "healthy (nextRound w)"
    and "v_leases (view (nextRound w)) n = Some l'" and "leaseDecided l'"
  shows "onTime (nextRound w) \<and> rank (nextRound w) < rank w"
proof -
  have "rank (nextRound w) = 0" by (rule rank_eqs(5) [OF assms(4,5)])
  moreover have "0 < rank w"
    using assms(1,2) by (auto simp: onTime_def stops_def rank_def underway_def split: option.splits)
  ultimately show ?thesis using assms(3-5) by (auto simp: onTime_def)
qed

lemma requeueAfter_bounds: "0 \<le> requeueAfter res" "d \<le> requeueAfter (Inr (resultAfter d))"
  by (simp_all add: requeueAfter_def resultAfter_def split: sum.split)

lemma workloadSpec_cong: "l_Spec l' = l_Spec l \<Longrightarrow> wl_Spec (buildWorkload l') = wl_Spec (buildWorkload l)"
  by (simp add: buildWorkload_def)

lemma timeouts_in_range:
  fixes l :: GPULease
  shows "healthy w \<Longrightarrow> l_Spec l = spec \<Longrightarrow> in_int64 Ta" "healthy w \<Longrightarrow> l_Spec l = spec \<Longrightarrow> in_int64 Tc"
  using timeouts [of w l] timeouts_range [of r l w] by auto

lemma admissionRank_le:
  "admissionAnchor (lrLib r) wl \<le> lrNow r w \<Longrightarrow> admissionRank w wl < (restarts w + 1) * (polls Ta + 1)"
  using polls_mono [of "Ta - (lrNow r w - admissionAnchor (lrLib r) wl)" Ta] by (simp add: admissionRank_def)

text \<open>Waiting for admission makes progress.\<close>

lemma admission_wait:
  assumes "admissionAnchor (lrLib r) wl \<le> lrNow r w" and "in_int64 Ta"
    and "time_sub (lrNow r w) (admissionAnchor (lrLib r) wl) < Ta"
    and "lrNow r w + nextPoll (wrap64 (Ta - time_sub (lrNow r w) (admissionAnchor (lrLib r) wl))) \<le> lrNow r w3"
    and "workloadKept (lrLib r) (lrNow r w3) (restarts w) (restarts w3) wl wl'"
  shows "admissionRank w3 wl' < admissionRank w wl" and "admissionAnchor (lrLib r) wl' \<le> lrNow r w3"
proof -
  note p = wait_progress [OF assms(1,3,2) order_refl assms(4)]
  have le: "polls (Ta - (lrNow r w3 - admissionAnchor (lrLib r) wl')) \<le> polls Ta" if "admissionAnchor (lrLib r) wl' \<le> lrNow r w3"
    by (rule polls_mono) (use that in simp)
  show "admissionAnchor (lrLib r) wl' \<le> lrNow r w3" using assms(1,5) p(2) by (auto simp: workloadKept_def)
  note anchor = this
  consider "admissionAnchor (lrLib r) wl' = admissionAnchor (lrLib r) wl" "restarts w3 \<le> restarts w" | "Suc (restarts w3) \<le> restarts w"
    using assms(5) by (auto simp: workloadKept_def)
  then show "admissionRank w3 wl' < admissionRank w wl"
  proof cases
    case 1
    then have "restarts w3 * (polls Ta + 1) \<le> restarts w * (polls Ta + 1)" by (intro mult_le_mono1)
    with 1 p(1) show ?thesis by (simp add: admissionRank_def)
  next
    case 2
    then have "Suc (restarts w3) * (polls Ta + 1) \<le> restarts w * (polls Ta + 1)" by (intro mult_le_mono1)
    with le [OF anchor] show ?thesis by (simp add: admissionRank_def)
  qed
qed

lemma pending_waits:
  assumes h: "healthy w" and cur: "v_leases (view w) n = Some l" and up: "underway l" and sp: "l_Spec l = spec"
    and an: "podActivatedAnchor (lrLib r) l \<le> lrNow r w" and ph: "leasePhase l \<in> {PhaseUnset, PhasePending}"
    and wl: "stored w = Some wl" "wl_Spec wl = wl_Spec (buildWorkload l)" "admissionAnchor (lrLib r) wl \<le> lrNow r w"
    and e: "e = time_sub (lrNow r w) (admissionAnchor (lrLib r) wl)" "e < Ta"
    and rec: "reconcilePhase r l w = (Inr (resultAfter (nextPoll (wrap64 (Ta - e)))), w)"
  shows "onTime (nextRound w) \<and> rank (nextRound w) < rank w"
proof -
  note nx = after_round [OF h cur up rec h]
  obtain wl' where wl': "stored (nextRound w) = Some wl'"
      "workloadKept (lrLib r) (lrNow r (nextRound w)) (restarts w) (restarts (nextRound w)) wl wl'"
    using nx(3) wl(1) by (auto simp: option_rel_Some1)
  have "lrNow r w + nextPoll (wrap64 (Ta - e)) \<le> lrNow r (nextRound w)"
    using nx(4) requeueAfter_bounds(2) [of "nextPoll (wrap64 (Ta - e))"] by simp
  note prog = admission_wait [OF wl(3) timeouts_in_range(1) [OF h sp] e(2) [unfolded e(1)] this [unfolded e(1)] wl'(2)]
  have "lrNow r w \<le> lrNow r (nextRound w)"
    using nx(4) requeueAfter_bounds(1) [of "Inr (resultAfter (nextPoll (wrap64 (Ta - e))))"] by linarith
  moreover have "v_leases (view (nextRound w)) n = Some l" using nx(2) cur by simp
  moreover have "wl_Spec wl' = wl_Spec (buildWorkload l)" using wl'(2) wl(2) by (simp add: workloadKept_def)
  ultimately show ?thesis
    using onTime_underway [OF nx(1), of l] rank_eqs(2) [of "nextRound w" l wl'] rank_eqs(2) [OF cur ph wl(1)] up sp an ph
      wl'(1) prog by simp
qed

lemma pending_round:
  assumes on: "onTime w" and h: "healthy w" and cur: "v_leases (view w) n = Some l" and up: "underway l" and sp: "l_Spec l = spec"
    and an: "podActivatedAnchor (lrLib r) l \<le> lrNow r w" and ph: "leasePhase l \<in> {PhaseUnset, PhasePending}"
    and wl: "stored w = Some wl" "wl_Spec wl = wl_Spec (buildWorkload l)" "admissionAnchor (lrLib r) wl \<le> lrNow r w"
  shows "onTime (nextRound w) \<and> rank (nextRound w) < rank w"
proof -
  have name: "leaseName l = n" using lease_named [OF h cur] .
  have cur': "v_leases (view w) (leaseName l) = Some l" using cur name by simp
  have eq: "reconcilePhase r l w = evaluateAdmission r l wl w"
    using ph wl get_workload [OF h] name sp
    by (auto simp: reconcilePhase_def reconcilePending_def workloadMatchesSpec_def deep_equal stored_def Let_def)
  have ns: "\<not> stops w" using cur up by (auto simp: stops_def leaseDecided_def underway_def)
  obtain res w1 where ev: "evaluateAdmission r l wl w = (res, w1)" and h1: "healthy w1" "lrNow r w \<le> lrNow r w1"
    and c: "(\<exists>l'. v_leases (view w1) (leaseName l) = Some l' \<and> leaseDecided l') \<or>
     (\<exists>l'. view w1 = setLease (leaseName l) (Some l') (view w) \<and> restatus l l' \<and> leasePhase l' = PhaseAdmitted \<and>
        podActivatedAnchor (lrLib r) l' = podActivatedAnchor (lrLib r) l) \<or>
     (let T = AdmissionTimeout (deploymentSettings r l w); e = time_sub (lrNow r w) (admissionAnchor (lrLib r) wl) in
        w1 = w \<and> e < T \<and> res = Inr (resultAfter (nextPoll (wrap64 (T - e)))))"
    using healthy_env.evaluateAdmission_round [OF clocked [of "lrNow r w"] _ cur', of wl] h by blast
  note nx = after_round [OF h cur up eq [unfolded ev] h1(1)]
  from c show ?thesis
  proof (elim disjE exE conjE)
    fix l' assume "v_leases (view w1) (leaseName l) = Some l'" "leaseDecided l'"
    then show ?thesis using decided_round [OF on ns nx(1)] nx(2) name by simp
  next
    fix l' assume l': "view w1 = setLease (leaseName l) (Some l') (view w)" "restatus l l'" "leasePhase l' = PhaseAdmitted"
      "podActivatedAnchor (lrLib r) l' = podActivatedAnchor (lrLib r) l"
    have "lrNow r w \<le> lrNow r (nextRound w)" using nx(4) h1(2) requeueAfter_bounds(1) [of res] by linarith
    moreover have "v_leases (view (nextRound w)) n = Some l'" using nx(2) l'(1) name by simp
    moreover have "underway l'" "l_Spec l' = spec" using underway_restatus [OF up l'(2)] l'(2,3) sp by (auto simp: restatus_def)
    ultimately show ?thesis
      using onTime_underway [OF nx(1), of l'] rank_eqs(3) [of "nextRound w" l'] rank_eqs(2) [OF cur ph wl(1)] l'(3,4) an by simp
  next
    assume "let T = AdmissionTimeout (deploymentSettings r l w); e = time_sub (lrNow r w) (admissionAnchor (lrLib r) wl) in
        w1 = w \<and> e < T \<and> res = Inr (resultAfter (nextPoll (wrap64 (T - e))))"
    then show ?thesis
      using pending_waits [OF h cur up sp an ph wl refl] eq ev timeouts [OF h sp] by (simp add: Let_def)
  qed
qed

lemma creating_round:
  assumes h: "healthy w" and cur: "v_leases (view w) n = Some l" and up: "underway l" and sp: "l_Spec l = spec"
    and an: "podActivatedAnchor (lrLib r) l \<le> lrNow r w" and ph: "leasePhase l \<in> {PhaseUnset, PhasePending}"
    and new: "stored w = None"
  shows "onTime (nextRound w) \<and> rank (nextRound w) < rank w"
proof -
  have name: "leaseName l = n" using lease_named [OF h cur] .
  have new': "v_workloads (view w) (ref_Namespace (claimOf l), leaseName l) = None" using new sp name by (simp add: stored_def)
  have eq: "reconcilePhase r l w = createWorkload r l (buildWorkload l) w"
    using ph new' get_workload [OF h] by (auto simp: reconcilePhase_def reconcilePending_def Let_def)
  obtain want wl w1 where c: "createWorkload r l (buildWorkload l) w = recordWorkload r l w1"
      "createWorkloadObj (lr_Client r) want w = (Inr wl, w1)" "wl_Status want = wl_Status (buildWorkload l)"
      "healthy w1" "later w w1" "wl_Spec wl = wl_Spec (buildWorkload l)"
      "view w1 = setWorkload (ref_Namespace (claimOf l), leaseName l) (Some wl) (view w)"
    using healthy_env.createWorkload_round [OF paced [of w] _ new'] h later_refl [of w] by blast
  have cur1: "v_leases (view w1) (leaseName l) = Some l" using c(7) cur name by simp
  obtain w2 l' where rc: "recordWorkload r l w1 = (Inr (resultAfter pollInterval), w2)" "healthy w2" "later w1 w2"
      "view w2 = setLease (leaseName l) (Some l') (view w1)" "restatus l l'" "leasePhase l' = leasePhase l"
      "podActivatedAnchor (lrLib r) l' = podActivatedAnchor (lrLib r) l"
    using healthy_env.recordWorkload_round [OF paced [of w1] _ cur1] c(4) later_refl [of w1] by blast
  have ph2: "reconcilePhase r l w = (Inr (resultAfter pollInterval), w2)" using eq c(1) rc(1) by simp
  note nx = after_round [OF h cur up ph2 rc(2)]
  have "stored w2 = Some wl" using rc(4) c(7) sp name by (simp add: stored_def)
  then obtain wl' where wl': "stored (nextRound w) = Some wl'"
      "workloadKept (lrLib r) (lrNow r (nextRound w)) (restarts w2) (restarts (nextRound w)) wl wl'"
    using nx(3) by (auto simp: option_rel_Some1)
  have t: "lrNow r w1 \<le> lrNow r (nextRound w)"
    using nx(4) laterD(1) [OF rc(3)] requeueAfter_bounds(1) [of "Inr (resultAfter pollInterval)"] by linarith
  have b: "restarts (nextRound w) \<le> restarts w"
    using wl'(2) laterD(2) [OF rc(3)] laterD(2) [OF c(5)] by (auto simp: workloadKept_def)
  have anchor: "admissionAnchor (lrLib r) wl' \<le> lrNow r (nextRound w)"
    using wl'(2) created [OF h c(3,2)] t by (auto simp: workloadKept_def)
  have l': "v_leases (view (nextRound w)) n = Some l'" "underway l'" "l_Spec l' = spec"
    using nx(2) rc(4-6) name underway_restatus [OF up rc(5)] up sp by (auto simp: restatus_def underway_def)
  have "wl_Spec wl' = wl_Spec (buildWorkload l')"
    using wl'(2) c(6) workloadSpec_cong [of l' l] l'(3) sp by (simp add: workloadKept_def)
  moreover have "admissionRank (nextRound w) wl' < (restarts w + 1) * (polls Ta + 1)"
    using admissionRank_le [OF anchor] mult_le_mono1 [OF b, of "polls Ta + 1"] by simp
  ultimately show ?thesis
    using onTime_underway [OF nx(1) l'] rank_eqs(2) [OF l'(1), of wl'] rank_eqs(1) [OF cur ph new]
      wl'(1) anchor rc(6,7) an t laterD(1) [OF c(5)] ph by simp
qed

lemma admitted_round:
  assumes on: "onTime w" and h: "healthy w" and cur: "v_leases (view w) n = Some l" and up: "underway l" and sp: "l_Spec l = spec"
    and an: "podActivatedAnchor (lrLib r) l \<le> lrNow r w" and ph: "leasePhase l = PhaseAdmitted"
  shows "onTime (nextRound w) \<and> rank (nextRound w) < rank w"
proof -
  have name: "leaseName l = n" using lease_named [OF h cur] .
  have cur': "v_leases (view w) (leaseName l) = Some l" using cur name by simp
  have eq: "reconcilePhase r l w = reconcileAdmitted r l w" using ph by (simp add: reconcilePhase_def)
  have ns: "\<not> stops w" using cur up by (auto simp: stops_def leaseDecided_def underway_def)
  have "(\<exists>w' l'. reconcileAdmitted r l w = (Inr resultDone, w') \<and> healthy w' \<and>
      v_leases (view w') (leaseName l) = Some l' \<and> leaseDecided l') \<or>
    (\<exists>p w1. reconcileAdmitted r l w = markActivating r l p w1 \<and> healthy w1 \<and> lrNow r w \<le> lrNow r w1 \<and>
      v_leases (view w1) = v_leases (view w))"
    using healthy_env.reconcileAdmitted_round [OF clocked [of "lrNow r w"] _ cur'] h by blast
  then show ?thesis
  proof (elim disjE exE conjE)
    fix w1 l' assume d: "reconcileAdmitted r l w = (Inr resultDone, w1)" "healthy w1"
      "v_leases (view w1) (leaseName l) = Some l'" "leaseDecided l'"
    note nx = after_round [OF h cur up eq [unfolded d(1)] d(2)]
    show ?thesis by (rule decided_round [OF on ns nx(1)]) (use nx(2) d name in simp_all)
  next
    fix p w1 assume a: "reconcileAdmitted r l w = markActivating r l p w1" "healthy w1" "lrNow r w \<le> lrNow r w1"
      "v_leases (view w1) = v_leases (view w)"
    have cur1: "v_leases (view w1) (leaseName l) = Some l" using a(4) cur' by simp
    obtain w2 l' where m: "markActivating r l p w1 = (Inr (resultAfter pollInterval), w2)" "healthy w2" "lrNow r w1 \<le> lrNow r w2"
        "view w2 = setLease (leaseName l) (Some l') (view w1)" "restatus l l'" "leasePhase l' = PhaseActivating"
        "podActivatedAnchor (lrLib r) l' \<in> {podActivatedAnchor (lrLib r) l, rt_Now (lr_Runtime r) w1}"
      using healthy_env.markActivating_round [OF clocked [of "lrNow r w1"] _ cur1, of p] a(2) by blast
    have ph2: "reconcilePhase r l w = (Inr (resultAfter pollInterval), w2)" using eq a(1) m(1) by simp
    note nx = after_round [OF h cur up ph2 m(2)]
    have l': "v_leases (view (nextRound w)) n = Some l'" "underway l'" "l_Spec l' = spec"
      using nx(2) m(4-6) name underway_restatus [OF up m(5)] up sp by (auto simp: restatus_def)
    have "lrNow r w2 \<le> lrNow r (nextRound w)"
      using nx(4) requeueAfter_bounds(1) [of "Inr (resultAfter pollInterval)"] by linarith
    then have anchor: "podActivatedAnchor (lrLib r) l' \<le> lrNow r (nextRound w)"
      using m(3,7) a(3) an by (auto simp: now_is)
    then have "polls (Tc - (lrNow r (nextRound w) - podActivatedAnchor (lrLib r) l')) \<le> polls Tc"
      by (intro polls_mono) simp
    then show ?thesis
      using onTime_underway [OF nx(1) l' anchor] rank_eqs(4) [OF l'(1) m(6)] rank_eqs(3) [OF cur ph] m(6) by simp
  qed
qed

lemma activating_round:
  assumes on: "onTime w" and h: "healthy w" and cur: "v_leases (view w) n = Some l" and up: "underway l" and sp: "l_Spec l = spec"
    and an: "podActivatedAnchor (lrLib r) l \<le> lrNow r w" and ph: "leasePhase l = PhaseActivating"
  shows "onTime (nextRound w) \<and> rank (nextRound w) < rank w"
proof -
  have name: "leaseName l = n" using lease_named [OF h cur] .
  have cur': "v_leases (view w) (leaseName l) = Some l" using cur name by simp
  have eq: "reconcilePhase r l w = reconcileActivating r l w" using ph by (simp add: reconcilePhase_def)
  have ns: "\<not> stops w" using cur up by (auto simp: stops_def leaseDecided_def underway_def)
  obtain res w1 where ra: "reconcileActivating r l w = (res, w1)" and h1: "healthy w1" "lrNow r w \<le> lrNow r w1"
    and c: "(\<exists>l'. v_leases (view w1) (leaseName l) = Some l' \<and> leaseDecided l') \<or>
     (let T = ActivationTimeout (deploymentSettings r l w1); e = time_sub (lrNow r w1) (podActivatedAnchor (lrLib r) l) in
        view w1 = view w \<and> e < T \<and> res = Inr (resultAfter (nextPoll (wrap64 (T - e)))))"
    using healthy_env.reconcileActivating_round [OF clocked [of "lrNow r w"] _ cur'] h by blast
  note nx = after_round [OF h cur up eq [unfolded ra] h1(1)]
  from c show ?thesis
  proof (elim disjE exE conjE)
    fix l' assume "v_leases (view w1) (leaseName l) = Some l'" "leaseDecided l'"
    then show ?thesis using decided_round [OF on ns nx(1)] nx(2) name by simp
  next
    let ?e = "time_sub (lrNow r w1) (podActivatedAnchor (lrLib r) l)"
    assume "let T = ActivationTimeout (deploymentSettings r l w1); e = time_sub (lrNow r w1) (podActivatedAnchor (lrLib r) l) in
        view w1 = view w \<and> e < T \<and> res = Inr (resultAfter (nextPoll (wrap64 (T - e))))"
    then have wt: "view w1 = view w" "?e < Tc" "res = Inr (resultAfter (nextPoll (wrap64 (Tc - ?e))))"
      using timeouts [OF h1(1) sp] by (simp_all add: Let_def)
    have "podActivatedAnchor (lrLib r) l \<le> lrNow r w1" using an h1(2) by simp
    moreover have "lrNow r w1 + nextPoll (wrap64 (Tc - ?e)) \<le> lrNow r (nextRound w)"
      using nx(4) wt(3) requeueAfter_bounds(2) [of "nextPoll (wrap64 (Tc - ?e))"] by simp
    ultimately have prog: "polls (Tc - (lrNow r (nextRound w) - podActivatedAnchor (lrLib r) l)) <
        polls (Tc - (lrNow r w - podActivatedAnchor (lrLib r) l))" "lrNow r w1 < lrNow r (nextRound w)"
      using wait_progress [OF _ wt(2) timeouts_in_range(2) [OF h sp] h1(2)] by blast+
    have l': "v_leases (view (nextRound w)) n = Some l" using nx(2) wt(1) cur by simp
    show ?thesis
      using onTime_underway [OF nx(1) l' up sp] rank_eqs(4) [OF l' ph] rank_eqs(4) [OF cur ph] prog an h1(2) ph by simp
  qed
qed

text \<open>Every round of a lease that is underway brings it nearer to a decision.\<close>

lemma round_progress:
  assumes on: "onTime w" and ns: "\<not> stops w"
  shows "onTime (nextRound w) \<and> rank (nextRound w) < rank w"
proof -
  obtain l where h: "healthy w" and cur: "v_leases (view w) n = Some l" and up: "underway l" and sp: "l_Spec l = spec"
    and an: "podActivatedAnchor (lrLib r) l \<le> lrNow r w"
    and wl: "\<And>wl. leasePhase l \<in> {PhaseUnset, PhasePending} \<Longrightarrow> stored w = Some wl \<Longrightarrow>
      wl_Spec wl = wl_Spec (buildWorkload l) \<and> admissionAnchor (lrLib r) wl \<le> lrNow r w"
    using on ns by (auto simp: onTime_def stops_def)
  consider "leasePhase l \<in> {PhaseUnset, PhasePending}" | "leasePhase l = PhaseAdmitted" | "leasePhase l = PhaseActivating"
    using up by (auto simp: underway_def)
  then show ?thesis
  proof cases
    case 1
    show ?thesis
    proof (cases "stored w")
      case None
      then show ?thesis by (rule creating_round [OF h cur up sp an 1])
    next
      case (Some wl)
      then show ?thesis using pending_round [OF on h cur up sp an 1 Some] wl [OF 1 Some] by blast
    qed
  next
    case 2
    then show ?thesis by (rule admitted_round [OF on h cur up sp an])
  next
    case 3
    then show ?thesis by (rule activating_round [OF on h cur up sp an])
  qed
qed

lemma rank_le:
  assumes "onTime w"
  shows "rank w \<le> (restarts w + 1) * (polls Ta + 1) + polls Tc + 3"
proof -
  obtain l where l: "v_leases (view w) n = Some l" using assms by (auto simp: onTime_def)
  have "polls (Tc - (lrNow r w - podActivatedAnchor (lrLib r) l)) \<le> polls Tc" if "podActivatedAnchor (lrLib r) l \<le> lrNow r w"
    by (rule polls_mono) (use that in simp)
  then show ?thesis
    using assms l admissionRank_le [of _ w]
    by (cases "stored w") (fastforce simp: onTime_def rank_def leaseDecided_def underway_def)+
qed

lemma decided_in_time:
  assumes "onTime w" and "(restarts w + 1) * (polls Ta + 1) + polls Tc + 3 \<le> k"
  shows "\<exists>w'. workqueue r pass n stops k w = Some w' \<and> stops w'"
proof -
  have "onTime (case leaseReconcile r n v of (res, w') \<Rightarrow> pass res w') \<and>
      rank (case leaseReconcile r n v of (res, w') \<Rightarrow> pass res w') < rank v" if "onTime v" "\<not> stops v" for v
    using round_progress [OF that] by (simp add: nextRound_def)
  then show ?thesis
    using workqueue_ends [where I = onTime and stop = stops and rank = rank and k = k and w = w and r = r and n = n and pass = pass]
      rank_le [OF assms(1)] assms by force
qed

end

end
