(* ===== verification/DeadlineStore.thy ===== *)
theory DeadlineStore
  imports Deadline Examples
begin

text \<open>
  The reference store as an environment of the waiting loops: between two reconciles the clock moves
  on by the requested time and one poll interval, and until the instant \<open>T0\<close> Kueue's quota flaps:
  every round finds \<open>QuotaReserved\<close> false anew, and the admission window restarted.
\<close>

section \<open>The reference store between rounds\<close>

definition eFlapped :: "gotime \<Rightarrow> Workload \<Rightarrow> Workload" where
  "eFlapped now wl = wl\<lparr>wl_Status := (wl_Status wl)\<lparr>wt_Conditions :=
     [\<lparr> cond_Type = WlConditionQuotaReserved, cond_Status = ConditionFalse, cond_ObservedGeneration = 0,
        cond_LastTransitionTime = now, cond_Reason = ''Pending'', cond_Message = Lit '''' \<rparr>]\<rparr>\<rparr>"

definition ePass :: "gotime \<Rightarrow> goerr + Result \<Rightarrow> Cluster \<Rightarrow> Cluster" where
  "ePass T0 res w =
     (let now = e_now w + requeueAfter res + pollInterval
      in w\<lparr>e_now := now,
           e_workloads := (if e_now w < T0 then map (\<lambda>(k, wl). (k, eFlapped now wl)) (e_workloads w) else e_workloads w)\<rparr>)"

definition eRestarts :: "gotime \<Rightarrow> Cluster \<Rightarrow> nat" where
  "eRestarts T0 w = polls (T0 - e_now w)"

text \<open>The Deployments are as they were; the settings of a lease are read from them.\<close>

abbreviation eSteady :: "((string \<times> string) \<times> Deployment) list \<Rightarrow> Cluster \<Rightarrow> bool" where
  "eSteady D w \<equiv> eHealthy w \<and> e_deployments w = D"

definition eSettings :: "((string \<times> string) \<times> Deployment) list \<Rightarrow> GPULeaseSpec \<Rightarrow> DeploymentSettings" where
  "eSettings D s = (case aGet D (ref_Namespace (ls_DeploymentRef s), ref_Name (ls_DeploymentRef s)) of
     Inl err \<Rightarrow> ParseDeploymentSettings Map.empty (ref_Name (ls_DeploymentRef s))
   | Inr dep \<Rightarrow> ParseDeploymentSettings (depAnnotations dep) (depName dep))"

text \<open>No operation of the store touches the clock or the Deployments.\<close>

definition eFrame :: "Cluster \<Rightarrow> gotime \<times> ((string \<times> string) \<times> Deployment) list" where
  "eFrame w = (e_now w, e_deployments w)"

lemma withFaults_frame: "(\<And>w. eFrame (snd (p w)) = eFrame w) \<Longrightarrow> eFrame (snd (withFaults p w)) = eFrame w"
proof -
  assume p: "\<And>w. eFrame (snd (p w)) = eFrame w"
  have "eFrame (w\<lparr>e_faults := fs\<rparr>) = eFrame w" for fs by (simp add: eFrame_def)
  with p show ?thesis by (auto simp: withFaults_def split: list.split option.split)
qed

lemma putLease_frame [simp]: "eFrame (putLease n l w) = eFrame w" "eFrame (dropLease n w) = eFrame w"
  by (simp_all add: eFrame_def putLease_def dropLease_def)

lemma store_frame:
  "eFrame (snd (eUpdateStatus l w)) = eFrame w" "eFrame (snd (eUpdateLease l w)) = eFrame w"
  "eFrame (snd (eDeleteLease l w)) = eFrame w" "eFrame (snd (eCreateWorkload wl w)) = eFrame w"
  "eFrame (snd (eDeleteWorkload ns n w)) = eFrame w" "eFrame (snd (ePatchPod p p' w)) = eFrame w"
  by (simp_all add: eUpdateStatus_def eUpdateLease_def eDeleteLease_def Let_def split: option.split)
    (simp_all add: eCreateWorkload_def eDeleteWorkload_def ePatchPod_def eFrame_def Let_def split: option.split)

lemma client_frame:
  "eFrame (snd (updateLeaseStatus eClient l w)) = eFrame w" "eFrame (snd (updateLease eClient l w)) = eFrame w"
  "eFrame (snd (deleteLease eClient l w)) = eFrame w" "eFrame (snd (createWorkloadObj eClient wl w)) = eFrame w"
  "eFrame (snd (deleteWorkloadObj eClient ns n w)) = eFrame w" "eFrame (snd (patchPod eClient p p' w)) = eFrame w"
  by (simp_all add: eClient_def withFaults_frame store_frame)

lemma podClient_frame:
  "eFrame (snd (cl_Activate ePodClient ip req w)) = eFrame w" "eFrame (snd (cl_Release ePodClient ip w)) = eFrame w"
  "eFrame (snd (cl_State ePodClient ip w)) = eFrame w"
  by (simp_all add: ePodClient_def onFake_eq eFrame_def)

lemma eKeeps: "keeps (\<lambda>w. P (eFrame w)) eLeaseReconciler"
proof -
  have "eFrame (rt_Metric eRuntime mop w) = eFrame w" "eFrame (eRecorder ob ty rs m w) = eFrame w" for mop w ob ty rs m
    by (simp_all add: eRuntime_def eRecorder_def eFrame_def)
  then show ?thesis by (simp add: keeps_def eLeaseReconciler_def client_frame podClient_frame)
qed

lemma eNow: "lrNow eLeaseReconciler = e_now"
  by (simp add: fun_eq_iff lrNow_def eLeaseReconciler_def eRuntime_def)

lemma ePass_sel [simp]:
  "v_leases (eView (ePass T0 res w)) = v_leases (eView w)" "e_deployments (ePass T0 res w) = e_deployments w"
  "eHealthy (ePass T0 res w) = eHealthy w" "e_now (ePass T0 res w) = e_now w + requeueAfter res + pollInterval"
proof -
  have "eLeases (ePass T0 res w) = eLeases w" by (rule view_cong) (simp_all add: ePass_def Let_def)
  then show "v_leases (eView (ePass T0 res w)) = v_leases (eView w)" by (simp add: eView_def)
  show "e_deployments (ePass T0 res w) = e_deployments w" "eHealthy (ePass T0 res w) = eHealthy w"
    "e_now (ePass T0 res w) = e_now w + requeueAfter res + pollInterval"
    by (simp_all add: ePass_def eHealthy_def Let_def)
qed

lemma ePass_workloads:
  "v_workloads (eView (ePass T0 res w)) k =
   (if e_now w < T0 then map_option (eFlapped (e_now (ePass T0 res w))) (v_workloads (eView w) k)
    else v_workloads (eView w) k)"
  by (simp add: eView_def) (simp add: ePass_def Let_def map_of_map)

lemma eFlapped_anchor: "admissionAnchor eLib (eFlapped now wl) = now" "wl_Spec (eFlapped now wl) = wl_Spec wl"
  by (simp_all add: eFlapped_def admissionAnchor_def wlCondition_def eLib_def)

text \<open>Each flap costs a restart, since the clock moves towards \<open>T0\<close> by at least one poll interval.\<close>

lemma eRestarts_pass:
  "eRestarts T0 (ePass T0 res w) \<le> eRestarts T0 w" "e_now w < T0 \<Longrightarrow> eRestarts T0 (ePass T0 res w) < eRestarts T0 w"
proof -
  have p: "0 \<le> requeueAfter res" "0 < pollInterval"
    by (simp_all add: requeueAfter_def pollInterval_def Second_def split: sum.split)
  show "eRestarts T0 (ePass T0 res w) \<le> eRestarts T0 w"
    unfolding eRestarts_def by (rule polls_mono) (use p in simp)
  show "eRestarts T0 (ePass T0 res w) < eRestarts T0 w" if "e_now w < T0"
    unfolding eRestarts_def by (rule polls_wait) (use p that in \<open>auto simp: nextPoll_def\<close>)
qed

lemma ePass_kept:
  "rel_option (workloadKept eLib (e_now (ePass T0 res w)) (eRestarts T0 w) (eRestarts T0 (ePass T0 res w)))
     (v_workloads (eView w) k) (v_workloads (eView (ePass T0 res w)) k)"
  unfolding ePass_workloads
  using eRestarts_pass(1) [of T0 res w] eRestarts_pass(2) [of w T0 res]
  by (cases "v_workloads (eView w) k") (auto simp: workloadKept_def eFlapped_anchor)

interpretation edl: deadline_env eLeaseReconciler eView "eSteady D" "ePass T0" n s
    "AdmissionTimeout (eSettings D s)" "ActivationTimeout (eSettings D s)" "eRestarts T0" for T0 D n s
proof (intro deadline_env.intro)
  show "healthy_env eLeaseReconciler eView (eSteady D)"
    using healthy_env_keeps [OF ehe.healthy_env_axioms eKeeps [of "\<lambda>x. snd x = D"]] by (simp add: eFrame_def)
  show "deadline_env_axioms eLeaseReconciler eView (eSteady D) (ePass T0) n s
      (AdmissionTimeout (eSettings D s)) (ActivationTimeout (eSettings D s)) (eRestarts T0)"
  proof
    fix t b w res want l wl w'
    show "lr_Clock eLeaseReconciler = None" by (simp add: eLeaseReconciler_def)
    show "keeps (\<lambda>w. t \<le> lrNow eLeaseReconciler w) eLeaseReconciler"
      using eKeeps [of "\<lambda>x. t \<le> fst x"] by (simp add: eFrame_def eNow)
    show "keeps (\<lambda>w. eRestarts T0 w \<le> b) eLeaseReconciler"
      using eKeeps [of "\<lambda>x. polls (T0 - fst x) \<le> b"] by (simp add: eFrame_def eRestarts_def)
    assume st: "eSteady D w"
    show "eSteady D (ePass T0 res w)" using st by simp
    show "v_leases (eView (ePass T0 res w)) n = v_leases (eView w) n" by simp
    show "rel_option (workloadKept (lrLib eLeaseReconciler) (lrNow eLeaseReconciler (ePass T0 res w)) (eRestarts T0 w)
          (eRestarts T0 (ePass T0 res w)))
        (v_workloads (eView w) (ref_Namespace (ls_ClaimRef s), n))
        (v_workloads (eView (ePass T0 res w)) (ref_Namespace (ls_ClaimRef s), n))"
      using ePass_kept by (simp add: eNow) (simp add: eLeaseReconciler_def eRuntime_def)
    show "lrNow eLeaseReconciler w + requeueAfter res \<le> lrNow eLeaseReconciler (ePass T0 res w)"
      by (simp add: eNow) (simp add: pollInterval_def Second_def)
    show "AdmissionTimeout (deploymentSettings eLeaseReconciler l w) = AdmissionTimeout (eSettings D s) \<and>
        ActivationTimeout (deploymentSettings eLeaseReconciler l w) = ActivationTimeout (eSettings D s)" if "l_Spec l = s"
      using st that by (simp add: deploymentSettings_def eSettings_def eLeaseReconciler_def eClient_def split: sum.split)
    show "admissionAnchor (lrLib eLeaseReconciler) wl \<le> lrNow eLeaseReconciler w'"
      if "wl_Status want = wl_Status (buildWorkload l)"
        and c: "createWorkloadObj (lr_Client eLeaseReconciler) want w = (Inr wl, w')"
    proof -
      have "createWorkloadObj (lr_Client eLeaseReconciler) want w = eCreateWorkload want w"
        using st by (simp add: eLeaseReconciler_def eClient_def)
      then have "wl = want\<lparr>wl_Meta := (wl_Meta want)\<lparr>om_CreationTimestamp := e_now w\<rparr>\<rparr>" "e_now w' = e_now w"
        using c by (auto simp: eCreateWorkload_def Let_def split: option.splits)
      then show ?thesis
        using that(1) by (simp add: eNow) (simp add: admissionAnchor_def wlCondition_def eLeaseReconciler_def eRuntime_def
            eLib_def buildWorkload_def)
    qed
  qed
qed

end
