(* ===== verification/Rbac.thy ===== *)
theory Rbac
  imports Manager Registration
begin

text \<open>
  What the manager may do: the \<open>+kubebuilder:rbac\<close> markers of \<open>internal/controller\<close> and the role that
  is generated from them (\<open>config/rbac/role.yaml\<close>). The API server refuses a request that no rule
  grants; \<open>authorised\<close> is the client behind such a server.
\<close>

section \<open>Markers and role\<close>

record PolicyRule =
  pr_Groups :: "string list"
  pr_Resources :: "string list"
  pr_Verbs :: "string list"

definition rbacMarkers :: "PolicyRule list" where
  "rbacMarkers =
     [\<lparr> pr_Groups = [''apps''], pr_Resources = [''deployments''], pr_Verbs = [''get'', ''list'', ''watch''] \<rparr>,
      \<lparr> pr_Groups = [''''], pr_Resources = [''pods''], pr_Verbs = [''get'', ''list'', ''watch'', ''patch''] \<rparr>,
      \<lparr> pr_Groups = [''''], pr_Resources = [''nodes''], pr_Verbs = [''get'', ''list'', ''watch''] \<rparr>,
      \<lparr> pr_Groups = [''kueue.x-k8s.io''], pr_Resources = [''workloads''],
        pr_Verbs = [''create'', ''get'', ''list'', ''watch'', ''delete''] \<rparr>,
      \<lparr> pr_Groups = [''kueue.x-k8s.io''], pr_Resources = [''localqueues'', ''clusterqueues'', ''resourceflavors''],
        pr_Verbs = [''get'', ''list'', ''watch''] \<rparr>,
      \<lparr> pr_Groups = [''''], pr_Resources = [''events''], pr_Verbs = [''create'', ''patch''] \<rparr>]"

definition warmPoolMarkers :: "PolicyRule list" where
  "warmPoolMarkers =
     [\<lparr> pr_Groups = [''apps''], pr_Resources = [''deployments''], pr_Verbs = [''get'', ''list'', ''watch''] \<rparr>,
      \<lparr> pr_Groups = [''''], pr_Resources = [''pods''], pr_Verbs = [''get'', ''list'', ''watch'', ''patch''] \<rparr>,
      \<lparr> pr_Groups = [''''], pr_Resources = [''nodes''], pr_Verbs = [''get'', ''list'', ''watch''] \<rparr>,
      \<lparr> pr_Groups = [''poc.llm-d.ai''], pr_Resources = [''gpuleases''],
        pr_Verbs = [''get'', ''list'', ''watch'', ''create'', ''delete''] \<rparr>,
      \<lparr> pr_Groups = [''''], pr_Resources = [''events''], pr_Verbs = [''create'', ''patch''] \<rparr>]"

definition gpuLeaseMarkers :: "PolicyRule list" where
  "gpuLeaseMarkers =
     [\<lparr> pr_Groups = [''poc.llm-d.ai''], pr_Resources = [''gpuleases''],
        pr_Verbs = [''get'', ''list'', ''watch'', ''create'', ''update'', ''patch'', ''delete''] \<rparr>,
      \<lparr> pr_Groups = [''poc.llm-d.ai''], pr_Resources = [''gpuleases/status''], pr_Verbs = [''get'', ''update'', ''patch''] \<rparr>,
      \<lparr> pr_Groups = [''poc.llm-d.ai''], pr_Resources = [''gpuleases/finalizers''], pr_Verbs = [''update''] \<rparr>]"

definition managerRole :: "PolicyRule list" where
  "managerRole =
     [\<lparr> pr_Groups = [''''], pr_Resources = [''events''], pr_Verbs = [''create'', ''patch''] \<rparr>,
      \<lparr> pr_Groups = [''''], pr_Resources = [''nodes''], pr_Verbs = [''get'', ''list'', ''watch''] \<rparr>,
      \<lparr> pr_Groups = [''''], pr_Resources = [''pods''], pr_Verbs = [''get'', ''list'', ''patch'', ''watch''] \<rparr>,
      \<lparr> pr_Groups = [''apps''], pr_Resources = [''deployments''], pr_Verbs = [''get'', ''list'', ''watch''] \<rparr>,
      \<lparr> pr_Groups = [''kueue.x-k8s.io''], pr_Resources = [''clusterqueues'', ''localqueues'', ''resourceflavors''],
        pr_Verbs = [''get'', ''list'', ''watch''] \<rparr>,
      \<lparr> pr_Groups = [''kueue.x-k8s.io''], pr_Resources = [''workloads''],
        pr_Verbs = [''create'', ''delete'', ''get'', ''list'', ''watch''] \<rparr>,
      \<lparr> pr_Groups = [''poc.llm-d.ai''], pr_Resources = [''gpuleases''],
        pr_Verbs = [''create'', ''delete'', ''get'', ''list'', ''patch'', ''update'', ''watch''] \<rparr>,
      \<lparr> pr_Groups = [''poc.llm-d.ai''], pr_Resources = [''gpuleases/finalizers''], pr_Verbs = [''update''] \<rparr>,
      \<lparr> pr_Groups = [''poc.llm-d.ai''], pr_Resources = [''gpuleases/status''], pr_Verbs = [''get'', ''patch'', ''update''] \<rparr>]"

text \<open>A request is allowed if one rule names its group, its resource and its verb.\<close>

type_synonym access = "string \<times> string \<times> string"

definition ruleAccess :: "PolicyRule \<Rightarrow> access list" where
  "ruleAccess p = List.product (pr_Groups p) (List.product (pr_Resources p) (pr_Verbs p))"

definition roleAccess :: "PolicyRule list \<Rightarrow> access list" where
  "roleAccess rules = concat (map ruleAccess rules)"

definition allows :: "PolicyRule list \<Rightarrow> access \<Rightarrow> bool" where
  "allows rules = (\<lambda>(g, res, v). list_ex (\<lambda>p. g \<in> set (pr_Groups p) \<and> res \<in> set (pr_Resources p) \<and> v \<in> set (pr_Verbs p)) rules)"

lemma allows_iff: "allows rules a \<longleftrightarrow> a \<in> set (roleAccess rules)"
  by (cases a) (auto simp: allows_def roleAccess_def ruleAccess_def list_ex_iff)

lemmas role_defs = managerRole_def rbacMarkers_def warmPoolMarkers_def gpuLeaseMarkers_def

text \<open>The generated role grants what the markers ask for, no more and no less.\<close>

lemma role_of_markers: "allows managerRole a \<longleftrightarrow> allows (rbacMarkers @ warmPoolMarkers @ gpuLeaseMarkers) a"
proof -
  have "set (roleAccess managerRole) = set (roleAccess (rbacMarkers @ warmPoolMarkers @ gpuLeaseMarkers))"
    unfolding roleAccess_def ruleAccess_def role_defs by (simp add: insert_commute)
  then show ?thesis by (simp add: allows_iff)
qed

section \<open>The client behind the API server's authorisation\<close>

text \<open>
  The requests behind each operation of the manager's client. It reads through informers, which list
  and watch the kind; the API server also asks for the \<open>finalizers\<close> subresource of the owner of an object
  that is created with a blocking owner reference, as \<open>SetControllerReference\<close> makes it.
\<close>

datatype ClientOp =
    GetLease | ListLeases | CreateLease | UpdateLease | UpdateLeaseStatus | DeleteLease
  | GetWorkload | CreateWorkload | DeleteWorkload
  | GetPod | ListPods | PatchPod | GetDeployment | ListDeployments | GetNode | ListNodes | ListFlavors
  | RecordEvent

definition reading :: "string \<Rightarrow> string \<Rightarrow> access list" where
  "reading g res = [(g, res, ''get''), (g, res, ''list''), (g, res, ''watch'')]"

fun opAccess :: "ClientOp \<Rightarrow> access list" where
  "opAccess GetLease = reading (gv_Group PocGroupVersion) ''gpuleases''"
| "opAccess ListLeases = reading (gv_Group PocGroupVersion) ''gpuleases''"
| "opAccess CreateLease = [(gv_Group PocGroupVersion, ''gpuleases'', ''create'')]"
| "opAccess UpdateLease = [(gv_Group PocGroupVersion, ''gpuleases'', ''update'')]"
| "opAccess UpdateLeaseStatus = [(gv_Group PocGroupVersion, ''gpuleases/status'', ''update'')]"
| "opAccess DeleteLease = [(gv_Group PocGroupVersion, ''gpuleases'', ''delete'')]"
| "opAccess GetWorkload = reading (gv_Group KueueGroupVersion) ''workloads''"
| "opAccess CreateWorkload = [(gv_Group KueueGroupVersion, ''workloads'', ''create''),
     (gv_Group PocGroupVersion, ''gpuleases/finalizers'', ''update'')]"
| "opAccess DeleteWorkload = [(gv_Group KueueGroupVersion, ''workloads'', ''delete'')]"
| "opAccess GetPod = reading '''' ''pods''"
| "opAccess ListPods = reading '''' ''pods''"
| "opAccess PatchPod = [('''', ''pods'', ''patch'')]"
| "opAccess GetDeployment = reading ''apps'' ''deployments''"
| "opAccess ListDeployments = reading ''apps'' ''deployments''"
| "opAccess GetNode = reading '''' ''nodes''"
| "opAccess ListNodes = reading '''' ''nodes''"
| "opAccess ListFlavors = reading (gv_Group KueueGroupVersion) ''resourceflavors''"
| "opAccess RecordEvent = [('''', ''events'', ''create''), ('''', ''events'', ''patch'')]"

definition permits :: "PolicyRule list \<Rightarrow> ClientOp \<Rightarrow> bool" where
  "permits rules op = list_all (allows rules) (opAccess op)"

definition Forbidden :: goerr where
  "Forbidden = ErrApi (ServerError ''Forbidden'')"

definition guardRead :: "PolicyRule list \<Rightarrow> ClientOp \<Rightarrow> ('w \<Rightarrow> goerr + 'a) \<Rightarrow> 'w \<Rightarrow> goerr + 'a" where
  "guardRead rules op q = (if permits rules op then q else (\<lambda>_. Inl Forbidden))"

definition guardWrite :: "PolicyRule list \<Rightarrow> ClientOp \<Rightarrow> ('w, 'a) go \<Rightarrow> ('w, 'a) go" where
  "guardWrite rules op p = (if permits rules op then p else throw Forbidden)"

definition authorised :: "PolicyRule list \<Rightarrow> 'w Client \<Rightarrow> 'w Client" where
  "authorised rules c =
     \<lparr> getLease = (\<lambda>n. guardRead rules GetLease (getLease c n)), listLeases = guardRead rules ListLeases (listLeases c),
       createLease = (\<lambda>l. guardWrite rules CreateLease (createLease c l)),
       updateLease = (\<lambda>l. guardWrite rules UpdateLease (updateLease c l)),
       updateLeaseStatus = (\<lambda>l. guardWrite rules UpdateLeaseStatus (updateLeaseStatus c l)),
       deleteLease = (\<lambda>l. guardWrite rules DeleteLease (deleteLease c l)),
       getWorkload = (\<lambda>ns n. guardRead rules GetWorkload (getWorkload c ns n)),
       createWorkloadObj = (\<lambda>wl. guardWrite rules CreateWorkload (createWorkloadObj c wl)),
       deleteWorkloadObj = (\<lambda>ns n. guardWrite rules DeleteWorkload (deleteWorkloadObj c ns n)),
       getPod = (\<lambda>ns n. guardRead rules GetPod (getPod c ns n)),
       listPods = (\<lambda>ns sel. guardRead rules ListPods (listPods c ns sel)),
       patchPod = (\<lambda>p p'. guardWrite rules PatchPod (patchPod c p p')),
       getDeployment = (\<lambda>ns n. guardRead rules GetDeployment (getDeployment c ns n)),
       listDeployments = (\<lambda>ns. guardRead rules ListDeployments (listDeployments c ns)),
       getNode = (\<lambda>n. guardRead rules GetNode (getNode c n)), listNodes = guardRead rules ListNodes (listNodes c),
       listFlavors = guardRead rules ListFlavors (listFlavors c) \<rparr>"

text \<open>Without its permission the recorder drops the event.\<close>

definition authorisedManager :: "PolicyRule list \<Rightarrow> 'w Manager \<Rightarrow> 'w Manager" where
  "authorisedManager rules mgr =
     mgr\<lparr>mgr_GetClient := authorised rules (mgr_GetClient mgr),
         mgr_GetEventRecorderFor := (\<lambda>name. if permits rules RecordEvent then mgr_GetEventRecorderFor mgr name
                                           else (\<lambda>ob ty rs m w. w))\<rparr>"

lemma permits_iff: "permits rules op \<longleftrightarrow> set (opAccess op) \<subseteq> set (roleAccess rules)"
  by (auto simp: permits_def allows_iff list_all_iff)

lemmas access_defs = roleAccess_def ruleAccess_def reading_def PocGroupVersion_def KueueGroupVersion_def

text \<open>A role that permits every operation makes no difference.\<close>

lemma authorised_permitted:
  assumes "\<And>op. permits rules op"
  shows "authorised rules c = c" and "authorisedManager rules mgr = mgr"
proof -
  show "authorised rules c = c"
    using assms by (simp add: authorised_def guardRead_def guardWrite_def)
  then show "authorisedManager rules mgr = mgr"
    using assms by (simp add: authorisedManager_def authorised_def guardRead_def guardWrite_def)
qed

lemma managerRole_permits: "permits managerRole op"
  by (cases op) (simp_all add: permits_iff access_defs managerRole_def)

text \<open>What the role grants beyond the operations of the client.\<close>

definition unusedAccess :: "access list" where
  "unusedAccess =
     List.product [gv_Group KueueGroupVersion] (List.product [''localqueues'', ''clusterqueues''] [''get'', ''list'', ''watch'']) @
     [(gv_Group PocGroupVersion, ''gpuleases'', ''patch''), (gv_Group PocGroupVersion, ''gpuleases/status'', ''get''),
      (gv_Group PocGroupVersion, ''gpuleases/status'', ''patch'')]"

lemma role_exact: "allows managerRole a \<longleftrightarrow> (\<exists>op. a \<in> set (opAccess op)) \<or> a \<in> set unusedAccess"
proof
  assume "(\<exists>op. a \<in> set (opAccess op)) \<or> a \<in> set unusedAccess"
  moreover have "set unusedAccess \<subseteq> set (roleAccess managerRole)"
    by (simp add: unusedAccess_def access_defs managerRole_def)
  ultimately show "allows managerRole a"
    using managerRole_permits by (auto simp: allows_iff permits_iff)
next
  let ?ops = "[GetLease, CreateLease, UpdateLease, UpdateLeaseStatus, DeleteLease, GetWorkload, CreateWorkload, DeleteWorkload,
     GetPod, PatchPod, GetDeployment, GetNode, ListFlavors, RecordEvent]"
  assume "allows managerRole a"
  moreover have "set (roleAccess managerRole) \<subseteq> set (concat (map opAccess ?ops)) \<union> set unusedAccess"
    by (simp add: unusedAccess_def access_defs managerRole_def)
  ultimately have "a \<in> set (concat (map opAccess ?ops)) \<union> set unusedAccess" unfolding allows_iff by (rule rev_subsetD)
  then show "(\<exists>op. a \<in> set (opAccess op)) \<or> a \<in> set unusedAccess" by (simp del: opAccess.simps) blast
qed

text \<open>
  The markers beside the WarmPool reconciler would not be enough for it: it removes the finalizer of a
  failed lease with an update.
\<close>

lemma warmPoolMarkers_no_update: "\<not> permits (rbacMarkers @ warmPoolMarkers) UpdateLease"
  by (simp add: permits_iff access_defs rbacMarkers_def warmPoolMarkers_def)

section \<open>The role suffices\<close>

text \<open>
  C13: the manager is granted what it needs. Behind an API server that enforces \<open>config/rbac/role.yaml\<close>,
  both reconcilers, as the manager wires them, behave in every world as they do without authorisation:
  no request of theirs is refused and no event is dropped. And that role is the one the markers in the
  code ask for: the same requests are allowed.
\<close>

theorem manager_role_suffices:
  "leaseReconcile (managerLeaseReconciler (authorisedManager managerRole mgr)) n w =
     leaseReconcile (managerLeaseReconciler mgr) n w \<and>
   warmPoolReconcile (managerWarmPoolReconciler (authorisedManager managerRole mgr)) ns d w =
     warmPoolReconcile (managerWarmPoolReconciler mgr) ns d w \<and>
   (allows managerRole a \<longleftrightarrow> allows (rbacMarkers @ warmPoolMarkers @ gpuLeaseMarkers) a)"
  using role_of_markers by (simp add: authorised_permitted(2) [OF managerRole_permits])

end
