(* ===== verification/Flags.thy ===== *)
theory Flags
  imports Manager
begin

text \<open>
  The command line of the manager: the flags \<open>main\<close> of \<open>cmd/manager/main.go\<close> defines, and Go's \<open>flag\<close>
  package, which parses them. Flags that libraries define (those of zap and controller-runtime) are an
  argument. With it \<open>main\<close> is complete, from the arguments to the exit code.
\<close>

section \<open>The flags of main\<close>

datatype FlagVar =
    StringVar "string \<Rightarrow> ManagerFlags \<Rightarrow> ManagerFlags"
  | BoolVar "bool \<Rightarrow> ManagerFlags \<Rightarrow> ManagerFlags"

definition mainFlags :: "(string \<times> FlagVar) list" where
  "mainFlags =
     [(''metrics-bind-address'', StringVar (\<lambda>v f. f\<lparr>mf_metricsAddr := v\<rparr>)),
      (''health-probe-bind-address'', StringVar (\<lambda>v f. f\<lparr>mf_probeAddr := v\<rparr>)),
      (''leader-elect'', BoolVar (\<lambda>v f. f\<lparr>mf_enableLeaderElection := v\<rparr>)),
      (''metrics-secure'', BoolVar (\<lambda>v f. f\<lparr>mf_secureMetrics := v\<rparr>)),
      (''webhook-cert-path'', StringVar (\<lambda>v f. f\<lparr>mf_webhookCertPath := v\<rparr>)),
      (''webhook-cert-name'', StringVar (\<lambda>v f. f\<lparr>mf_webhookCertName := v\<rparr>)),
      (''webhook-cert-key'', StringVar (\<lambda>v f. f\<lparr>mf_webhookCertKey := v\<rparr>)),
      (''metrics-cert-path'', StringVar (\<lambda>v f. f\<lparr>mf_metricsCertPath := v\<rparr>)),
      (''metrics-cert-name'', StringVar (\<lambda>v f. f\<lparr>mf_metricsCertName := v\<rparr>)),
      (''metrics-cert-key'', StringVar (\<lambda>v f. f\<lparr>mf_metricsCertKey := v\<rparr>)),
      (''enable-http2'', BoolVar (\<lambda>v f. f\<lparr>mf_enableHTTP2 := v\<rparr>))]"

section \<open>Go's flag package\<close>

text \<open>\<open>strconv.ParseBool\<close>.\<close>

definition parseBool :: "string \<Rightarrow> bool option" where
  "parseBool s =
     (if s \<in> {''1'', ''t'', ''T'', ''TRUE'', ''true'', ''True''} then Some True
      else if s \<in> {''0'', ''f'', ''F'', ''FALSE'', ''false'', ''False''} then Some False
      else None)"

text \<open>
  A flag as the parser sees it: whether it is boolean, so that it takes no separate argument, and what
  its value does to the variables, \<open>None\<close> if it does not accept the value.
\<close>

record FlagDef =
  fd_IsBool :: bool
  fd_Set :: "string \<Rightarrow> (ManagerFlags \<Rightarrow> ManagerFlags) option"

fun flagDef :: "FlagVar \<Rightarrow> FlagDef" where
  "flagDef (StringVar upd) = \<lparr> fd_IsBool = False, fd_Set = (\<lambda>v. Some (upd v)) \<rparr>"
| "flagDef (BoolVar upd) = \<lparr> fd_IsBool = True, fd_Set = (\<lambda>v. map_option upd (parseBool v)) \<rparr>"

text \<open>
  The flags of libraries change none of these variables: \<open>lib name\<close> says whether such a flag is boolean
  and which values it accepts.
\<close>

type_synonym LibFlags = "string \<Rightarrow> (bool \<times> (string \<Rightarrow> bool)) option"

definition lookupFlag :: "LibFlags \<Rightarrow> string \<Rightarrow> FlagDef option" where
  "lookupFlag lib name =
     (case map_of mainFlags name of
        Some v \<Rightarrow> Some (flagDef v)
      | None \<Rightarrow> map_option (\<lambda>(b, ok). \<lparr> fd_IsBool = b, fd_Set = (\<lambda>v. if ok v then Some (\<lambda>f. f) else None) \<rparr>) (lib name))"

text \<open>An argument: the end of the flags, a syntax error, or a flag with or without \<open>=value\<close>.\<close>

datatype FlagArg = ArgStop | ArgTerminator | ArgBad | ArgFlag string "string option"

definition splitValue :: "string \<Rightarrow> FlagArg" where
  "splitValue name =
     (let key = hd name # takeWhile (\<lambda>c. c \<noteq> CHR ''='') (tl name);
          rest = dropWhile (\<lambda>c. c \<noteq> CHR ''='') (tl name)
      in ArgFlag key (if rest = [] then None else Some (tl rest)))"

definition flagArg :: "string \<Rightarrow> FlagArg" where
  "flagArg s =
     (if length s < 2 \<or> hd s \<noteq> CHR ''-'' then ArgStop
      else if s = ''--'' then ArgTerminator
      else
        let name = (if s ! 1 = CHR ''-'' then drop 2 s else drop 1 s) in
        if name = [] \<or> hd name = CHR ''-'' \<or> hd name = CHR ''='' then ArgBad else splitValue name)"

text \<open>\<open>CommandLine\<close> exits on an error: with 0 when help was asked for, otherwise with 2.\<close>

datatype FlagResult = FlagExit int | FlagsParsed ManagerFlags "string list"

definition unknownFlag :: "string \<Rightarrow> FlagResult" where
  "unknownFlag name = FlagExit (if name = ''help'' \<or> name = ''h'' then 0 else 2)"

fun parseFlags :: "LibFlags \<Rightarrow> string list \<Rightarrow> ManagerFlags \<Rightarrow> FlagResult" where
  "parseFlags lib [] f = FlagsParsed f []"
| "parseFlags lib (s # args) f =
     (case flagArg s of
        ArgStop \<Rightarrow> FlagsParsed f (s # args)
      | ArgTerminator \<Rightarrow> FlagsParsed f args
      | ArgBad \<Rightarrow> FlagExit 2
      | ArgFlag name val \<Rightarrow>
          (case lookupFlag lib name of
             None \<Rightarrow> unknownFlag name
           | Some d \<Rightarrow>
               (case (val, fd_IsBool d) of
                  (Some v, _) \<Rightarrow> (case fd_Set d v of None \<Rightarrow> FlagExit 2 | Some upd \<Rightarrow> parseFlags lib args (upd f))
                | (None, True) \<Rightarrow> (case fd_Set d ''true'' of None \<Rightarrow> FlagExit 2 | Some upd \<Rightarrow> parseFlags lib args (upd f))
                | (None, False) \<Rightarrow>
                    (case args of
                       [] \<Rightarrow> FlagExit 2
                     | v # rest \<Rightarrow> (case fd_Set d v of None \<Rightarrow> FlagExit 2 | Some upd \<Rightarrow> parseFlags lib rest (upd f))))))"

section \<open>The whole of main\<close>

definition managerProcess :: "LibFlags \<Rightarrow> (ManagerCall \<Rightarrow> bool) \<Rightarrow> string list \<Rightarrow> int \<times> ManagerCall list" where
  "managerProcess lib fails args =
     (case parseFlags lib args defaultFlags of
        FlagExit code \<Rightarrow> (code, [])
      | FlagsParsed f rest \<Rightarrow> managerMain fails f)"

section \<open>Parsing what is written\<close>

definition showBool :: "bool \<Rightarrow> string" where
  "showBool b = (if b then ''true'' else ''false'')"

text \<open>A command line that gives every flag.\<close>

definition showFlags :: "ManagerFlags \<Rightarrow> (string \<times> string) list" where
  "showFlags f =
     [(''metrics-bind-address'', mf_metricsAddr f), (''health-probe-bind-address'', mf_probeAddr f),
      (''leader-elect'', showBool (mf_enableLeaderElection f)), (''metrics-secure'', showBool (mf_secureMetrics f)),
      (''webhook-cert-path'', mf_webhookCertPath f), (''webhook-cert-name'', mf_webhookCertName f),
      (''webhook-cert-key'', mf_webhookCertKey f), (''metrics-cert-path'', mf_metricsCertPath f),
      (''metrics-cert-name'', mf_metricsCertName f), (''metrics-cert-key'', mf_metricsCertKey f),
      (''enable-http2'', showBool (mf_enableHTTP2 f))]"

definition flagEq :: "string \<times> string \<Rightarrow> string" where
  "flagEq = (\<lambda>(name, v). ''--'' @ name @ CHR ''='' # v)"

lemma parseBool_show [simp]: "parseBool (showBool b) = Some b"
  by (simp add: parseBool_def showBool_def)

lemma flagArg_eq:
  assumes "name \<noteq> []" and "CHR ''='' \<notin> set name" and "hd name \<noteq> CHR ''-''"
  shows "flagArg (flagEq (name, v)) = ArgFlag name (Some v)"
proof -
  obtain c cs where n: "name = c # cs" using assms(1) by (cases name) auto
  have "\<forall>x \<in> set cs. x \<noteq> CHR ''=''" using assms(2) n by auto
  then have "takeWhile (\<lambda>x. x \<noteq> CHR ''='') (cs @ CHR ''='' # v) = cs" "dropWhile (\<lambda>x. x \<noteq> CHR ''='') (cs @ CHR ''='' # v) = CHR ''='' # v"
    by (simp_all add: takeWhile_append dropWhile_append)
  then show ?thesis using assms(2,3) by (auto simp: flagEq_def flagArg_def splitValue_def n)
qed

lemma parseFlags_eq:
  assumes "map_of mainFlags name \<noteq> None"
  shows "parseFlags lib (flagEq (name, v) # args) f =
    (case fd_Set (flagDef (the (map_of mainFlags name))) v of
       None \<Rightarrow> FlagExit 2
     | Some upd \<Rightarrow> parseFlags lib args (upd f))"
proof -
  have "name \<in> fst ` set mainFlags" using assms by (simp add: map_of_eq_None_iff)
  then have "name \<noteq> [] \<and> CHR ''='' \<notin> set name \<and> hd name \<noteq> CHR ''-''"
    unfolding mainFlags_def by auto
  then have "flagArg (flagEq (name, v)) = ArgFlag name (Some v)" using flagArg_eq by blast
  then show ?thesis using assms by (auto simp: lookupFlag_def)
qed

text \<open>
  C32: the command line says what it seems to say. Whatever the variables held before and whatever flags
  libraries define, parsing \<open>--name=value\<close> for every flag of the manager sets every variable to
  the value given under its name and leaves no argument over.
\<close>

theorem flags_roundtrip: "parseFlags lib (map flagEq (showFlags f)) g = FlagsParsed f []"
  by (simp add: showFlags_def parseFlags_eq mainFlags_def del: parseFlags.simps(2))

text \<open>
  The arguments of the manager's container: those of \<open>config/manager/manager.yaml\<close>, with the patch of
  \<open>config/default\<close> in front.
\<close>

definition deployedArgs :: "string list" where
  "deployedArgs = [''--metrics-bind-address=:8443'', ''--leader-elect'', ''--health-probe-bind-address=:8081'']"

lemma deployed_flags:
  "parseFlags lib deployedArgs defaultFlags =
     FlagsParsed (defaultFlags\<lparr>mf_metricsAddr := '':8443'', mf_enableLeaderElection := True\<rparr>) []"
  by (simp add: deployedArgs_def flagArg_def splitValue_def lookupFlag_def mainFlags_def parseBool_def defaultFlags_def)

text \<open>A mistyped flag stops the process before any call.\<close>

lemma bad_flag_exits:
  assumes "lookupFlag lib name = None" and "flagArg s = ArgFlag name v"
  shows "managerProcess lib fails (s # args) = (if name = ''help'' \<or> name = ''h'' then 0 else 2, [])"
  using assms by (simp add: managerProcess_def unknownFlag_def)

end
