(* ===== verification/Json.thy ===== *)
theory Json
  imports Podclient
begin

text \<open>
  \<open>encoding/json\<close> as the pod client and the pod's server use it: the text of a request or response
  body, byte for byte, and the decoder that reads it into a struct. Strings are byte strings: the
  encoder and the decoder replace what is not UTF-8 by the replacement character.
\<close>

section \<open>UTF-8\<close>

abbreviation byte :: "char \<Rightarrow> nat" where "byte c \<equiv> of_char c"

definition byteIn :: "nat \<Rightarrow> nat \<Rightarrow> string \<Rightarrow> bool" where
  "byteIn lo hi s = (case s of [] \<Rightarrow> False | c # _ \<Rightarrow> lo \<le> byte c \<and> byte c \<le> hi)"

text \<open>The length of the encoded rune at the beginning of a string, 0 if there is none (\<open>utf8.DecodeRune\<close>).\<close>

definition runeLen :: "string \<Rightarrow> nat" where
  "runeLen s =
     (case s of
        [] \<Rightarrow> 0
      | c # cs \<Rightarrow>
          let b = byte c in
          if b < 128 then 1
          else if 194 \<le> b \<and> b \<le> 223 then (if byteIn 128 191 cs then 2 else 0)
          else if 224 \<le> b \<and> b \<le> 239 then
            (if byteIn (if b = 224 then 160 else 128) (if b = 237 then 159 else 191) cs \<and> byteIn 128 191 (drop 1 cs)
             then 3 else 0)
          else if 240 \<le> b \<and> b \<le> 244 then
            (if byteIn (if b = 240 then 144 else 128) (if b = 244 then 143 else 191) cs \<and> byteIn 128 191 (drop 1 cs) \<and>
                byteIn 128 191 (drop 2 cs)
             then 4 else 0)
          else 0)"

text \<open>\<open>utf8.EncodeRune\<close>: a surrogate or a number out of range becomes U+FFFD.\<close>

definition replacementChar :: string where
  "replacementChar = map char_of [239, 191, 189 :: nat]"

definition encodeRune :: "nat \<Rightarrow> string" where
  "encodeRune r =
     (if r < 128 then [char_of r]
      else if r < 2048 then map char_of [192 + r div 64, 128 + r mod 64]
      else if 55296 \<le> r \<and> r < 57344 \<or> 1114111 < r then replacementChar
      else if r < 65536 then map char_of [224 + r div 4096, 128 + r div 64 mod 64, 128 + r mod 64]
      else map char_of [240 + r div 262144, 128 + r div 4096 mod 64, 128 + r div 64 mod 64, 128 + r mod 64])"

text \<open>What encoding keeps of a string: every byte that begins no rune is replaced.\<close>

function toValidUTF8 :: "string \<Rightarrow> string" where
  "toValidUTF8 [] = []"
| "toValidUTF8 (c # cs) =
     (case runeLen (c # cs) of
        0 \<Rightarrow> replacementChar @ toValidUTF8 cs
      | Suc k \<Rightarrow> take (Suc k) (c # cs) @ toValidUTF8 (drop k cs))"
  by pat_completeness auto

termination by (relation "measure length") simp_all

section \<open>Writing\<close>

abbreviation DQ :: char where "DQ \<equiv> CHR 0x22" \<comment> \<open>the double quote\<close>
abbreviation BS :: char where "BS \<equiv> CHR 0x5C" \<comment> \<open>the backslash\<close>

definition hexDigit :: "nat \<Rightarrow> char" where
  "hexDigit n = (if n < 10 then char_of (48 + n) else char_of (87 + n))"

definition escapeU :: "nat \<Rightarrow> string" where
  "escapeU r = BS # CHR ''u'' # map hexDigit [r div 4096 mod 16, r div 256 mod 16, r div 16 mod 16, r mod 16]"

text \<open>The two-character escapes of the encoder.\<close>

definition shortEscape :: "char \<Rightarrow> char option" where
  "shortEscape c =
     (if c = DQ \<or> c = BS then Some c
      else if byte c = 8 then Some CHR ''b''
      else if byte c = 12 then Some CHR ''f''
      else if byte c = 10 then Some CHR ''n''
      else if byte c = 13 then Some CHR ''r''
      else if byte c = 9 then Some CHR ''t''
      else None)"

definition quoteASCII :: "char \<Rightarrow> string" where
  "quoteASCII c =
     (case shortEscape c of
        Some e \<Rightarrow> [BS, e]
      | None \<Rightarrow> if byte c < 32 \<or> c = CHR ''<'' \<or> c = CHR ''>'' \<or> c = CHR ''&'' then escapeU (byte c) else [c])"

text \<open>U+2028 and U+2029 are escaped; any other rune is copied.\<close>

definition quoteStep :: "char \<Rightarrow> string \<Rightarrow> string \<times> nat" where
  "quoteStep c cs =
     (if byte c < 128 then (quoteASCII c, 0)
      else case runeLen (c # cs) of
        0 \<Rightarrow> (escapeU 65533, 0)
      | Suc k \<Rightarrow>
          if take (Suc k) (c # cs) = encodeRune 8232 then (escapeU 8232, k)
          else if take (Suc k) (c # cs) = encodeRune 8233 then (escapeU 8233, k)
          else (take (Suc k) (c # cs), k))"

function quoteBody :: "string \<Rightarrow> string" where
  "quoteBody [] = []"
| "quoteBody (c # cs) = fst (quoteStep c cs) @ quoteBody (drop (snd (quoteStep c cs)) cs)"
  by pat_completeness auto

termination by (relation "measure length") simp_all

definition quote :: "string \<Rightarrow> string" where
  "quote s = DQ # quoteBody s @ [DQ]"

fun members :: "(string \<times> string) list \<Rightarrow> string" where
  "members [] = []"
| "members [(k, v)] = quote k @ CHR '':'' # v"
| "members ((k, v) # ms) = quote k @ CHR '':'' # v @ CHR '','' # members ms"

definition encodeActivate :: "ActivateRequest \<Rightarrow> string" where
  "encodeActivate r = CHR ''{'' # members
     [(''leaseName'', quote (ar_LeaseName r)), (''node'', quote (ar_Node r)), (''gpuID'', showInt (ar_GPUID r)),
      (''gpuModel'', quote (ar_GPUModel r))] @ ''}''"

text \<open>\<open>Encoder.Encode\<close> ends the value with a newline.\<close>

definition encodeState :: "StateResponse \<Rightarrow> string" where
  "encodeState s = CHR ''{'' # members
     [(''state'', quote (sr_State s)), (''leaseName'', quote (sr_LeaseName s)), (''node'', quote (sr_Node s)),
      (''gpuID'', showInt (sr_GPUID s))] @ [CHR ''}'', CHR 0x0A]"

section \<open>Reading strings\<close>

definition hexVal :: "char \<Rightarrow> nat option" where
  "hexVal c =
     (let b = byte c in
      if 48 \<le> b \<and> b \<le> 57 then Some (b - 48)
      else if 97 \<le> b \<and> b \<le> 102 then Some (b - 87)
      else if 65 \<le> b \<and> b \<le> 70 then Some (b - 55)
      else None)"

definition hex4 :: "string \<Rightarrow> nat option" where
  "hex4 s =
     (case s of
        a # b # c # d # _ \<Rightarrow>
          (case (hexVal a, hexVal b, hexVal c, hexVal d) of
             (Some w, Some x, Some y, Some z) \<Rightarrow> Some (4096 * w + 256 * x + 16 * y + z)
           | _ \<Rightarrow> None)
      | _ \<Rightarrow> None)"

definition unescape :: "char \<Rightarrow> char option" where
  "unescape e =
     (if e = DQ \<or> e = BS \<or> e = CHR ''/'' then Some e
      else if e = CHR ''b'' then Some (char_of (8 :: nat))
      else if e = CHR ''f'' then Some (char_of (12 :: nat))
      else if e = CHR ''n'' then Some (char_of (10 :: nat))
      else if e = CHR ''r'' then Some (char_of (13 :: nat))
      else if e = CHR ''t'' then Some (char_of (9 :: nat))
      else None)"

text \<open>The low half of a surrogate pair, if the next escape is one.\<close>

definition surrogatePair :: "nat \<Rightarrow> string \<Rightarrow> nat option" where
  "surrogatePair r s =
     (if take 2 s = [BS, CHR ''u''] then
        (case hex4 (drop 2 s) of
           Some r2 \<Rightarrow> if r < 56320 \<and> 56320 \<le> r2 \<and> r2 < 57344 then Some (65536 + (r - 55296) * 1024 + (r2 - 56320)) else None
         | None \<Rightarrow> None)
      else None)"

datatype StrStep = StrEnd | StrBad | StrChunk string nat

definition unescapeU :: "string \<Rightarrow> StrStep" where
  "unescapeU es =
     (case hex4 es of
        None \<Rightarrow> StrBad
      | Some r \<Rightarrow>
          if 55296 \<le> r \<and> r < 57344 then
            (case surrogatePair r (drop 4 es) of
               Some r' \<Rightarrow> StrChunk (encodeRune r') 11
             | None \<Rightarrow> StrChunk replacementChar 5)
          else StrChunk (encodeRune r) 5)"

text \<open>The first character of the rest of a string and the number of bytes after the first that it takes.\<close>

definition strStep :: "char \<Rightarrow> string \<Rightarrow> StrStep" where
  "strStep c cs =
     (if c = DQ then StrEnd
      else if c = BS then
        (case cs of
           [] \<Rightarrow> StrBad
         | e # es \<Rightarrow>
             if e = CHR ''u'' then unescapeU es
             else (case unescape e of None \<Rightarrow> StrBad | Some x \<Rightarrow> StrChunk [x] 1))
      else if byte c < 32 then StrBad
      else case runeLen (c # cs) of
        0 \<Rightarrow> StrChunk replacementChar 0
      | Suc k \<Rightarrow> StrChunk (take (Suc k) (c # cs)) k)"

text \<open>The rest of a string literal, after its opening quote: the string and what follows the literal.\<close>

function jstring :: "string \<Rightarrow> (string \<times> string) option" where
  "jstring [] = None"
| "jstring (c # cs) =
     (case strStep c cs of
        StrEnd \<Rightarrow> Some ([], cs)
      | StrBad \<Rightarrow> None
      | StrChunk out k \<Rightarrow> map_option (apfst (append out)) (jstring (drop k cs)))"
  by pat_completeness auto

termination by (relation "measure length") simp_all

section \<open>Reading values\<close>

datatype json = JNull | JBool bool | JNum string | JStr string | JArr "json list" | JObj "(string \<times> json) list"

definition isSpace :: "char \<Rightarrow> bool" where
  "isSpace c \<longleftrightarrow> byte c \<in> {32, 9, 13, 10}"

abbreviation skipSpace :: "string \<Rightarrow> string" where
  "skipSpace \<equiv> dropWhile isSpace"

text \<open>A number literal: sign, integer part, fraction and exponent.\<close>

definition jsign :: "string \<Rightarrow> string \<times> string" where
  "jsign s = (if take 1 s = ''-'' then (''-'', drop 1 s) else ([], s))"

definition jint :: "string \<Rightarrow> (string \<times> string) option" where
  "jint s =
     (if take 1 s = ''0'' then Some (''0'', drop 1 s)
      else if takeWhile isDigit s = [] then None
      else Some (takeWhile isDigit s, dropWhile isDigit s))"

definition jdigits :: "string \<Rightarrow> string \<Rightarrow> (string \<times> string) option" where
  "jdigits pre s = (if takeWhile isDigit s = [] then None else Some (pre @ takeWhile isDigit s, dropWhile isDigit s))"

definition jfrac :: "string \<Rightarrow> (string \<times> string) option" where
  "jfrac s = (if take 1 s = ''.'' then jdigits ''.'' (drop 1 s) else Some ([], s))"

definition jexp :: "string \<Rightarrow> (string \<times> string) option" where
  "jexp s =
     (if take 1 s = ''e'' \<or> take 1 s = ''E'' then
        let t = drop 1 s in
        if take 1 t = ''+'' \<or> take 1 t = ''-'' then jdigits (take 2 s) (drop 1 t) else jdigits (take 1 s) t
      else Some ([], s))"

definition jnumber :: "string \<Rightarrow> (string \<times> string) option" where
  "jnumber s =
     (let (sg, s1) = jsign s in
      case jint s1 of None \<Rightarrow> None
      | Some (i, s2) \<Rightarrow>
          (case jfrac s2 of None \<Rightarrow> None
           | Some (fr, s3) \<Rightarrow>
               (case jexp s3 of None \<Rightarrow> None | Some (ex, s4) \<Rightarrow> Some (sg @ i @ fr @ ex, s4))))"

definition jliteral :: "string \<Rightarrow> (json \<times> string) option" where
  "jliteral s =
     (if take 4 s = ''null'' then Some (JNull, drop 4 s)
      else if take 4 s = ''true'' then Some (JBool True, drop 4 s)
      else if take 5 s = ''false'' then Some (JBool False, drop 5 s)
      else None)"

text \<open>
  The first value of the input and what follows it. \<open>n\<close> is fuel (\<open>jvalue_fuel\<close> below: twice the length
  and one is enough); \<open>d\<close> is how many arrays and objects may still be opened.
\<close>

fun jvalue :: "nat \<Rightarrow> nat \<Rightarrow> string \<Rightarrow> (json \<times> string) option"
  and jelems :: "nat \<Rightarrow> nat \<Rightarrow> string \<Rightarrow> (json list \<times> string) option"
  and jmembers :: "nat \<Rightarrow> nat \<Rightarrow> string \<Rightarrow> ((string \<times> json) list \<times> string) option" where
  "jvalue 0 d s = None"
| "jvalue (Suc n) d s =
     (case skipSpace s of
        [] \<Rightarrow> None
      | c # cs \<Rightarrow>
          if c = DQ then map_option (apfst JStr) (jstring cs)
          else if c = CHR ''{'' then
            (if d = 0 then None
             else if take 1 (skipSpace cs) = ''}'' then Some (JObj [], drop 1 (skipSpace cs))
             else map_option (apfst JObj) (jmembers n (d - 1) cs))
          else if c = CHR ''['' then
            (if d = 0 then None
             else if take 1 (skipSpace cs) = '']'' then Some (JArr [], drop 1 (skipSpace cs))
             else map_option (apfst JArr) (jelems n (d - 1) cs))
          else if c = CHR ''-'' \<or> isDigit c then map_option (apfst JNum) (jnumber (c # cs))
          else jliteral (c # cs))"
| "jelems 0 d s = None"
| "jelems (Suc n) d s =
     (case jvalue n d s of
        None \<Rightarrow> None
      | Some (v, r) \<Rightarrow>
          (case skipSpace r of
             [] \<Rightarrow> None
           | c # cs \<Rightarrow>
               if c = CHR '']'' then Some ([v], cs)
               else if c = CHR '','' then map_option (apfst (Cons v)) (jelems n d cs)
               else None))"
| "jmembers 0 d s = None"
| "jmembers (Suc n) d s =
     (if take 1 (skipSpace s) \<noteq> [DQ] then None
      else case jstring (drop 1 (skipSpace s)) of
        None \<Rightarrow> None
      | Some (k, r1) \<Rightarrow>
          if take 1 (skipSpace r1) \<noteq> '':'' then None
          else case jvalue n d (drop 1 (skipSpace r1)) of
            None \<Rightarrow> None
          | Some (v, r2) \<Rightarrow>
              (case skipSpace r2 of
                 [] \<Rightarrow> None
               | c # cs \<Rightarrow>
                   if c = CHR ''}'' then Some ([(k, v)], cs)
                   else if c = CHR '','' then map_option (apfst (Cons (k, v))) (jmembers n d cs)
                   else None))"

definition maxNestingDepth :: nat where "maxNestingDepth = 10000"

text \<open>\<open>Decoder.Decode\<close> reads the first value and leaves the rest of the stream alone.\<close>

definition jsonValue :: "string \<Rightarrow> json option" where
  "jsonValue s = map_option fst (jvalue (2 * length s + 1) maxNestingDepth s)"

section \<open>Reading into a struct\<close>

text \<open>
  A key names a field exactly or up to case; the only other characters that fold to a letter of ASCII
  are U+017F (to s) and U+212A (to k).
\<close>

fun foldKey :: "string \<Rightarrow> string" where
  "foldKey [] = []"
| "foldKey (c # cs) =
     (if 97 \<le> byte c \<and> byte c \<le> 122 then char_of (byte c - 32) # foldKey cs
      else if take 2 (c # cs) = encodeRune 383 then CHR ''S'' # foldKey (drop 1 cs)
      else if take 3 (c # cs) = encodeRune 8490 then CHR ''K'' # foldKey (drop 2 cs)
      else c # foldKey cs)"

definition isField :: "string \<Rightarrow> string \<Rightarrow> bool" where
  "isField name key \<longleftrightarrow> key = name \<or> foldKey key = foldKey name"

text \<open>
  Storing a value: null leaves the field as it is, a value of another type or out of range too, and is
  an error at the end.
\<close>

fun intoString :: "json \<Rightarrow> string \<Rightarrow> string option" where
  "intoString JNull old = Some old"
| "intoString (JStr s) old = Some s"
| "intoString _ old = None"

fun intoInt32 :: "json \<Rightarrow> int32 \<Rightarrow> int32 option" where
  "intoInt32 JNull old = Some old"
| "intoInt32 (JNum s) old = parseInt 32 s"
| "intoInt32 _ old = None"

definition store :: "'v option \<Rightarrow> ('v \<Rightarrow> 'r) \<Rightarrow> 'r \<times> bool \<Rightarrow> 'r \<times> bool" where
  "store x put rb = (case x of Some v \<Rightarrow> (put v, snd rb) | None \<Rightarrow> (fst rb, True))"

definition putActivate :: "ActivateRequest \<times> bool \<Rightarrow> string \<times> json \<Rightarrow> ActivateRequest \<times> bool" where
  "putActivate rb kv =
     (let (key, v) = kv; r = fst rb in
      if isField ''leaseName'' key then store (intoString v (ar_LeaseName r)) (\<lambda>x. r\<lparr>ar_LeaseName := x\<rparr>) rb
      else if isField ''node'' key then store (intoString v (ar_Node r)) (\<lambda>x. r\<lparr>ar_Node := x\<rparr>) rb
      else if isField ''gpuID'' key then store (intoInt32 v (ar_GPUID r)) (\<lambda>x. r\<lparr>ar_GPUID := x\<rparr>) rb
      else if isField ''gpuModel'' key then store (intoString v (ar_GPUModel r)) (\<lambda>x. r\<lparr>ar_GPUModel := x\<rparr>) rb
      else rb)"

definition putState :: "StateResponse \<times> bool \<Rightarrow> string \<times> json \<Rightarrow> StateResponse \<times> bool" where
  "putState rb kv =
     (let (key, v) = kv; r = fst rb in
      if isField ''state'' key then store (intoString v (sr_State r)) (\<lambda>x. r\<lparr>sr_State := x\<rparr>) rb
      else if isField ''leaseName'' key then store (intoString v (sr_LeaseName r)) (\<lambda>x. r\<lparr>sr_LeaseName := x\<rparr>) rb
      else if isField ''node'' key then store (intoString v (sr_Node r)) (\<lambda>x. r\<lparr>sr_Node := x\<rparr>) rb
      else if isField ''gpuID'' key then store (intoInt32 v (sr_GPUID r)) (\<lambda>x. r\<lparr>sr_GPUID := x\<rparr>) rb
      else rb)"

definition intoStruct :: "('r \<times> bool \<Rightarrow> string \<times> json \<Rightarrow> 'r \<times> bool) \<Rightarrow> 'r \<Rightarrow> json option \<Rightarrow> 'r option" where
  "intoStruct put zero v =
     (case v of
        Some JNull \<Rightarrow> Some zero
      | Some (JObj ms) \<Rightarrow> (let (r, bad) = foldl put (zero, False) ms in if bad then None else Some r)
      | _ \<Rightarrow> None)"

definition decodeActivateText :: "string \<Rightarrow> ActivateRequest option" where
  "decodeActivateText s =
     intoStruct putActivate \<lparr> ar_LeaseName = '''', ar_Node = '''', ar_GPUID = 0, ar_GPUModel = '''' \<rparr> (jsonValue s)"

definition decodeStateText :: "string \<Rightarrow> StateResponse option" where
  "decodeStateText s =
     intoStruct putState \<lparr> sr_State = '''', sr_LeaseName = '''', sr_Node = '''', sr_GPUID = 0 \<rparr> (jsonValue s)"

section \<open>A string read back\<close>

lemma byteIn_append: "byteIn lo hi s \<Longrightarrow> byteIn lo hi (s @ t)"
  by (auto simp: byteIn_def split: list.splits)

lemma byteIn_Cons [simp]: "byteIn lo hi (c # s) \<longleftrightarrow> lo \<le> byte c \<and> byte c \<le> hi" "\<not> byteIn lo hi []"
  by (simp_all add: byteIn_def)

lemma byteIn_ex: "byteIn lo hi s \<longleftrightarrow> (\<exists>c cs. s = c # cs \<and> lo \<le> byte c \<and> byte c \<le> hi)"
  by (auto simp: byteIn_def split: list.splits)

text \<open>A rune is recognised by its own bytes, whatever follows.\<close>

lemma runeLen_prefix:
  assumes "runeLen (c # cs) = Suc k"
  shows "k \<le> length cs" and "runeLen (c # take k cs @ t) = Suc k"
proof -
  consider "byte c < 128" "k = 0"
    | "194 \<le> byte c" "byte c \<le> 223" "byteIn 128 191 cs" "k = 1"
    | "224 \<le> byte c" "byte c \<le> 239" "k = 2"
        "byteIn (if byte c = 224 then 160 else 128) (if byte c = 237 then 159 else 191) cs" "byteIn 128 191 (drop 1 cs)"
    | "240 \<le> byte c" "byte c \<le> 244" "k = 3"
        "byteIn (if byte c = 240 then 144 else 128) (if byte c = 244 then 143 else 191) cs" "byteIn 128 191 (drop 1 cs)"
        "byteIn 128 191 (drop 2 cs)"
    using assms by (auto simp: runeLen_def Let_def split: if_splits)
  then have "k \<le> length cs \<and> runeLen (c # take k cs @ t) = Suc k"
  proof cases
    case 1
    then show ?thesis by (simp add: runeLen_def)
  next
    case 2
    then obtain x xs where "cs = x # xs" by (auto simp: byteIn_ex)
    with 2 show ?thesis by (simp add: runeLen_def)
  next
    case 3
    then obtain x y xs where "cs = x # y # xs" by (auto simp: byteIn_ex)
    with 3 show ?thesis by (simp add: runeLen_def)
  next
    case 4
    then obtain x y z xs where "cs = x # y # z # xs"
      by (auto simp: byteIn_ex numeral_2_eq_2 drop_Suc)
    with 4 show ?thesis by (simp add: runeLen_def)
  qed
  then show "k \<le> length cs" and "runeLen (c # take k cs @ t) = Suc k" by simp_all
qed

lemma hexVal_hexDigit: "n < 16 \<Longrightarrow> hexVal (hexDigit n) = Some n"
  by (auto simp: hexVal_def hexDigit_def)

lemma hex_split:
  assumes "r < (65536 :: nat)"
  shows "4096 * (r div 4096 mod 16) + 256 * (r div 256 mod 16) + 16 * (r div 16 mod 16) + r mod 16 = r"
proof -
  define a b c where d: "a = r div 16" "b = r div 256" "c = r div 4096"
  have "c mod 16 = c" using assms by (simp add: d)
  moreover have "b = a div 16" "c = b div 16" by (simp_all add: d flip: div_mult2_eq)
  then have "r = 16 * a + r mod 16" "a = 16 * b + a mod 16" "b = 16 * c + b mod 16" by (simp_all add: d)
  ultimately have "4096 * (c mod 16) + 256 * (b mod 16) + 16 * (a mod 16) + r mod 16 = r" by linarith
  then show ?thesis by (simp only: d)
qed

lemma escapeU_step:
  assumes "r < 65536" and "\<not> (55296 \<le> r \<and> r < 57344)"
  shows "\<exists>o1 os. escapeU r = o1 # os \<and> (\<forall>t. strStep o1 (os @ t) = StrChunk (encodeRune r) (length os))"
  using assms hex_split [OF assms(1)]
  by (auto simp: strStep_def escapeU_def unescapeU_def hex4_def hexVal_hexDigit)

lemma char_of_byte: "byte c = n \<Longrightarrow> char_of n = c"
  by auto

lemma shortEscape_step: "shortEscape c = Some e \<Longrightarrow> strStep BS (e # t) = StrChunk [c] 1"
  by (auto simp: shortEscape_def strStep_def unescape_def dest: char_of_byte split: if_splits)

text \<open>
  One step of the encoder and the step of the decoder on what it wrote: the rune, or the replacement
  character for a byte that begins none.
\<close>

definition runeOut :: "char \<Rightarrow> string \<Rightarrow> string" where
  "runeOut c cs = (if runeLen (c # cs) = 0 then replacementChar else take (runeLen (c # cs)) (c # cs))"

lemma quoteASCII_step:
  assumes "byte c < 128"
  shows "\<exists>o1 os. quoteASCII c = o1 # os \<and> (\<forall>t. strStep o1 (os @ t) = StrChunk [c] (length os))"
proof (cases "shortEscape c")
  case (Some e)
  then show ?thesis using shortEscape_step [OF Some] by (simp add: quoteASCII_def)
next
  case None
  show ?thesis
  proof (cases "byte c < 32 \<or> c = CHR ''<'' \<or> c = CHR ''>'' \<or> c = CHR ''&''")
    case True
    have "encodeRune (byte c) = [c]" using assms by (simp add: encodeRune_def)
    then show ?thesis
      using True None assms escapeU_step [of "byte c"] by (simp add: quoteASCII_def)
  next
    case False
    have "c \<noteq> DQ" "c \<noteq> BS" using None by (auto simp: shortEscape_def)
    then show ?thesis using False None assms by (simp add: quoteASCII_def strStep_def runeLen_def)
  qed
qed

lemma quoteStep_step:
  "\<exists>o1 os. fst (quoteStep c cs) = o1 # os \<and> (\<forall>t. strStep o1 (os @ t) = StrChunk (runeOut c cs) (length os)) \<and>
     snd (quoteStep c cs) = runeLen (c # cs) - 1"
proof (cases "byte c < 128")
  case True
  then have "runeLen (c # cs) = 1" by (simp add: runeLen_def)
  then show ?thesis using quoteASCII_step [OF True] True by (simp add: quoteStep_def runeOut_def)
next
  case False
  show ?thesis
  proof (cases "runeLen (c # cs)")
    case 0
    have "encodeRune 65533 = replacementChar" by (simp add: encodeRune_def replacementChar_def)
    then show ?thesis using False 0 escapeU_step [of 65533] by (simp add: quoteStep_def runeOut_def)
  next
    case (Suc k)
    have copy: "strStep c (take k cs @ t) = StrChunk (c # take k cs) (length (take k cs))" for t
      using False Suc runeLen_prefix [OF Suc] by (auto simp: strStep_def split: nat.split)
    show ?thesis
      using False Suc copy escapeU_step [of 8232] escapeU_step [of 8233]
      by (auto simp: quoteStep_def runeOut_def)
  qed
qed

lemma toValidUTF8_step: "toValidUTF8 (c # cs) = runeOut c cs @ toValidUTF8 (drop (runeLen (c # cs) - 1) cs)"
  by (simp add: runeOut_def split: nat.split)

lemma jstring_quoteBody: "jstring (quoteBody s @ DQ # t) = Some (toValidUTF8 s, t)"
proof (induction s rule: quoteBody.induct)
  case 1
  then show ?case by (simp add: strStep_def)
next
  case (2 c cs)
  obtain o1 os where q: "fst (quoteStep c cs) = o1 # os" "snd (quoteStep c cs) = runeLen (c # cs) - 1"
    "\<And>t. strStep o1 (os @ t) = StrChunk (runeOut c cs) (length os)"
    using quoteStep_step by blast
  then show ?case using 2 by (simp add: toValidUTF8_step del: toValidUTF8.simps(2))
qed

lemma toValidUTF8_ascii: "\<forall>c \<in> set s. byte c < 128 \<Longrightarrow> toValidUTF8 s = s"
proof (induction s rule: toValidUTF8.induct)
  case (2 c cs)
  have "runeLen (c # cs) = Suc 0" using "2.prems" by (simp add: runeLen_def)
  with 2 show ?case by simp
qed simp

declare toValidUTF8.simps(2) [simp del]

section \<open>An object read back\<close>

lemma showNat_hd: "0 < n \<Longrightarrow> hd (showNat n) \<noteq> CHR ''0''"
proof (induction n rule: showNat.induct)
  case (1 n)
  show ?case
  proof (cases "n < 10")
    case True
    then have "byte (digitChar n) \<noteq> byte CHR ''0''" using "1.prems" by (simp add: of_char_digitChar)
    then show ?thesis using True by (subst showNat.simps) auto
  next
    case False
    then show ?thesis using 1 by (subst showNat.simps) simp
  qed
qed

lemma digitChar_zero: "digitChar 0 = CHR ''0''"
  by code_simp

lemma jint_showNat:
  assumes "\<not> isDigit c"
  shows "jint (showNat n @ c # t) = Some (showNat n, c # t)"
proof (cases "n = 0")
  case True
  then have "showNat n = ''0''" by (subst showNat.simps) (simp add: digitChar_zero)
  then show ?thesis by (simp add: jint_def)
next
  case False
  obtain x xs where s: "showNat n = x # xs" by (cases "showNat n") auto
  have "x \<noteq> CHR ''0''" using showNat_hd [of n] False s by simp
  moreover have d: "\<forall>y \<in> set (showNat n). isDigit y" using showNat_no_sign by blast
  then have "takeWhile isDigit (showNat n @ c # t) = showNat n" "dropWhile isDigit (showNat n @ c # t) = c # t"
    using assms by (simp_all add: takeWhile_append dropWhile_append)
  ultimately show ?thesis using s by (simp add: jint_def)
qed

lemma jnumber_showInt:
  assumes "c = CHR '','' \<or> c = CHR ''}''"
  shows "jnumber (showInt i @ c # t) = Some (showInt i, c # t)"
proof -
  have nd: "\<not> isDigit c" using assms by (auto simp: isDigit_def)
  have tail: "jfrac (c # t) = Some ([], c # t)" "jexp (c # t) = Some ([], c # t)"
    using assms by (auto simp: jfrac_def jexp_def)
  have sign: "jsign (showNat n @ c # t) = ([], showNat n @ c # t)" for n
    using hd_showNat_sign [of n] by (cases "showNat n") (auto simp: jsign_def)
  show ?thesis
    by (simp add: showInt_def jnumber_def sign jint_showNat [OF nd] tail) (simp add: jsign_def jint_showNat [OF nd] tail)
qed

text \<open>\<open>vt\<close> is the text of the value \<open>vj\<close> inside an object.\<close>

definition reads :: "string \<Rightarrow> json \<Rightarrow> bool" where
  "reads vt vj \<longleftrightarrow> (\<forall>n d c t. c = CHR '','' \<or> c = CHR ''}'' \<longrightarrow> jvalue (Suc n) d (vt @ c # t) = Some (vj, c # t))"

lemma isSpace_simps [simp]:
  "\<not> isSpace DQ" "\<not> isSpace CHR '',''" "\<not> isSpace CHR '':''" "\<not> isSpace CHR ''}''" "\<not> isSpace CHR ''{''" "\<not> isSpace CHR ''-''"
  by (simp_all add: isSpace_def)

lemma isSpace_digit: "isDigit c \<Longrightarrow> \<not> isSpace c"
  by (auto simp: isSpace_def isDigit_def)

lemma reads_string: "reads (quote s) (JStr (toValidUTF8 s))"
  by (simp add: reads_def quote_def jstring_quoteBody)

lemma reads_int: "reads (showInt i) (JNum (showInt i))"
proof -
  obtain x xs where s: "showInt i = x # xs" and x: "x = CHR ''-'' \<or> isDigit x"
  proof (cases "i < 0")
    case True
    then show thesis using that by (simp add: showInt_def)
  next
    case False
    then show thesis
      using that showNat_no_sign [of "hd (showNat (nat i))" "nat i"] by (cases "showNat (nat i)") (auto simp: showInt_def)
  qed
  have ne: "x \<noteq> DQ" "x \<noteq> CHR ''{''" "x \<noteq> CHR ''[''" "\<not> isSpace x"
    using x isSpace_digit by (auto simp: isDigit_def)
  show ?thesis using jnumber_showInt [of _ i] s x ne by (auto simp: reads_def)
qed

lemma jmembers_member:
  assumes "reads v vj"
  shows "jmembers (Suc (Suc n)) d (quote k @ CHR '':'' # v @ CHR ''}'' # t) = Some ([(toValidUTF8 k, vj)], t)"
    and "jmembers (Suc (Suc n)) d (quote k @ CHR '':'' # v @ CHR '','' # t) =
      map_option (apfst (Cons (toValidUTF8 k, vj))) (jmembers (Suc n) d t)"
proof -
  have "jvalue (Suc n) d (v @ CHR '','' # t) = Some (vj, CHR '','' # t)" "jvalue (Suc n) d (v @ CHR ''}'' # t) = Some (vj, CHR ''}'' # t)"
    using assms unfolding reads_def by blast+
  then show "jmembers (Suc (Suc n)) d (quote k @ CHR '':'' # v @ CHR ''}'' # t) = Some ([(toValidUTF8 k, vj)], t)"
    and "jmembers (Suc (Suc n)) d (quote k @ CHR '':'' # v @ CHR '','' # t) =
      map_option (apfst (Cons (toValidUTF8 k, vj))) (jmembers (Suc n) d t)"
    by (subst jmembers.simps, simp add: quote_def jstring_quoteBody del: jvalue.simps jmembers.simps)+
qed

lemma jmembers_members:
  assumes "ms \<noteq> []" and "list_all2 (\<lambda>(k, vt) (k', vj). k' = toValidUTF8 k \<and> reads vt vj) ms js" and "length ms < n"
  shows "jmembers n d (members ms @ CHR ''}'' # t) = Some (js, t)"
  using assms
proof (induction ms arbitrary: js n rule: members.induct)
  case (2 k v)
  then obtain vj where js: "js = [(toValidUTF8 k, vj)]" and r: "reads v vj" by (auto simp: list_all2_Cons1)
  obtain m where n: "n = Suc (Suc m)" using "2.prems"(3) by (auto simp: less_iff_Suc_add)
  show ?case using jmembers_member(1) [OF r] by (simp add: js n del: jmembers.simps)
next
  case (3 k v kv ms)
  then obtain vj js' where js: "js = (toValidUTF8 k, vj) # js'" and r: "reads v vj"
    and rest: "list_all2 (\<lambda>(k, vt) (k', vj). k' = toValidUTF8 k \<and> reads vt vj) (kv # ms) js'"
    by (auto simp: list_all2_Cons1)
  obtain m where n: "n = Suc (Suc m)" using "3.prems"(3) by (auto simp: less_iff_Suc_add)
  have "jmembers (Suc m) d (members (kv # ms) @ CHR ''}'' # t) = Some (js', t)"
    using "3.IH" [OF _ rest, of "Suc m"] "3.prems"(3) n by simp
  then show ?case using jmembers_member(2) [OF r] by (simp add: js n del: jmembers.simps)
qed simp

lemma members_length: "length ms \<le> length (members ms)"
  by (induction ms rule: members.induct) (simp_all add: quote_def)

lemma jsonValue_object:
  assumes "ms \<noteq> []" and "list_all2 (\<lambda>(k, vt) (k', vj). k' = toValidUTF8 k \<and> reads vt vj) ms js"
  shows "jsonValue (CHR ''{'' # members ms @ CHR ''}'' # t) = Some (JObj js)"
proof -
  let ?s = "members ms @ CHR ''}'' # t" and ?n = "2 * length (CHR ''{'' # members ms @ CHR ''}'' # t)"
  have hd: "take 1 (skipSpace ?s) \<noteq> ''}''" using assms(1) by (cases ms rule: members.cases) (auto simp: quote_def)
  have "jmembers ?n (maxNestingDepth - 1) ?s = Some (js, t)"
    by (rule jmembers_members [OF assms]) (use members_length [of ms] in simp)
  then show ?thesis using hd by (simp add: jsonValue_def maxNestingDepth_def del: jmembers.simps)
qed

section \<open>Requests and responses over the wire\<close>

lemma names_ascii [simp]: "toValidUTF8 ''leaseName'' = ''leaseName''" "toValidUTF8 ''node'' = ''node''"
  "toValidUTF8 ''gpuID'' = ''gpuID''" "toValidUTF8 ''gpuModel'' = ''gpuModel''" "toValidUTF8 ''state'' = ''state''"
  by (simp_all add: toValidUTF8_ascii)

text \<open>Between strings of ASCII, only case is disregarded.\<close>

definition upper :: "char \<Rightarrow> nat" where
  "upper c = (if 97 \<le> byte c \<and> byte c \<le> 122 then byte c - 32 else byte c)"

lemma foldKey_ascii: "\<forall>c \<in> set s. byte c < 128 \<Longrightarrow> map byte (foldKey s) = map upper s"
proof (induction s rule: foldKey.induct)
  case (2 c cs)
  have "take 2 (c # cs) \<noteq> encodeRune 383" "take 3 (c # cs) \<noteq> encodeRune 8490"
    using "2.prems" by (auto simp: encodeRune_def)
  with 2 show ?case by (auto simp: upper_def)
qed simp

lemma isField_ascii:
  assumes "\<forall>c \<in> set key. byte c < 128" and "\<forall>c \<in> set name. byte c < 128"
  shows "isField name key \<longleftrightarrow> map upper key = map upper name"
proof -
  have "inj byte" by (metis injI char_of_char)
  then have "foldKey key = foldKey name \<longleftrightarrow> map byte (foldKey key) = map byte (foldKey name)"
    by (simp add: inj_map_eq_map)
  then show ?thesis using foldKey_ascii [OF assms(1)] foldKey_ascii [OF assms(2)] by (auto simp: isField_def)
qed

lemma activate_read:
  "jsonValue (encodeActivate r) = Some (JObj
     [(''leaseName'', JStr (toValidUTF8 (ar_LeaseName r))), (''node'', JStr (toValidUTF8 (ar_Node r))),
      (''gpuID'', JNum (showInt (ar_GPUID r))), (''gpuModel'', JStr (toValidUTF8 (ar_GPUModel r)))])"
  unfolding encodeActivate_def by (rule jsonValue_object) (simp_all add: reads_string reads_int)

lemma state_read:
  "jsonValue (encodeState s) = Some (JObj
     [(''state'', JStr (toValidUTF8 (sr_State s))), (''leaseName'', JStr (toValidUTF8 (sr_LeaseName s))),
      (''node'', JStr (toValidUTF8 (sr_Node s))), (''gpuID'', JNum (showInt (sr_GPUID s)))])"
  unfolding encodeState_def by (rule jsonValue_object) (simp_all add: reads_string reads_int)

text \<open>The text of a body. A plain text is not read as JSON by either program.\<close>

fun bodyText :: "HttpBody \<Rightarrow> string" where
  "bodyText (JsonActivate a) = encodeActivate a"
| "bodyText (JsonState s) = encodeState s"
| "bodyText _ = []"

definition validUTF8 :: "string \<Rightarrow> bool" where
  "validUTF8 s \<longleftrightarrow> toValidUTF8 s = s"

fun wireBody :: "HttpBody \<Rightarrow> bool" where
  "wireBody NoBody = True"
| "wireBody (JsonActivate a) =
     (validUTF8 (ar_LeaseName a) \<and> validUTF8 (ar_Node a) \<and> validUTF8 (ar_GPUModel a) \<and> in_int32 (ar_GPUID a))"
| "wireBody (JsonState s) =
     (validUTF8 (sr_State s) \<and> validUTF8 (sr_LeaseName s) \<and> validUTF8 (sr_Node s) \<and> in_int32 (sr_GPUID s))"
| "wireBody (Text m) = False"

lemma parseInt_int32: "in_int32 i \<Longrightarrow> parseInt 32 (showInt i) = Some i"
  by (rule parseInt_showInt) (simp_all add: in_int32_def)

lemmas wire_defs = decodeActivateText_def decodeStateText_def intoStruct_def putActivate_def putState_def store_def isField_ascii
  upper_def validUTF8_def parseInt_int32

text \<open>
  C18: nothing is lost on the wire. For every body that one program sends to the other, with strings in
  UTF-8 and a GPU number of 32 bits, decoding the bytes that \<open>encoding/json\<close> writes for it, into the
  request or into the response struct, gives what decoding the body itself gives; an empty body is refused.
\<close>

theorem json_wire_refines:
  assumes "wireBody b"
  shows "decodeActivateText (bodyText b) = decodeActivate b \<and> decodeStateText (bodyText b) = decodeState b"
proof (cases b)
  case NoBody
  then show ?thesis by (simp add: decodeActivateText_def decodeStateText_def jsonValue_def intoStruct_def)
next
  case (JsonActivate a)
  then show ?thesis using assms by (simp add: wire_defs activate_read)
next
  case (JsonState s)
  then show ?thesis using assms by (simp add: wire_defs state_read)
next
  case (Text m)
  then show ?thesis using assms by simp
qed

theorem json_wire_refines_witness:
  "let a = \<lparr> ar_LeaseName = ''n1-gpu-0'', ar_Node = ''n1'', ar_GPUID = 0, ar_GPUModel = ''A100'' \<rparr> in
     wireBody (JsonActivate a) \<and> decodeActivateText (encodeActivate a) = Some a"
proof -
  let ?a = "\<lparr> ar_LeaseName = ''n1-gpu-0'', ar_Node = ''n1'', ar_GPUID = 0, ar_GPUModel = ''A100'' \<rparr>"
  have w: "wireBody (JsonActivate ?a)" by (simp add: validUTF8_def toValidUTF8_ascii in_int32_def)
  show ?thesis using w json_wire_refines [OF w] by simp
qed

section \<open>The fuel is enough\<close>

lemma skipSpace_Cons: "skipSpace s = c # cs \<Longrightarrow> length cs < length s"
  by (metis length_Cons length_dropWhile_le less_eq_Suc_le)

lemma jstring_shrinks: "jstring s = Some (x, r) \<Longrightarrow> length r < length s"
proof (induction s arbitrary: x rule: jstring.induct)
  case (2 c cs)
  then show ?case by (fastforce split: StrStep.splits dest: less_le_trans)
qed simp

lemma jdigits_shrinks: "jdigits pre s = Some (x, r) \<Longrightarrow> length r \<le> length s"
  by (auto simp: jdigits_def length_dropWhile_le split: if_splits)

lemma jliteral_shrinks: "jliteral s = Some (x, r) \<Longrightarrow> length r < length s"
  by (cases s) (auto simp: jliteral_def split: if_splits)

lemma number_shrinks:
  assumes j: "jnumber s = Some (x, r)"
  shows "length r < length s"
proof -
  obtain sg s1 i s2 fr s3 ex where s: "jsign s = (sg, s1)" "jint s1 = Some (i, s2)" "jfrac s2 = Some (fr, s3)" "jexp s3 = Some (ex, r)"
    using j by (auto simp: jnumber_def split: prod.splits option.splits)
  have "length s2 < length s1"
    using s(2) by (cases s1) (auto simp: jint_def length_dropWhile_le less_Suc_eq_le split: if_splits)
  moreover have "length s1 \<le> length s" using s(1) by (auto simp: jsign_def split: if_splits)
  moreover have "length s3 \<le> length s2"
    using s(3) by (auto simp: jfrac_def dest!: jdigits_shrinks split: if_splits)
  moreover have "length r \<le> length s3"
    using s(4) by (auto simp: jexp_def Let_def dest!: jdigits_shrinks split: if_splits)
  ultimately show ?thesis by linarith
qed

text \<open>A parser that consumes at least a byte whenever it succeeds.\<close>

definition shrinks :: "(nat \<Rightarrow> string \<Rightarrow> ('a \<times> string) option) \<Rightarrow> bool" where
  "shrinks p \<longleftrightarrow> (\<forall>d s x r. p d s = Some (x, r) \<longrightarrow> length r < length s)"

lemma shrinksD: "shrinks p \<Longrightarrow> p d s = Some (x, r) \<Longrightarrow> length r < length s"
  by (simp add: shrinks_def)

lemma jvalue_shrinks_step:
  assumes es: "shrinks (jelems n)"
    and ms: "shrinks (jmembers n)"
    and j: "jvalue (Suc n) d s = Some (v, r)"
  shows "length r < length s"
proof -
  obtain c cs where s: "skipSpace s = c # cs" using j by (auto split: list.splits)
  have d: "length (drop 1 (skipSpace cs)) \<le> length cs" by (metis diff_le_self length_drop length_dropWhile_le le_trans)
  consider (str) x where "jstring cs = Some (x, r)" | (empty) "r = drop 1 (skipSpace cs)"
    | (obj) x where "jmembers n (d - 1) cs = Some (x, r)" | (arr) x where "jelems n (d - 1) cs = Some (x, r)"
    | (num) x where "jnumber (c # cs) = Some (x, r)" | (lit) "jliteral (c # cs) = Some (v, r)"
    using j s by (auto split: if_splits)
  then have "length r \<le> length cs"
  proof cases
    case str
    then show ?thesis by (auto dest: jstring_shrinks)
  next
    case empty
    then show ?thesis using d by simp
  next
    case obj
    then show ?thesis by (auto dest: shrinksD [OF ms])
  next
    case arr
    then show ?thesis by (auto dest: shrinksD [OF es])
  next
    case num
    then show ?thesis by (auto dest: number_shrinks)
  next
    case lit
    then show ?thesis by (auto dest: jliteral_shrinks)
  qed
  then show ?thesis using skipSpace_Cons [OF s] by simp
qed

lemma jelems_shrinks_step:
  assumes v: "shrinks (jvalue n)"
    and es: "shrinks (jelems n)"
    and j: "jelems (Suc n) d s = Some (x, r)"
  shows "length r < length s"
proof -
  obtain y r1 c cs where y: "jvalue n d s = Some (y, r1)" and r1: "skipSpace r1 = c # cs"
    and "r = cs \<or> (\<exists>z. jelems n d cs = Some (z, r))"
    using j by (auto split: option.splits list.splits if_splits)
  then have "length r \<le> length cs" by (auto dest: shrinksD [OF es])
  then show ?thesis using shrinksD [OF v y] skipSpace_Cons [OF r1] by simp
qed

lemma jmembers_shrinks_step:
  assumes v: "shrinks (jvalue n)"
    and ms: "shrinks (jmembers n)"
    and j: "jmembers (Suc n) d s = Some (x, r)"
  shows "length r < length s"
proof -
  obtain k r1 y r2 c cs where k: "jstring (drop 1 (skipSpace s)) = Some (k, r1)"
    and y: "jvalue n d (drop 1 (skipSpace r1)) = Some (y, r2)" and r2: "skipSpace r2 = c # cs"
    and "r = cs \<or> (\<exists>z. jmembers n d cs = Some (z, r))"
    using j by (auto split: option.splits list.splits if_splits)
  then have "length r \<le> length cs" by (auto dest: shrinksD [OF ms])
  moreover have "length (drop 1 (skipSpace t)) \<le> length t" for t
    by (metis diff_le_self length_drop length_dropWhile_le le_trans)
  ultimately show ?thesis
    using jstring_shrinks [OF k] shrinksD [OF v y] skipSpace_Cons [OF r2] by (meson le_less_trans less_le_trans less_imp_le)
qed

lemma parsers_shrink: "shrinks (jvalue n) \<and> shrinks (jelems n) \<and> shrinks (jmembers n)"
proof (induction n)
  case 0
  show ?case by (simp add: shrinks_def)
next
  case (Suc n)
  then have v: "shrinks (jvalue n)" and e: "shrinks (jelems n)" and m: "shrinks (jmembers n)" by simp_all
  have "shrinks (jvalue (Suc n))" using jvalue_shrinks_step [OF e m] unfolding shrinks_def by blast
  moreover have "shrinks (jelems (Suc n))" using jelems_shrinks_step [OF v e] unfolding shrinks_def by blast
  moreover have "shrinks (jmembers (Suc n))" using jmembers_shrinks_step [OF v m] unfolding shrinks_def by blast
  ultimately show ?case by blast
qed

lemmas jvalue_shrinks = shrinksD [OF conjunct1 [OF parsers_shrink]]

lemma fuel_step:
  "(2 * length s + 1 \<le> n \<longrightarrow> jvalue (Suc n) d s = jvalue n d s) \<and>
   (2 * length s + 2 \<le> n \<longrightarrow> jelems (Suc n) d s = jelems n d s) \<and>
   (2 * length s + 2 \<le> n \<longrightarrow> jmembers (Suc n) d s = jmembers n d s)"
proof (induction n arbitrary: d s)
  case (Suc n)
  have "jvalue (Suc (Suc n)) d s = jvalue (Suc n) d s" if n: "2 * length s + 1 \<le> Suc n"
  proof -
    have "jelems (Suc n) (d - 1) cs = jelems n (d - 1) cs" "jmembers (Suc n) (d - 1) cs = jmembers n (d - 1) cs"
      if "skipSpace s = c # cs" for c cs
      using Suc.IH skipSpace_Cons [OF that] n by simp_all
    then show ?thesis
      by (cases "skipSpace s") (simp_all only: jvalue.simps(2) [of "Suc n"] jvalue.simps(2) [of n] list.case)
  qed
  moreover have "jelems (Suc (Suc n)) d s = jelems (Suc n) d s" if n: "2 * length s + 2 \<le> Suc n"
  proof -
    have "jvalue (Suc n) d s = jvalue n d s" using Suc.IH n by simp
    moreover have "jelems (Suc n) d cs = jelems n d cs" if "jvalue n d s = Some (v, r)" "skipSpace r = c # cs" for v r c cs
      using Suc.IH jvalue_shrinks [OF that(1)] skipSpace_Cons [OF that(2)] n by simp
    ultimately show ?thesis
      by (simp only: jelems.simps(2) [of "Suc n"] jelems.simps(2) [of n])
        (auto simp del: jelems.simps jvalue.simps dropWhile_eq_Nil_conv cong: option.case_cong list.case_cong split: option.split list.split)
  qed
  moreover have "jmembers (Suc (Suc n)) d s = jmembers (Suc n) d s" if n: "2 * length s + 2 \<le> Suc n"
  proof -
    have len: "length (drop 1 (skipSpace t)) \<le> length t" for t
      by (metis diff_le_self length_drop length_dropWhile_le le_trans)
    have v: "length (drop 1 (skipSpace r1)) < length s"
      if "jstring (drop 1 (skipSpace s)) = Some (k, r1)" for k r1
      using jstring_shrinks [OF that] len [of s] len [of r1] by linarith
    have "jvalue (Suc n) d (drop 1 (skipSpace r1)) = jvalue n d (drop 1 (skipSpace r1))"
      if "jstring (drop 1 (skipSpace s)) = Some (k, r1)" for k r1
      using Suc.IH v [OF that] n by simp
    moreover have "jmembers (Suc n) d cs = jmembers n d cs"
      if "jstring (drop 1 (skipSpace s)) = Some (k, r1)" "jvalue n d (drop 1 (skipSpace r1)) = Some (y, r2)"
        "skipSpace r2 = c # cs" for k r1 y r2 c cs
      using Suc.IH v [OF that(1)] jvalue_shrinks [OF that(2)] skipSpace_Cons [OF that(3)] n by simp
    ultimately show ?thesis
      by (simp only: jmembers.simps(2) [of "Suc n"] jmembers.simps(2) [of n])
        (auto simp del: jmembers.simps jvalue.simps dropWhile_eq_Nil_conv cong: option.case_cong list.case_cong split: option.split list.split)
  qed
  ultimately show ?case by blast
qed simp

lemma jvalue_fuel: "jvalue (2 * length s + 1 + n) d s = jvalue (2 * length s + 1) d s"
  using fuel_step by (induction n) (simp_all del: jvalue.simps)

text \<open>So the bound in \<open>jsonValue\<close> never cuts a value short: more fuel reads the same.\<close>

lemma jsonValue_fuel: "2 * length s < n \<Longrightarrow> jsonValue s = map_option fst (jvalue n maxNestingDepth s)"
  using jvalue_fuel [of s "n - (2 * length s + 1)"] by (simp add: jsonValue_def del: jvalue.simps)

end
