(* ===== verification/Spec2Isabelle.thy ===== *)
theory Spec2Isabelle
  imports Components Manager EndToEnd TestUtils Registration DeadlineWorld Rbac Flags Json
begin

text \<open>
  \<^bold>\<open>gpu-lease\<close> hands single GPUs of a cluster's nodes to running pods. A \<open>GPULease\<close> object named
  after a (node, GPU) pair is the right to use that GPU; two reconcilers and a pod-side state
  machine move leases and pods through their life.

  \<^bold>\<open>Parts of the program and the theories that model them\<close>

  \<^item> \<open>api/v1alpha1/names.go\<close>: \<open>Names\<close>. Label and annotation keys, the derived name
    \<open>LeaseName\<close>, and \<open>ParseDeploymentSettings\<close>; Go's \<open>ParseInt\<close>, \<open>ParseDuration\<close>, \<open>%d\<close>,
    \<open>sort.SliceStable\<close> and error wrapping are in \<open>GoStd\<close>.
  \<^item> \<open>api/v1alpha1/gpulease_types.go\<close>, \<open>internal/kueue/v1beta2\<close>: \<open>Types\<close>, one record per struct.
  \<^item> \<open>zz_generated.deepcopy.go\<close> of both API packages: \<open>DeepCopy\<close>, with the structs once more as they
    lie in memory, an address for every pointer, slice and map; the store and the contract of a deep
    copy (the locales \<open>typed\<close> and \<open>deep_copy\<close>, closed under structs, pointers, slices and maps) are in
    \<open>GoHeap\<close>.
  \<^item> \<open>groupversion_info.go\<close> of both, their \<open>init\<close> functions, \<open>internal/controller/metrics.go\<close> and
    \<open>init\<close> of \<open>cmd/manager/main.go\<close>: \<open>Registration\<close>.
  \<^item> \<open>internal/controller/inventory\<close>: \<open>Inventory\<close>; the Go interface is a record of methods, its
    documented contract the locale \<open>gpu_inventory\<close>, interpreted by the client-backed
    implementation.
  \<^item> \<open>internal/controller/pods.go\<close>, \<open>kueue.go\<close>: \<open>Pods\<close>, \<open>KueueHelpers\<close>.
  \<^item> \<open>internal/controller/podclient\<close>: \<open>Podclient\<close>; the contract of the interface is the locale
    \<open>lease_endpoint\<close>, interpreted by the \<open>FakeClient\<close> and, in \<open>PodServer\<close>, by the HTTP client
    together with the pod's HTTP server over a network.
  \<^item> \<open>internal/controller/gpulease_controller.go\<close>: \<open>LeaseReconciler\<close>, one definition per method,
    \<open>leaseReconcile\<close> being \<open>Reconcile\<close>.
  \<^item> \<open>internal/controller/warmpool_controller.go\<close>: \<open>WarmPool\<close>, likewise, \<open>warmPoolReconcile\<close>.
  \<^item> \<open>SetupWithManager\<close> of both and \<open>cmd/manager/main.go\<close>: \<open>Manager\<close>; its command line, with Go's
    \<open>flag\<close> package: \<open>Flags\<close>, where \<open>managerProcess\<close> is the whole of \<open>main\<close>.
  \<^item> \<open>internal/controller/rbac.go\<close> and the other \<open>+kubebuilder:rbac\<close> markers, with the role generated
    from them in \<open>config/rbac/role.yaml\<close>: \<open>Rbac\<close>.
  \<^item> The bodies that the pod client and the pod's server exchange, as bytes: \<open>Json\<close>, with
    \<open>encoding/json\<close> and UTF-8 as far as the two programs use them.
  \<^item> \<open>internal/workload/state.go\<close>: \<open>PodMachine\<close>; \<open>metrics.go\<close>: \<open>PodMetrics\<close>; \<open>demand.go\<close>:
    \<open>Demand\<close>; \<open>server.go\<close>: \<open>PodServer\<close>; \<open>cmd/workload/main.go\<close>: \<open>WorkloadMain\<close>.
  \<^item> \<open>test/utils/utils.go\<close>: \<open>TestUtils\<close>, over a record of operating-system calls.

  \<^bold>\<open>State and effects\<close>

  A Go function that talks to the cluster is a program (\<open>prog\<close> in \<open>Prelude\<close>): a function from
  the world to an error or a result and the new world. The world is a type variable; the
  controller-runtime client, the recorder, the clock, the metric vectors and the library helpers
  are records of functions over it (\<open>Env\<close>), so nothing is assumed of them in the definitions.
  Pointer arguments that the code mutates are returned values. Loops are recursive functions over
  the slice they range over; all are structural except decimal printing, \<open>ParseDuration\<close> and the
  scanners of \<open>Json\<close>, whose termination is proved. \<open>int32\<close> and durations are integers with the wrap-around written where a
  sum can overflow; the generation counter of the pod machine is a 64-bit word. Messages are kept
  as format string and arguments.

  \<^bold>\<open>The environment\<close>

  \<open>ApiServer\<close> states what is relied on of code outside the repository: \<open>k8s_lib\<close> (the apimachinery
  helpers) and \<open>lease_server\<close>, a rely-guarantee contract: before every write other actors may
  take any steps of the lease protocol \<open>lease_step\<close> (\<open>LeaseProtocol\<close>), reads may be stale as long
  as a version identifies its content, updates carry the version they were based on, and a call
  that returns an error may have taken effect. The server's \<open>hist\<close> maps name and version to the object
  stored under them, and \<open>log\<close> says how the states it went through appear there (\<open>recorded\<close>:
  every stored object is in the history under its version). \<open>Etcd\<close> is an executable store with versions,
  finalizers, a status subresource and a fault schedule; it interprets every environment locale
  and is what the witnesses run on. \<open>HealthyCluster\<close> and \<open>HealthyPool\<close> add the contract of an
  environment in which calls succeed (\<open>healthy_env\<close>, \<open>healthy_pool\<close>) and a count of the leases
  created (\<open>lease_count\<close>), interpreted in \<open>EtcdHealthy\<close>. The network of \<open>PodServer\<close> may be down for a
  pod (\<open>nw_down\<close>) or lose its answers after the pod acted (\<open>nw_lost\<close>), as the client's timeout does;
  so an error of a call to a pod does not say that nothing happened.

  \<^bold>\<open>What is shown\<close>

  \<^item> Safety of the lease store: \<open>LeaseProtocol\<close> defines the abstract state machine of a lease, its
    invariant and its consequences (exclusive GPUs, no silent removal); \<open>LeaseSafety\<close> and
    \<open>PoolSafety\<close> show that every operation of the two reconcilers is a sequence of its steps, in
    the presence of the other actors; this theory puts both together over arbitrary sequences of
    calls, and again for the reconcilers as the manager wires them.
  \<^item> The two programs together: \<open>PodWorld\<close> puts a cluster and a network of pod servers into one
    world and moves the GPULease reconciler there with its HTTP client; \<open>EndToEnd\<close> follows a lease
    from its creation through Kueue's admission to a pod whose state machine is hot for it, and
    back after its deletion (the steps in \<open>HealthyCluster\<close> and \<open>Journey\<close>).
  \<^item> Progress in a healthy cluster: failing with clean-up, deletion whatever the pod answers,
    garbage collection of failed leases; and polling, promotion and requeue bounds. \<open>Deadline\<close> shows that
    the loop of reconciles ends: every lease is Bound or Failed after a bounded number of them, by a
    measure that counts the waits left before the deadlines and the times Kueue still restarts the
    admission window (\<open>deadline_env\<close>, interpreted in \<open>DeadlineStore\<close> on the reference cluster with a Kueue
    whose quota flaps, and in \<open>DeadlineWorld\<close> on the cluster together with its pods).
  \<^item> Memory and start-up: copies of API objects share nothing with their originals, which is why the
    other theories may treat objects as values; initialisation registers every type and metric.
  \<^item> Error paths: a failing Workload deletion blocks the release; \<open>main\<close>, with every exit of its own as
    a branch (\<open>managerMain\<close>), starts the manager complete or not at all.
  \<^item> The pod: timers act only for the activation or release that armed them, in every
    interleaving of critical sections, hooks and timers; the life cycle cannot get stuck; the gauges
    follow the state when hooks are in order; the warm-up takes the configured time, also with timers of
    cancelled activations still armed; the HTTP client and server implement the pod-client contract, and
    the bytes they exchange lose nothing of it.
  \<^item> Configuration: the role grants the manager every call its code can make, so the theorems about an
    unrestricted client are about the deployed one too, and all that it does not use is listed; every
    value of the flags can be given on the command line and is read back.
  \<^item> Components (\<open>Components\<close>): inventory exactness, candidate orders, the target, orphan rule,
    Workload demand, name injectivity, settings bounds and round trip, per-node counts (the candidate
    orders and the counts as lemmas).
  \<^item> Where the code does not do what it means to: the last section, the stale gauge in
    \<open>PodMetrics\<close>, the misreported conflict in \<open>PodServer\<close>, and in \<open>EndToEnd\<close> the deletion of one
    lease that stops a pod hot for another, and the unreachable pod that stays hot on a freed GPU.

  \<^bold>\<open>Bounds\<close>

  The theorems on timers assume fewer than \<open>2 ^ 64\<close> generation bumps, after which the code's own
  argument fails too: a timer could outlive a full turn of the counter. Fuel appears in two places:
  \<open>workqueue\<close>, the loop of reconciles, which has no end of its own, for which
  \<open>lease_decided_in_time\<close> gives the number of rounds that is enough, one admission window for every
  restart Kueue has left (a Kueue that flaps for ever keeps a lease waiting for ever); and \<open>jvalue\<close>, the recursive JSON
  reader, for which twice the length of the input and one is enough (\<open>jsonValue_fuel\<close>). The nesting
  bound of 10000 is the library's.

  \<^bold>\<open>Not modelled\<close>

  Logging is left out. Sockets, TLS and process signals are
  the library's; their outcomes are arguments. A request that reaches a pod after the client gave up on
  it is not modelled. The schemes, the metric registry and the deep copies of
  library structs are arguments with their documented behaviour as hypotheses (\<open>init_lib\<close>,
  \<open>machinery\<close>). \<open>float64\<close> parsing and arithmetic are arguments of
  \<open>Demand\<close> and \<open>WorkloadMain\<close>. The body of \<open>/metrics\<close> is the Prometheus library's. The client-go
  informer is the sequence of events it delivers. The tests
  themselves are not modelled, nor the scripts; of the manifests only the role and the manager's arguments
  (\<open>managerRole\<close>, \<open>deployedArgs\<close>), the rest being read by Kubernetes and Kueue alone.
\<close>

section \<open>Safety of the two reconcilers together\<close>

text \<open>Calls of the two reconcilers, in any order and on any objects.\<close>

datatype Call = LeaseCall string | PoolCall string string

fun runCall :: "'w GPULeaseReconciler \<Rightarrow> 'w WarmPoolReconciler \<Rightarrow> Call \<Rightarrow> 'w \<Rightarrow> 'w" where
  "runCall lr wp (LeaseCall n) w = snd (leaseReconcile lr n w)"
| "runCall lr wp (PoolCall ns n) w = snd (warmPoolReconcile wp ns n w)"

definition runCalls :: "'w GPULeaseReconciler \<Rightarrow> 'w WarmPoolReconciler \<Rightarrow> Call list \<Rightarrow> 'w \<Rightarrow> 'w" where
  "runCalls lr wp calls w = fold (runCall lr wp) calls w"

text \<open>The environment of both: one API server, the inventory, the libraries.\<close>

locale system_env = lease_env lr leases hist log + pool: pool_env wp leases hist log held
  for lr :: "'w GPULeaseReconciler" and wp :: "'w WarmPoolReconciler" and leases :: "'w \<Rightarrow> lstore"
    and hist :: "'w \<Rightarrow> lhist" and log :: "lhist \<Rightarrow> lstore \<Rightarrow> bool" and held :: "'w \<Rightarrow> string \<Rightarrow> int set"
begin

lemma runCalls_W: "W w (runCalls lr wp calls w)"
proof (induction calls arbitrary: w)
  case (Cons call calls)
  have "W w (runCall lr wp call w)"
    using pool.quietD [OF pool.quiet_warmPoolReconcile] by (cases call) (simp_all add: leaseReconcile_W)
  from W_trans [OF this Cons] show ?case by (simp add: runCalls_def)
qed (simp add: runCalls_def)

lemma runCalls_path:
  "lease_path (log (hist (runCalls lr wp calls w))) (leases w) (leases (runCalls lr wp calls w))"
  "hist w \<subseteq>\<^sub>m hist (runCalls lr wp calls w)"
  using runCalls_W [of w calls] by (simp_all add: W_def world_step_def)

lemmas runCalls_steps = lease_path_steps [OF runCalls_path(1)]

end

interpretation esys: system_env eLeaseReconciler eWarmPoolReconciler eLeases eHist recorded "heldIDs eClient"
  by (intro system_env.intro elr.lease_env_axioms ewp.pool_env_axioms)

text \<open>
  C1: mutual exclusion. Whatever calls of the two reconcilers are made, in whatever order, while
  other actors that keep to the lease protocol write to the API server in between, while reads
  are stale and calls fail: if the stored leases satisfied the invariant before, they satisfy it
  afterwards. In particular no two stored leases hold the same GPU of the same node, every lease
  is filed under the name of its (node, GPU) pair, and a lease that lacks the release finalizer
  has failed or is past its release.
\<close>

theorem gpu_mutual_exclusion:
  assumes "system_env lr wp leases hist log held" and "lease_inv (leases w)"
  shows "lease_inv (leases (runCalls lr wp calls w)) \<and>
    (\<forall>n m l k. leases (runCalls lr wp calls w) n = Some l \<longrightarrow> leases (runCalls lr wp calls w) m = Some k \<longrightarrow>
       leaseNode l = leaseNode k \<longrightarrow> leaseGPU l = leaseGPU k \<longrightarrow> n = m \<and> l = k)"
proof -
  have inv: "lease_inv (leases (runCalls lr wp calls w))"
    using lease_steps_inv [OF system_env.runCalls_steps [OF assms(1)] assms(2)] .
  then show ?thesis using lease_inv_exclusive [OF inv] by blast
qed

theorem gpu_mutual_exclusion_witness:
  "lease_inv (eLeases (runCalls eLeaseReconciler eWarmPoolReconciler [LeaseCall ''n1-gpu-0'', PoolCall ''ns'' ''app'']
     (exCluster [exLease 0 PhasePending])))"
  using gpu_mutual_exclusion [OF esys.system_env_axioms exCluster_invariant] by blast

text \<open>
  C2: the GPULease reconciler implements the lease protocol: one call of \<open>Reconcile\<close>, for any
  lease name and from any world, changes the stored leases only by a sequence of protocol
  steps: phases move along the edges of the state machine, the time stamps of Admitted and
  Bound are set when they must be, the finalizer is stripped only from a lease that is
  Releasing, and a deleted lease only becomes Releasing.
\<close>

theorem leaseReconcile_refines_protocol:
  assumes "lease_env r leases hist log"
  shows "lease_step\<^sup>*\<^sup>* (leases w) (leases (snd (leaseReconcile r n w)))"
  using assms by (rule lease_env.leaseReconcile_steps)

theorem leaseReconcile_refines_protocol_witness:
  "lease_step\<^sup>*\<^sup>* (eLeases (exCluster [exLease 0 PhasePending]))
     (eLeases (snd (leaseReconcile eLeaseReconciler ''n1-gpu-0'' (exCluster [exLease 0 PhasePending]))))"
  by (rule leaseReconcile_refines_protocol [OF elr.lease_env_axioms])

text \<open>
  C3: the WarmPool reconciler implements the lease protocol: it creates leases only for free
  (node, GPU) pairs under their derived name and with the finalizer, strips the finalizer only
  from a Failed lease, and otherwise only requests deletion.
\<close>

theorem warmPoolReconcile_refines_protocol:
  assumes "pool_env r leases hist log held"
  shows "lease_step\<^sup>*\<^sup>* (leases w) (leases (snd (warmPoolReconcile r ns n w)))"
  using assms by (rule pool_env.warmPoolReconcile_steps)

theorem warmPoolReconcile_refines_protocol_witness:
  "lease_step\<^sup>*\<^sup>* (eLeases (exCluster [exLease 0 PhasePending]))
     (eLeases (snd (warmPoolReconcile eWarmPoolReconciler ''ns'' ''app'' (exCluster [exLease 0 PhasePending]))))"
  by (rule warmPoolReconcile_refines_protocol [OF ewp.pool_env_axioms])

text \<open>
  C6: no GPU is freed silently. On an API server whose history keeps every version it stored
  (\<open>recorded\<close>, as etcd does): when a stored lease is no longer stored after some calls of the
  reconcilers, the history holds a version of that very object, with its UID, name and spec, that is
  Failed or Releasing, that is, its quota and its pod had been given back or its release was under
  way. If no version from before the calls was (as for a lease that is Bound, since phases do not go
  back), this one was written during the calls.
\<close>

theorem no_silent_removal:
  assumes "system_env lr wp leases hist recorded held" and "lease_inv (leases w)" and "leases w n = Some l"
    and "leases (runCalls lr wp calls w) n = None"
  shows "\<exists>v l'. hist (runCalls lr wp calls w) (n, v) = Some l' \<and> sameObject l l' \<and>
    (leasePhase l' = PhaseFailed \<or> leasePhase l' = PhaseReleasing) \<and>
    ((\<forall>u k. hist w (n, u) = Some k \<longrightarrow> sameObject l k \<longrightarrow> leasePhase k \<notin> {PhaseFailed, PhaseReleasing}) \<longrightarrow>
       hist w (n, v) = None)"
proof -
  let ?h = "hist (runCalls lr wp calls w)"
  have "recorded (hist w) (leases w)"
    using lease_server.log_now [OF lease_env.axioms(1) [OF system_env.axioms(1) [OF assms(1)]]] .
  then have "recorded ?h (leases w)" using system_env.runCalls_path(2) [OF assms(1)] by (rule recorded_mono)
  from lease_path_removal [OF system_env.runCalls_path(1) [OF assms(1)] assms(2) this assms(3,4)]
  obtain v l' where l': "?h (n, v) = Some l'" "sameObject l l'" "leasePhase l' = PhaseFailed \<or> leasePhase l' = PhaseReleasing"
    unfolding recorded_def by blast
  have "k = l'" if "hist w (n, v) = Some k" for k
    using system_env.runCalls_path(2) [OF assms(1), of w calls] that l'(1) by (force simp: map_le_def dom_def)
  then have "hist w (n, v) = None"
    if "\<forall>u k. hist w (n, u) = Some k \<longrightarrow> sameObject l k \<longrightarrow> leasePhase k \<notin> {PhaseFailed, PhaseReleasing}"
    using that l'(2,3) by (cases "hist w (n, v)") auto
  with l' show ?thesis by blast
qed

lemma exDeleting_inv: "lease_inv (eLeases (exCluster [exDeleting]))"
  unfolding exDeleting_stored
  by (simp add: lease_inv_def lease_ok_def wellNamed_def setVersion_def exDeleting_def markDeleted_def)

theorem no_silent_removal_witness:
  "\<exists>v l'. eHist (runCalls eLeaseReconciler eWarmPoolReconciler [LeaseCall ''n1-gpu-0''] (exCluster [exDeleting])) (''n1-gpu-0'', v) = Some l' \<and>
     (leasePhase l' = PhaseFailed \<or> leasePhase l' = PhaseReleasing) \<and> eHist (exCluster [exDeleting]) (''n1-gpu-0'', v) = None"
proof -
  have old: "\<forall>u k. eHist (exCluster [exDeleting]) (''n1-gpu-0'', u) = Some k \<longrightarrow> leasePhase k \<notin> {PhaseFailed, PhaseReleasing}"
    by (auto simp: eHist_def exCluster_def emptyCluster_def stamp_def exDeleting_def markDeleted_def split: if_splits)
  have gone: "eLeases (runCalls eLeaseReconciler eWarmPoolReconciler [LeaseCall ''n1-gpu-0''] (exCluster [exDeleting]))
      ''n1-gpu-0'' = None"
    using ehe.leaseReconcile_deletion [of "exCluster [exDeleting]" "''n1-gpu-0''" "setVersion 1 exDeleting"] exDeleting_sel
    by (auto simp: exCluster_view exDeleting_stored runCalls_def eView_def)
  show ?thesis
    using no_silent_removal [OF esys.system_env_axioms exDeleting_inv _ gone] exDeleting_stored old by fastforce
qed

section \<open>What a call achieves in a healthy cluster\<close>

text \<open>
  C8: failing leaves nothing behind. When the claim of an Admitted, Activating or Bound lease is
  no longer valid, the next reconcile fails the lease with that reason, deletes its Workload, so
  that the quota is returned, and hands the claim pod back: labelled warm, without lease
  annotations. This holds whatever the pod itself answers.
\<close>

theorem failing_cleans_up:
  assumes "healthy_env r view healthy" and "healthy w" and "v_leases (view w) n = Some l" and "\<not> leaseDeleting l"
    and "Finalizer \<in> set (leaseFinalizers l)" and "leasePhase l \<in> {PhaseAdmitted, PhaseActivating, PhaseBound}"
    and "leaseOrphanReason (v_pods (view w) (ref_Namespace (claimOf l), ref_Name (claimOf l))) l None = reason"
    and "reason \<noteq> ''''"
  shows "\<exists>w' l'. leaseReconcile r n w = (Inr resultDone, w') \<and>
    v_leases (view w') n = Some l' \<and> leaseFailed (lrLib r) reason l l' \<and>
    v_workloads (view w') (ref_Namespace (claimOf l), n) = None \<and>
    (\<forall>p. v_pods (view w) (ref_Namespace (claimOf l), ref_Name (claimOf l)) = Some p \<longrightarrow> claims l p \<longrightarrow>
       (\<exists>p'. v_pods (view w') (ref_Namespace (claimOf l), ref_Name (claimOf l)) = Some p' \<and> podWarm p'))"
proof -
  obtain w' l' where "leaseReconcile r n w = (Inr resultDone, w')"
    "v_leases (view w') = (v_leases (view w))(n \<mapsto> l')" "leaseFailed (lrLib r) reason l l'"
    "v_workloads (view w') = (v_workloads (view w))((ref_Namespace (claimOf l), n) := None)"
    "v_pods (view w') = releasedPods l (v_pods (view w))"
    using healthy_env.leaseReconcile_orphan [OF assms] by blast
  then show ?thesis by (intro exI [of _ w'] exI [of _ l']) (auto simp: releasedPods_def revertWarm_warm)
qed

text \<open>The lease's node is not the pod's: a claim that is invalid although the pod is there.\<close>

definition exMoved :: GPULease where
  "exMoved = (exLease 0 PhaseBound)\<lparr>l_Spec := (l_Spec (exLease 0 PhaseBound))\<lparr>ls_NodeName := ''n2''\<rparr>\<rparr>"

lemma exMoved_stored: "eLeases (exCluster [exMoved]) = [''n1-gpu-0'' \<mapsto> setVersion 1 exMoved]"
  by (auto simp: eLeases_def eHist_def exCluster_def fun_eq_iff exMoved_def stamp_def setVersion_def)

theorem failing_cleans_up_witness:
  "\<exists>w' l' p'. leaseReconcile eLeaseReconciler ''n1-gpu-0'' (exCluster [exMoved]) = (Inr resultDone, w') \<and>
     eLeases w' ''n1-gpu-0'' = Some l' \<and> leasePhase l' = PhaseFailed \<and>
     map_of (e_pods w') (''ns'', ''p0'') = Some p' \<and> podWarm p'"
proof -
  let ?w = "exCluster [exMoved]" and ?l = "setVersion 1 exMoved" and ?k = "(''ns'', ''p0'')"
  have l: "claimOf ?l = claimOf (exLease 0 PhaseBound)" "\<not> leaseDeleting ?l" "Finalizer \<in> set (leaseFinalizers ?l)"
    "leasePhase ?l = PhaseBound"
    by (simp_all add: exMoved_def setVersion_def)
  have r: "leaseOrphanReason (Some exPod) ?l None = ReasonNodeMismatch"
    by (simp add: leaseOrphanReason_def exMoved_def setVersion_def isPodReady_def)
      (simp add: exPod_def newMeta_def)
  have claim: "claims ?l exPod" unfolding claims_def l by (simp add: exPod_def newMeta_def)
  have "\<exists>w' l'. leaseReconcile eLeaseReconciler ''n1-gpu-0'' ?w = (Inr resultDone, w') \<and>
      v_leases (eView w') ''n1-gpu-0'' = Some l' \<and> leaseFailed (lrLib eLeaseReconciler) ReasonNodeMismatch ?l l' \<and>
      v_workloads (eView w') (ref_Namespace (claimOf ?l), ''n1-gpu-0'') = None \<and>
      (\<forall>p. v_pods (eView ?w) (ref_Namespace (claimOf ?l), ref_Name (claimOf ?l)) = Some p \<longrightarrow> claims ?l p \<longrightarrow>
         (\<exists>p'. v_pods (eView w') (ref_Namespace (claimOf ?l), ref_Name (claimOf ?l)) = Some p' \<and> podWarm p'))"
    by (rule failing_cleans_up [OF ehe.healthy_env_axioms exCluster_healthy])
      (use l r in \<open>simp_all add: exCluster_view exMoved_stored ReasonNodeMismatch_def\<close>)
  then obtain w' l' p' where "leaseReconcile eLeaseReconciler ''n1-gpu-0'' ?w = (Inr resultDone, w')"
    "v_leases (eView w') ''n1-gpu-0'' = Some l'" "leaseFailed (lrLib eLeaseReconciler) ReasonNodeMismatch ?l l'"
    "v_pods (eView w') ?k = Some p'" "podWarm p'"
    using claim l(1) by (auto simp: exCluster_view)
  then show ?thesis by (auto simp: eView_def leaseFailed_def)
qed

text \<open>
  C9: a deletion always completes: the reconcile of a lease under deletion deletes its Workload,
  hands its pod back and removes the release finalizer, and with it the lease when no other
  finalizer is left, whatever the pod answers, even if it cannot be reached or is gone.
\<close>

theorem deletion_completes:
  assumes "healthy_env r view healthy" and "healthy w" and "v_leases (view w) n = Some l" and "leaseDeleting l"
    and "Finalizer \<in> set (leaseFinalizers l)"
  shows "\<exists>w'. leaseReconcile r n w = (Inr resultDone, w') \<and>
    (if finalizersLeft l = [] then v_leases (view w') n = None
     else \<exists>l'. v_leases (view w') n = Some l' \<and> leaseFinalizers l' = finalizersLeft l) \<and>
    v_workloads (view w') (ref_Namespace (claimOf l), n) = None \<and>
    v_pods (view w') = releasedPods l (v_pods (view w)) \<and>
    (\<forall>m. m \<noteq> n \<longrightarrow> v_leases (view w') m = v_leases (view w) m)"
proof -
  obtain w' l' where "leaseReconcile r n w = (Inr resultDone, w')"
    "v_leases (view w') = (v_leases (view w))(n := if finalizersLeft l = [] then None else Some l')"
    "leaseFinalizers l' = finalizersLeft l"
    "v_workloads (view w') = (v_workloads (view w))((ref_Namespace (claimOf l), n) := None)"
    "v_pods (view w') = releasedPods l (v_pods (view w))"
    using healthy_env.leaseReconcile_deletion [OF assms] by blast
  then show ?thesis by (intro exI [of _ w']) simp
qed

theorem deletion_completes_witness:
  "\<exists>w'. leaseReconcile eLeaseReconciler ''n1-gpu-0'' (exCluster [exDeleting]) = (Inr resultDone, w') \<and>
     eLeases w' ''n1-gpu-0'' = None"
  using deletion_completes [OF ehe.healthy_env_axioms exCluster_healthy, of "[exDeleting]" "''n1-gpu-0''"
      "setVersion 1 exDeleting"] exDeleting_sel
  by (auto simp: exCluster_view exDeleting_stored) (auto simp: eView_def)

text \<open>
  C10: what garbage collection does with a Failed lease. One that failed at least the retention time
  ago loses its finalizer and is deleted, which frees the name of its (node, GPU) pair for the next
  acquisition. A younger one is kept for diagnosis as long as its claim is valid: the cluster stays as it
  is, and the sweep asks to be called again no later than when the retention time is up. A younger one
  whose claim pod is gone, not ready, on another node or no longer selected is deleted at once: it is
  removed if it has no finalizer, and otherwise under deletion. In each case the sweep goes on with the
  remaining leases, and nothing else in the cluster was touched. The lease is stored as the sweep listed it,
  not under deletion, has no finalizer of anybody else, and did not fail in the future; the
  retention time is a 64-bit duration.
\<close>

theorem failed_lease_reclaimed:
  assumes "healthy_pool r view healthy" and "healthy w" and "v_leases (view w) (leaseName l) = Some l"
    and "leasePhase l = PhaseFailed" and "\<not> leaseDeleting l" and "set (leaseFinalizers l) \<subseteq> {Finalizer}"
    and "age = time_sub (rt_Now (wp_Runtime r) w) (failedSince (wpLib r) l)" and "0 \<le> age"
    and "in_int64 (effectiveFailedLeaseRetention r)"
  shows "\<exists>w' q'. orphanLoop r dep sel q (l # ls) w = orphanLoop r dep sel q' ls w' \<and> healthy w' \<and>
    (if effectiveFailedLeaseRetention r \<le> age then q' = q \<and> view w' = setLease (leaseName l) None (view w)
     else q' = (if 0 < q then min q (effectiveFailedLeaseRetention r - age) else effectiveFailedLeaseRetention r - age) \<and>
       (if claimValid (v_pods (view w) (ref_Namespace (claimOf l), ref_Name (claimOf l))) l (Some sel) then w' = w
        else \<exists>x. view w' = setLease (leaseName l) (if leaseFinalizers l = [] then None else Some x) (view w) \<and>
          leaseDeleting x \<and> l_Status x = l_Status l \<and> l_Spec x = l_Spec l))"
proof (cases "age < effectiveFailedLeaseRetention r")
  case True
  let ?d = "effectiveFailedLeaseRetention r - age"
  have "wrap64 ?d = ?d" by (rule wrap64_id) (use assms(8,9) True in \<open>simp add: in_int64_def\<close>)
  then have young: "reclaimFailedLease r dep l w = (Inr (False, ?d), w)"
    using healthy_pool.reclaim_young [OF assms(1,7) True] by simp
  have q: "minPositiveDuration q ?d = (if 0 < q then min q ?d else ?d)"
    using True by (auto simp: minPositiveDuration_def)
  obtain w' where o: "deleteOrphan r dep sel l w = (Inr (), w')" "healthy w'"
      "if claimValid (v_pods (view w) (ref_Namespace (claimOf l), ref_Name (claimOf l))) l (Some sel) then w' = w
       else \<exists>x. view w' = setLease (leaseName l) (if leaseFinalizers l = [] then None else Some x) (view w) \<and>
         leaseDeleting x \<and> l_Status x = l_Status l \<and> l_Spec x = l_Spec l"
  proof (cases "claimValid (v_pods (view w) (ref_Namespace (claimOf l), ref_Name (claimOf l))) l (Some sel)")
    case valid: True
    then show ?thesis using that healthy_pool.deleteOrphan_valid [OF assms(1,2) valid, of dep] assms(2) by simp
  next
    case invalid: False
    obtain x w1 where "deleteOrphan r dep sel l w = (Inr (), w1)" "healthy w1"
        "view w1 = setLease (leaseName l) (if leaseFinalizers l = [] then None else Some x) (view w)"
        "leaseDeleting x" "l_Status x = l_Status l" "l_Spec x = l_Spec l"
      using healthy_pool.deleteOrphan_invalid [OF assms(1-3) invalid, of dep] by blast
    with invalid show ?thesis using that [of w1] by auto
  qed
  have "orphanLoop r dep sel q (l # ls) w = orphanLoop r dep sel (minPositiveDuration q ?d) ls w'"
    using young o(1) assms(4,5) True by (simp add: bnd_app [of "reclaimFailedLease r dep l"] bnd_app [of "deleteOrphan r dep sel l"])
  with o(2,3) True show ?thesis
    unfolding q by (intro exI [of _ w'] exI [of _ "if 0 < q then min q ?d else ?d"]) simp
next
  case False
  then obtain w' where "reclaimFailedLease r dep l w = (Inr (True, 0), w')" "healthy w'"
      "view w' = setLease (leaseName l) None (view w)"
    using healthy_pool.reclaim_old [OF assms(1-3,5,6)] assms(7) by auto
  with False assms(4,5) show ?thesis
    by (intro exI [of _ w'] exI [of _ q]) (simp add: bnd_app [of "reclaimFailedLease r dep l"])
qed

text \<open>
  Witness of failed\_lease\_reclaimed: with a retention time of 60 s, a lease that failed 1000 s ago is
  removed; one that failed 10 s ago and whose pod the Deployment does not select any more is put under
  deletion, and the sweep would look at it again in 50 s.
\<close>

definition exYoung :: GPULease where
  "exYoung = (exLease 0 PhaseFailed)\<lparr>l_Meta := (l_Meta (exLease 0 PhaseFailed))\<lparr>om_CreationTimestamp := 990 * Second\<rparr>\<rparr>"

definition exNoSelector :: Selector where
  "exNoSelector = \<lparr> sel_Matches = (\<lambda>_. False), sel_Empty = False \<rparr>"

lemma exYoung_sel:
  "leaseName (setVersion 1 exYoung) = ''n1-gpu-0''" "leasePhase (setVersion 1 exYoung) = PhaseFailed"
  "\<not> leaseDeleting (setVersion 1 exYoung)" "leaseFinalizers (setVersion 1 exYoung) = [Finalizer]"
  "eLeases (exCluster [exYoung]) = [''n1-gpu-0'' \<mapsto> setVersion 1 exYoung]"
  by (simp_all add: exYoung_def setVersion_def)
    (auto simp: eLeases_def eHist_def exCluster_def fun_eq_iff stamp_def)

lemma exRetention: "effectiveFailedLeaseRetention eWarmPoolReconciler = 60000000000"
  by (simp add: effectiveFailedLeaseRetention_def eWarmPoolReconciler_def DefaultFailedLeaseRetention_def Second_def)

theorem failed_lease_reclaimed_witness:
  "(\<exists>w'. orphanLoop eWarmPoolReconciler exDeployment exNoSelector 0 [setVersion 1 (exLease 0 PhaseFailed)]
       (exCluster [exLease 0 PhaseFailed]) = (Inr 0, w') \<and> eLeases w' ''n1-gpu-0'' = None) \<and>
   (\<exists>w' x. orphanLoop eWarmPoolReconciler exDeployment exNoSelector 0 [setVersion 1 exYoung]
       (exCluster [exYoung]) = (Inr (50 * Second), w') \<and> eLeases w' ''n1-gpu-0'' = Some x \<and> leaseDeleting x)"
proof
  let ?r = eWarmPoolReconciler and ?l = "setVersion 1 (exLease 0 PhaseFailed)" and ?w = "exCluster [exLease 0 PhaseFailed]"
  let ?y = "setVersion 1 exYoung" and ?v = "exCluster [exYoung]"
  have age: "1000000000000 = time_sub (rt_Now (wp_Runtime ?r) ?w) (failedSince (wpLib ?r) ?l)"
    "10000000000 = time_sub (rt_Now (wp_Runtime ?r) ?v) (failedSince (wpLib ?r) ?y)"
    by (simp_all add: failedSince_def eWarmPoolReconciler_def eRuntime_def eLib_def setVersion_def time_sub_def exCluster_def
        exYoung_def Second_def)
  note reclaimed = failed_lease_reclaimed [OF ehp.healthy_pool_axioms exCluster_healthy, where dep = exDeployment and
      sel = exNoSelector and q = 0 and ls = "[]"]
  have pre: "v_leases (eView ?w) (leaseName ?l) = Some ?l" "leasePhase ?l = PhaseFailed" "\<not> leaseDeleting ?l"
    "set (leaseFinalizers ?l) \<subseteq> {Finalizer}" "leaseName ?l = ''n1-gpu-0''"
    by (simp_all add: exCluster_view exCluster_leases setVersion_def)
  have pre': "v_leases (eView ?v) (leaseName ?y) = Some ?y" "set (leaseFinalizers ?y) \<subseteq> {Finalizer}"
    by (simp_all only: exYoung_sel exCluster_view) simp_all
  have ret: "0 \<le> (1000000000000 :: duration)" "0 \<le> (10000000000 :: duration)"
    "in_int64 (effectiveFailedLeaseRetention ?r)"
    by (simp_all add: exRetention in_int64_def)
  obtain w1 q1 where "orphanLoop ?r exDeployment exNoSelector 0 [?l] ?w = orphanLoop ?r exDeployment exNoSelector q1 [] w1"
      "q1 = 0" "eView w1 = setLease (leaseName ?l) None (eView ?w)"
    using reclaimed [OF pre(1-4) age(1) ret(1,3)] by (auto simp: exRetention)
  then show "\<exists>w'. orphanLoop ?r exDeployment exNoSelector 0 [?l] ?w = (Inr 0, w') \<and> eLeases w' ''n1-gpu-0'' = None"
    unfolding pre(5) by (auto simp: eView_def setLease_def)
  have bad: "\<not> claimValid p ?y (Some exNoSelector)" for p by (simp add: claimValid_def exNoSelector_def)
  obtain w2 q2 x where "orphanLoop ?r exDeployment exNoSelector 0 [?y] ?v = orphanLoop ?r exDeployment exNoSelector q2 [] w2"
      "q2 = 50 * Second" "eView w2 = setLease (leaseName ?y) (Some x) (eView ?v)" "leaseDeleting x"
    using reclaimed [OF pre'(1) exYoung_sel(2,3) pre'(2) age(2) ret(2,3)] bad exYoung_sel(4)
    by (auto simp: exRetention Second_def)
  then show "\<exists>w' x. orphanLoop ?r exDeployment exNoSelector 0 [?y] ?v = (Inr (50 * Second), w') \<and>
      eLeases w' ''n1-gpu-0'' = Some x \<and> leaseDeleting x"
    unfolding exYoung_sel(1) by (auto simp: eView_def setLease_def)
qed

section \<open>Error paths and polling\<close>



text \<open>
  C27: waiting for admission neither gives up early nor sleeps through the deadline. While Kueue
  has neither admitted nor refused the Workload and the admission timeout has not passed, the
  reconcile changes nothing and comes back after a positive time that is at most the poll
  interval and never past the deadline; from the deadline on, the lease fails with
  QuotaExhaustedOnNode.
\<close>

theorem admission_polling:
  assumes "\<not> isWorkloadAdmitted (lrLib r) wl" and "\<not> fst (workloadInadmissible (lrLib r) wl)"
    and "elapsed = time_sub (lrNow r w) (admissionAnchor (lrLib r) wl)" and "0 \<le> elapsed"
    and "timeout = AdmissionTimeout (deploymentSettings r l w)"
  shows "if elapsed < timeout
    then \<exists>d. evaluateAdmission r l wl w = (Inr (resultAfter d), w) \<and> 0 < d \<and> d \<le> pollInterval \<and> elapsed + d \<le> timeout
    else \<exists>m. evaluateAdmission r l wl w = transitionToFailed r l ReasonQuotaExhaustedOnNode m w"
proof -
  obtain km where inadm: "workloadInadmissible (lrLib r) wl = (False, km)"
    using assms(2) by (cases "workloadInadmissible (lrLib r) wl") auto
  have "in_int64 timeout"
    using assms(5) durSetting_range [of DefaultAdmissionTimeout]
    by (auto simp: deploymentSettings_def ParseDeploymentSettings_def DefaultAdmissionTimeout_def Second_def in_int64_def
        split: sum.splits)
  then have "elapsed < timeout \<Longrightarrow> wrap64 (timeout - elapsed) = timeout - elapsed"
    using assms(4) by (intro wrap64_id) (simp add: in_int64_def)
  then show ?thesis
    using assms(1,3,5) inadm
    by (auto simp: evaluateAdmission_def nextPoll_def pollInterval_def Second_def not_le)
qed

theorem admission_polling_witness:
  "\<exists>d. evaluateAdmission eLeaseReconciler (exLease 0 PhasePending) (buildWorkload (exLease 0 PhasePending)) emptyCluster =
     (Inr (resultAfter d), emptyCluster) \<and> 0 < d \<and> d \<le> pollInterval"
proof -
  let ?wl = "buildWorkload (exLease 0 PhasePending)"
  have "\<not> isWorkloadAdmitted (lrLib eLeaseReconciler) ?wl" "\<not> fst (workloadInadmissible (lrLib eLeaseReconciler) ?wl)"
    "0 = time_sub (lrNow eLeaseReconciler emptyCluster) (admissionAnchor (lrLib eLeaseReconciler) ?wl)"
    by (simp_all add: isWorkloadAdmitted_def workloadInadmissible_def wlCondition_def admissionAnchor_def buildWorkload_def
        eLeaseReconciler_def eRuntime_def eLib_def lrNow_def emptyCluster_def newMeta_def time_sub_def)
  moreover have "AdmissionTimeout (deploymentSettings eLeaseReconciler (exLease 0 PhasePending) emptyCluster) = 60000000000"
    by (simp add: deploymentSettings_def eLeaseReconciler_def eClient_def aGet_def emptyCluster_def
        ParseDeploymentSettings_def durSetting_def DefaultAdmissionTimeout_def Second_def)
  ultimately show ?thesis
    using admission_polling [of eLeaseReconciler ?wl 0 emptyCluster 60000000000 "exLease 0 PhasePending"] by auto
qed

section \<open>The warm pool\<close>

text \<open>
  C21: a successful acquisition takes a GPU of the pod's node that no lease was seen to hold:
  the new lease is stored under the derived name, carries the release finalizer from the
  start, names this pod and this Deployment, and its index is within the node's capacity. A
  lost race for one index only moves on to the next.
\<close>

theorem acquire_takes_free_gpu:
  assumes "pool_env r leases hist log held" and "acquireLeaseOnNode r dep st pod node w = (Inr l, w')"
  shows "\<exists>i cap m. inv_NodeCapacity (wp_Inventory r) node w = Inr (cap, m) \<and> 0 \<le> i \<and> i < cap \<and> i \<notin> held w node \<and>
    leases w' (LeaseName node i) = Some l \<and> leaseName l = LeaseName node i \<and> leaseNode l = node \<and> leaseGPU l = i \<and>
    leaseFinalizers l = [Finalizer] \<and>
    claimOf l = \<lparr> ref_Namespace = podNamespace pod, ref_Name = podName pod, ref_UID = om_UID (p_Meta pod) \<rparr> \<and>
    ref_Name (deploymentOf l) = depName dep"
  using pool_env.acquire_result [OF assms] by (auto simp: newLease_def)

lemma exAcquire:
  "\<exists>l w'. acquireLeaseOnNode eWarmPoolReconciler exDeployment (ParseDeploymentSettings Map.empty ''app'') exPod ''n1''
     (exCluster [exLease 0 PhaseBound]) = (Inr l, w') \<and> e_faults w' = [] \<and> map_of (e_pods w') (''ns'', ''p0'') = Some exPod"
proof -
  let ?w = "exCluster [exLease 0 PhaseBound]"
  let ?l = "newLease exDeployment (ParseDeploymentSettings Map.empty ''app'') exPod ''n1'' ''H100'' 1"
  have "leaseName ?l = ''n1-gpu-1''" by (simp add: newLease_def newMeta_def)
  then have "\<exists>l w'. createLease eClient ?l ?w = (Inr l, w') \<and> e_faults w' = [] \<and> map_of (e_pods w') (''ns'', ''p0'') = Some exPod"
    by (simp add: eClient_def eCreateLease_def exCluster_leases Let_def putLease_def) (simp add: exCluster_def emptyCluster_def)
  then show ?thesis
    by (auto simp: acquireLeaseOnNode_def bnd_app mapErr_app eWarmPoolReconciler_def free_exCluster node_exCluster attempt_app)
qed

theorem acquire_takes_free_gpu_witness:
  "\<exists>l w' i. acquireLeaseOnNode eWarmPoolReconciler exDeployment (ParseDeploymentSettings Map.empty ''app'') exPod ''n1''
       (exCluster [exLease 0 PhaseBound]) = (Inr l, w') \<and> i \<noteq> 0 \<and> eLeases w' (LeaseName ''n1'' i) = Some l"
proof -
  obtain l w' where a: "acquireLeaseOnNode eWarmPoolReconciler exDeployment (ParseDeploymentSettings Map.empty ''app'') exPod ''n1''
      (exCluster [exLease 0 PhaseBound]) = (Inr l, w')" using exAcquire by blast
  from acquire_takes_free_gpu [OF ewp.pool_env_axioms a] a held_exCluster show ?thesis by fastforce
qed

text \<open>
  C22: promotion never overshoots. Whatever the client answers, and also when \<open>promote\<close> stops with an
  error half-way, the number of leases it creates is at most the number needed; a create that failed
  but took effect, its answer lost, is counted too. When it returns without error, the number it
  reports is the number of leases it created, and at most the number of warm pods that sit on a node
  with a free GPU.
\<close>

theorem promote_never_overshoots:
  assumes "lease_count r made" and "promote r dep st pods need free w = (res, w')" and "0 \<le> need"
  shows "made w \<le> made w' \<and> int (made w' - made w) \<le> need \<and>
    (\<forall>k. res = Inr k \<longrightarrow> k = int (made w' - made w) \<and>
       k \<le> int (length (filter (\<lambda>p. 0 < mapGet free (p_NodeName p)) pods)))"
  using lease_count.promote_made [OF assms] by (simp add: sortPromotionCandidates_def del: of_nat_diff)

text \<open>
  Witness of promote\_never\_overshoots: two pods of the example cluster, whose node has two GPUs, are
  candidates, one is needed; the store holds exactly one lease more afterwards.
\<close>

lemma exPromote:
  "\<exists>k w'. promote eWarmPoolReconciler exDeployment (ParseDeploymentSettings Map.empty ''app'') [exPod, exPod] 1 [(''n1'', 2)]
     (exCluster [exLease 0 PhaseBound]) = (Inr k, w') \<and> k = 1"
proof -
  let ?w = "exCluster [exLease 0 PhaseBound]" and ?st = "ParseDeploymentSettings Map.empty ''app''"
  obtain l w1 where a: "acquireLeaseOnNode eWarmPoolReconciler exDeployment ?st exPod ''n1'' ?w = (Inr l, w1)" "e_faults w1 = []"
      "map_of (e_pods w1) (''ns'', ''p0'') = Some exPod"
    using exAcquire by blast
  have "podNamespace exPod = ''ns''" "podName exPod = ''p0''" by (simp_all add: exPod_def newMeta_def)
  then have "\<exists>p w2. patchPodStateLabel (wp_Client eWarmPoolReconciler) exPod StateActivating w1 = (Inr p, w2)"
    using a(2,3) by (simp add: patchPodStateLabel_def mapErr_app eWarmPoolReconciler_def eClient_def withFaults_def ePatchPod_def
        Let_def)
  then obtain p w2 where pt: "patchPodStateLabel (wp_Client eWarmPoolReconciler) exPod StateActivating w1 = (Inr p, w2)"
    by blast
  have c: "sortPromotionCandidates [exPod, exPod] [(''n1'', 2)] = [exPod, exPod]"
    by (simp add: sortPromotionCandidates_def mapGet_def)
  obtain w3 where l: "promoteLoop eWarmPoolReconciler exDeployment ?st 1 0 [exPod, exPod] ?w = (Inr 1, w3)"
    using a(1) pt by (simp add: bnd_attempt_app bnd_app [of "patchPodStateLabel _ _ _"])
  show ?thesis
    unfolding promote_def Let_def c bnd_app [of "promoteLoop _ _ _ _ _ _"] l prod.case sum.case by simp
qed

theorem promote_never_overshoots_witness:
  "\<exists>w'. promote eWarmPoolReconciler exDeployment (ParseDeploymentSettings Map.empty ''app'') [exPod, exPod] 1 [(''n1'', 2)]
     (exCluster [exLease 0 PhaseBound]) = (Inr 1, w') \<and> eMade w' = eMade (exCluster [exLease 0 PhaseBound]) + 1"
proof -
  obtain w' where p: "promote eWarmPoolReconciler exDeployment (ParseDeploymentSettings Map.empty ''app'') [exPod, exPod] 1
      [(''n1'', 2)] (exCluster [exLease 0 PhaseBound]) = (Inr 1, w')"
    using exPromote by blast
  from promote_never_overshoots [OF emade.lease_count_axioms p] p show ?thesis by fastforce
qed

text \<open>
  C23: a managed Deployment is never forgotten. Every reconcile of the pool that returns without error
  and found a Deployment that is managed and whose selector can be read asks to be called again after
  a positive time: at most the resync period, or the blocked-promotion delay if that is longer, and
  no later than when the next Failed lease of the Deployment is due for garbage collection. Only if
  there is no such Deployment does it return without a request to be called again, and then
  it has done nothing.
\<close>

theorem pool_always_requeues:
  assumes "warmPoolReconcile r ns n w = (Inr res, w')"
  shows "case getDeployment (wp_Client r) ns n w of
      Inl e \<Rightarrow> IsNotFound e \<and> res = resultDone \<and> w' = w
    | Inr dep \<Rightarrow>
        if poolManages r dep
        then \<not> Requeue res \<and> 0 < RequeueAfter res \<and>
          RequeueAfter res \<le> max (effectiveResyncPeriod r) blockedPromotionRequeueAfter \<and>
          (\<exists>sel q w1. deploymentSelector (wpLib r) dep = Inr sel \<and> reconcileOrphans r dep sel w = (Inr q, w1) \<and>
             (0 < q \<longrightarrow> RequeueAfter res \<le> q))
        else res = resultDone \<and> w' = w"
proof (cases "getDeployment (wp_Client r) ns n w")
  case (Inl e)
  then have "IsNotFound e" using assms by (simp add: warmPoolReconcile_def bnd_app split: if_splits)
  with Inl warmPoolReconcile_unmanaged [OF assms] show ?thesis by simp
next
  case (Inr dep)
  show ?thesis
  proof (cases "poolManages r dep")
    case True
    then obtain sel where sel: "IsManaged (depAnnotations dep)" "deploymentSelector (wpLib r) dep = Inr sel"
      by (auto simp: poolManages_def)
    from warmPoolReconcile_managed [OF assms Inr sel] sel(2) Inr True show ?thesis by auto
  next
    case False
    with Inr warmPoolReconcile_unmanaged [OF assms] show ?thesis by simp
  qed
qed

theorem pool_always_requeues_witness:
  "\<exists>res w'. warmPoolReconcile eWarmPoolReconciler ''ns'' ''app''
       (emptyCluster\<lparr>e_deployments := [((''ns'', ''app''), exDeployment)]\<rparr>) = (Inr res, w') \<and> 0 < RequeueAfter res"
proof -
  let ?w = "emptyCluster\<lparr>e_deployments := [((''ns'', ''app''), exDeployment)]\<rparr>"
  let ?sel = "\<lparr> sel_Matches = (\<lambda>m. m ''app'' = Some ''x''), sel_Empty = False \<rparr>"
  let ?st = "ParseDeploymentSettings (depAnnotations exDeployment) (depName exDeployment)"
  have dep: "getDeployment (wp_Client eWarmPoolReconciler) ''ns'' ''app'' ?w = Inr exDeployment"
    by (simp add: eWarmPoolReconciler_def eClient_def aGet_def)
  have man: "IsManaged (depAnnotations exDeployment)"
    by (simp add: exDeployment_def IsManaged_def)
  have sel: "deploymentSelector (wpLib eWarmPoolReconciler) exDeployment = Inr ?sel"
    by (simp add: deploymentSelector_def exDeployment_def eWarmPoolReconciler_def eRuntime_def eLib_def)
  have orph: "reconcileOrphans eWarmPoolReconciler exDeployment ?sel ?w = (Inr 0, ?w)"
    by (simp add: reconcileOrphans_def bnd_query_app leasesForDeployment_def eWarmPoolReconciler_def eClient_def
        eListLeases_def emptyCluster_def map_filter_simps)
  have pods: "listDeploymentPods (wpLib eWarmPoolReconciler) (wp_Client eWarmPoolReconciler) exDeployment ?w = Inr []"
    by (simp add: listDeploymentPods_def sel) (simp add: eWarmPoolReconciler_def eClient_def emptyCluster_def)
  have "MinHotReplicas ?st = 1" "WarmReplicas ?st = 2"
    by (simp_all add: ParseDeploymentSettings_def intSetting_def exDeployment_def deployment_annotation_defs newMeta_def
        DefaultMinHotReplicas_def DefaultWarmReplicas_def)
  then have reb: "rebalance eWarmPoolReconciler exDeployment ?st [] w1 = (Inr False, w1)" for w1
    by (simp add: rebalance_def targetHot_def)
  obtain res w' where r: "warmPoolReconcile eWarmPoolReconciler ''ns'' ''app'' ?w = (Inr res, w')"
    by (simp add: warmPoolReconcile_def dep man sel bnd_app mapErr_app orph pods reb Let_def)
  have "poolManages eWarmPoolReconciler exDeployment" using man sel by (simp add: poolManages_def)
  with pool_always_requeues [OF r] r dep show ?thesis by auto
qed

section \<open>The controllers as the manager runs them\<close>

text \<open>
  C12: the wiring keeps mutual exclusion. The two reconcilers exactly as \<open>main\<close> creates them and
  \<open>SetupWithManager\<close> completes them (one client for both, the client-backed inventory, the HTTP
  pod client, event recorders) keep the lease invariant through any sequence of their calls, in
  every world in which the API server, the libraries and the network behave as documented; and
  the periods they run with are the documented defaults.
\<close>

theorem manager_keeps_exclusion:
  assumes "manager_env mgr leases hist log" and "lease_inv (leases w)"
  shows "lease_inv (leases (runCalls (managerLeaseReconciler mgr) (managerWarmPoolReconciler mgr) calls w)) \<and>
    effectiveResyncPeriod (managerWarmPoolReconciler mgr) = 15 * Second \<and>
    effectiveFailedLeaseRetention (managerWarmPoolReconciler mgr) = 60 * Second"
proof -
  have "system_env (managerLeaseReconciler mgr) (managerWarmPoolReconciler mgr) leases hist log (heldIDs (mgr_GetClient mgr))"
    using manager_env.reconcilers [OF assms(1)] by (intro system_env.intro)
  from lease_steps_inv [OF system_env.runCalls_steps [OF this] assms(2)]
  show ?thesis
    by (simp add: effectiveResyncPeriod_def effectiveFailedLeaseRetention_def manager_defs DefaultFailedLeaseRetention_def
        DefaultWarmPoolResyncPeriod_def)
qed

theorem manager_keeps_exclusion_witness:
  "lease_inv (eLeases (runCalls (managerLeaseReconciler eManager) (managerWarmPoolReconciler eManager)
     [PoolCall ''ns'' ''app'', LeaseCall ''n1-gpu-0''] (exCluster [exLease 0 PhasePending])))"
  using manager_keeps_exclusion [OF emgr.manager_env_axioms exCluster_invariant] by blast

lemma selected_iff:
  "(case d_Selector d of
      None \<Rightarrow> False
    | Some s \<Rightarrow> (case LabelSelectorAsSelector lib s of Inl err \<Rightarrow> False | Inr sel \<Rightarrow> \<not> sel_Empty sel \<and> sel_Matches sel m)) \<longleftrightarrow>
   (\<exists>sel. deploymentSelector lib d = Inr sel \<and> \<not> sel_Empty sel \<and> sel_Matches sel m)"
  by (auto simp: deploymentSelector_def split: option.splits sum.splits)

text \<open>
  C24: every change reaches the controller that must see it. An event of a pod triggers exactly
  the managed Deployments of its namespace whose selector is not empty and matches the pod's
  labels, and an event of a Deployment that Deployment, exactly if it is managed. An event of a lease,
  whatever its phase and metadata and also under deletion, triggers the reconcile of that lease and, if
  it carries the spec with which the pool created it, that of the Deployment it was created for.
\<close>

theorem watch_routing:
  assumes "listDeployments (wp_Client r) (podNamespace p) w = Inr deps" and "depName d \<noteq> ''''"
    and "sameClaim (newLease d st pod node model i) l"
  shows "set (poolRequests r (WPod p) w) =
      {(depNamespace d, depName d) | d sel. d \<in> set deps \<and> IsManaged (depAnnotations d) \<and>
         deploymentSelector (wpLib r) d = Inr sel \<and> \<not> sel_Empty sel \<and> sel_Matches sel (podLabels p)} \<and>
    poolRequests r (WDeployment d) w = (if IsManaged (depAnnotations d) then [(depNamespace d, depName d)] else []) \<and>
    poolRequests r (WLease l) w = [(depNamespace d, depName d)] \<and>
    leaseRequests owner (WLease l) = [LeaseName node i]"
proof -
  have "set (mapPodToDeployment r p w) = (\<lambda>d. (depNamespace d, depName d)) ` {d \<in> set deps. IsManaged (depAnnotations d) \<and>
      (\<exists>sel. deploymentSelector (wpLib r) d = Inr sel \<and> \<not> sel_Empty sel \<and> sel_Matches sel (podLabels p))}"
    using assms(1) by (simp add: mapPodToDeployment_def selected_iff)
  moreover have "poolRequests r (WLease l) w = [(depNamespace d, depName d)]"
    using assms(2,3) by (simp add: mapLeaseToDeployment_def sameClaim_def newLease_def)
  ultimately show ?thesis using assms(3) by (auto simp: sameClaim_def newLease_def newMeta_def)
qed

text \<open>
  Witness of watch\_routing: the pod of the example cluster, and a lease for it that failed.
\<close>

theorem watch_routing_witness:
  "set (poolRequests eWarmPoolReconciler (WPod exPod) (exCluster [])) = {(''ns'', ''app'')} \<and>
   poolRequests eWarmPoolReconciler (WLease (markDeleted 7 (exLease 0 PhaseFailed))) (exCluster []) = [(''ns'', ''app'')]"
proof -
  let ?w = "exCluster []"
  have ns: "podNamespace exPod = ''ns''" "depNamespace exDeployment = ''ns''" "depName exDeployment = ''app''"
    by (simp_all add: exPod_def exDeployment_def newMeta_def)
  have deps: "listDeployments (wp_Client eWarmPoolReconciler) (podNamespace exPod) ?w = Inr [exDeployment]"
    by (simp add: eWarmPoolReconciler_def eClient_def exCluster_def ns)
  have sel: "deploymentSelector (wpLib eWarmPoolReconciler) exDeployment =
      Inr \<lparr> sel_Matches = (\<lambda>m. m ''app'' = Some ''x''), sel_Empty = False \<rparr>" and "IsManaged (depAnnotations exDeployment)"
    and "podLabels exPod ''app'' = Some ''x''"
    by (simp_all add: deploymentSelector_def exDeployment_def eWarmPoolReconciler_def eRuntime_def eLib_def IsManaged_def
        exPod_def StateLabelKey_def)
  moreover have "sameClaim (newLease exDeployment (ParseDeploymentSettings Map.empty ''app'') exPod ''n1'' ''H100'' 0)
      (markDeleted 7 (exLease 0 PhaseFailed))"
    by (simp add: sameClaim_def markDeleted_def exLease_def Let_def)
  ultimately show ?thesis
    using watch_routing [OF deps, of exDeployment] ns by auto
qed

section \<open>Where the code does not do what it means to\<close>

lemma deleteLease_marks:
  assumes "eLeases w (leaseName l) = Some l0" and "leaseFinalizers l0 \<noteq> []" and "\<not> leaseDeleting l0" and "e_faults w = []"
  shows "deleteLease eClient l w = (Inr (), putLease (leaseName l) (markDeleted (e_now w) l0) w)"
  using assms by (simp add: eClient_def withFaults_def eDeleteLease_def)

text \<open>
  C38: demoting a pod can leave its GPU held. When a retained Failed lease of the same pod comes
  first in the list (the pod was promoted again within the retention time), \<open>demote\<close> labels the
  pod releasing but deletes the Failed lease: the Bound lease, the one that holds the pod's GPU,
  is still Bound and not under deletion.
\<close>

theorem demote_leaves_bound_lease:
  "\<exists>w' p l k. demote eWarmPoolReconciler exDeployment [exPod] 1 (exCluster [exLease 0 PhaseFailed, exLease 1 PhaseBound]) =
       (Inr (), w') \<and>
     map_of (e_pods w') (''ns'', ''p0'') = Some p \<and> podState p = StateReleasing \<and>
     eLeases w' ''n1-gpu-0'' = Some l \<and> leasePhase l = PhaseFailed \<and> leaseDeleting l \<and>
     eLeases w' ''n1-gpu-1'' = Some k \<and> leasePhase k = PhaseBound \<and> \<not> leaseDeleting k \<and> claims k p"
proof -
  let ?w = "exCluster [exLease 0 PhaseFailed, exLease 1 PhaseBound]"
  let ?l = "setVersion 1 (exLease 0 PhaseFailed)" and ?k = "setVersion 1 (exLease 1 PhaseBound)"
  let ?p = "setLabel StateLabelKey StateReleasing exPod"
  let ?w1 = "?w\<lparr>e_pods := [((''ns'', ''p0''), ?p)]\<rparr>"
  have stored: "eLeases ?w1 = [''n1-gpu-0'' \<mapsto> ?l, ''n1-gpu-1'' \<mapsto> ?k]"
    using view_cong(1) [of ?w1 ?w] exCluster_two by simp
  have ls: "leasesForDeployment eWarmPoolReconciler exDeployment ?w = Inr [?l, ?k]"
    by (simp add: leasesForDeployment_def eWarmPoolReconciler_def eClient_def eListLeases_def exCluster_two)
      (simp add: exCluster_def map_filter_simps setVersion_def exDeployment_def newMeta_def)
  have find: "findLeaseForPod [?l, ?k] exPod = Some ?l"
    by (simp add: setVersion_def) (simp add: exPod_def newMeta_def)
  have patch: "patchPodStateLabel eClient exPod StateReleasing ?w = (Inr ?p, ?w1)"
  proof -
    show ?thesis
      by (simp add: patchPodStateLabel_def mapErr_app eClient_def withFaults_def ePatchPod_def exCluster_def emptyCluster_def
          mergeKeys_self) (simp add: setLabel_def exPod_def newMeta_def Let_def)
  qed
  let ?w2 = "putLease ''n1-gpu-0'' (markDeleted (1000 * Second) ?l) ?w1"
  have del: "deleteLease eClient ?l ?w1 = (Inr (), ?w2)"
    using deleteLease_marks [of ?w1 ?l ?l] stored by (simp add: setVersion_def exCluster_def emptyCluster_def)
  have "\<exists>w3. demoteLoop eWarmPoolReconciler exDeployment [?l, ?k] 1 0 [exPod] ?w = (Inr (), w3) \<and>
      e_cur w3 = e_cur ?w2 \<and> e_data w3 = e_data ?w2 \<and> e_pods w3 = e_pods ?w2"
    using find patch del
    by (simp add: bnd_app attempt_app wpEvent_def del: findLeaseForPod.simps)
      (simp add: eWarmPoolReconciler_def bnd_app attempt_app eRuntime_def eRecorder_def)
  then obtain w3 where run: "demoteLoop eWarmPoolReconciler exDeployment [?l, ?k] 1 0 [exPod] ?w = (Inr (), w3)"
    and same: "e_cur w3 = e_cur ?w2" "e_data w3 = e_data ?w2" "e_pods w3 = e_pods ?w2" by blast
  have "eLeases w3 = (eLeases ?w1)(''n1-gpu-0'' \<mapsto> stamp ''n1-gpu-0'' (freshVersion ?w1) (markDeleted (1000 * Second) ?l))"
    using view_cong(1) [OF same(1,2)] eLeases_put by simp
  moreover have "demote eWarmPoolReconciler exDeployment [exPod] 1 ?w = (Inr (), w3)"
    using run ls by (simp add: demote_def sortDemotionCandidates_def bnd_query_app)
  moreover have "map_of (e_pods w3) (''ns'', ''p0'') = Some ?p" using same(3) by (simp add: putLease_def)
  moreover have "podState ?p = StateReleasing" by (simp add: state_defs)
  moreover have "claims ?k ?p" using exPod_claims [of 1 1 PhaseBound] by (simp add: claims_def setLabel_def)
  ultimately show ?thesis using stored by (auto simp: stamp_def markDeleted_def setVersion_def)
qed

lemma wrap32_over:
  assumes "2 ^ 31 \<le> x" and "x < 2 ^ 32"
  shows "wrap32 x = x - 2 ^ 32"
proof -
  have "(x + 2147483648) mod 4294967296 = ((x - 2147483648) + 4294967296) mod 4294967296" by (simp add: add.commute)
  also have "\<dots> = (x - 2147483648) mod 4294967296" by (rule mod_add_self2)
  also have "\<dots> = x - 2147483648" using assms by (intro mod_pos_pos_trivial) auto
  finally show ?thesis by (simp add: wrap_def)
qed

text \<open>
  The WarmDeficit warning is given exactly when the ready pods are fewer than the two floors
  together, provided that the sum of the floors is a 32-bit number; beyond that the sum wraps
  around to a negative number and the warning is never given, however few pods are ready.
\<close>

lemma warm_deficit_iff:
  assumes "settings_ok s" and "0 \<le> readyCount" and "readyCount < 2 ^ 31"
  shows "warmDeficit readyCount s \<longleftrightarrow>
    readyCount < MinHotReplicas s + WarmReplicas s \<and> MinHotReplicas s + WarmReplicas s < 2 ^ 31"
proof (cases "MinHotReplicas s + WarmReplicas s < 2 ^ 31")
  case True
  with assms show ?thesis by (simp add: warmDeficit_def settings_ok_def wrap32_id in_int32_def)
next
  case False
  then have "wrap32 (MinHotReplicas s + WarmReplicas s) = MinHotReplicas s + WarmReplicas s - 2 ^ 32"
    using assms(1) by (intro wrap32_over) (simp_all add: settings_ok_def in_int32_def)
  with False assms show ?thesis by (simp add: warmDeficit_def settings_ok_def wrap32_id in_int32_def)
qed

lemma warm_deficit_overflow:
  "\<not> warmDeficit 0 \<lparr> WarmReplicas = 2, MinHotReplicas = 2147483647, LocalQueueName = ''q'', PodCapacityRPS = 10,
     ActivationTimeout = 1, AdmissionTimeout = 1 \<rparr>"
  by (subst warm_deficit_iff) (simp_all add: settings_ok_def in_int32_def in_int64_def)

end
